(* ===== verification/Prelude.thy ===== *)
theory Prelude
  imports Main "HOL-Library.Word" "HOL-Library.Sublist"
begin

text \<open>
  Shared vocabulary of the development: bytes, the string operations of the Rust standard library
  that the program calls, decimal and hexadecimal text, and the collections of facts the other
  theories extend.

  A Rust \<open>String\<close> is its UTF-8 byte sequence, held as an Isabelle \<^typ>\<open>string\<close>
  (a list of 8-bit characters), so \<open>len()\<close> is \<^const>\<open>length\<close> and \<open>as_bytes()\<close>
  is a change of type only. A \<open>[u8]\<close> or \<open>Vec<u8>\<close> is a list of 8-bit words.
\<close>

named_theorems std_simps \<open>evaluation of the modelled standard-library functions\<close>
named_theorems io_simps \<open>running the effect combinators\<close>
named_theorems panic_free_intros \<open>composition rules for operations that cannot panic\<close>
named_theorems confined_intros \<open>composition rules for the events an operation may emit\<close>

type_synonym byte = "8 word"
type_synonym bytes = "byte list"
type_synonym u16 = "16 word"
type_synonym u32 = "32 word"
type_synonym i32 = "32 word"
type_synonym u64 = "64 word"

section \<open>Results\<close>

fun bind_result :: "'e + 'a \<Rightarrow> ('a \<Rightarrow> 'e + 'b) \<Rightarrow> 'e + 'b" where
  "bind_result (Inl e) f = Inl e"
| "bind_result (Inr x) f = f x"

fun map_err :: "('e \<Rightarrow> 'f) \<Rightarrow> 'e + 'a \<Rightarrow> 'f + 'a" where
  "map_err f (Inl e) = Inl (f e)"
| "map_err f (Inr x) = Inr x"

fun ok_or :: "'e \<Rightarrow> 'a option \<Rightarrow> 'e + 'a" where
  "ok_or e None = Inl e"
| "ok_or e (Some x) = Inr x"

text \<open>\<open>Option<Result<T, E>>::transpose\<close>.\<close>

fun transpose_result :: "('e + 'a) option \<Rightarrow> 'e + 'a option" where
  "transpose_result None = Inr None"
| "transpose_result (Some (Inl e)) = Inl e"
| "transpose_result (Some (Inr x)) = Inr (Some x)"

fun is_ok :: "'e + 'a \<Rightarrow> bool" where
  "is_ok (Inl _) = False"
| "is_ok (Inr _) = True"

text \<open>The first error of a list of results, or all their values.\<close>

fun all_results :: "('e + 'a) list \<Rightarrow> 'e + 'a list" where
  "all_results [] = Inr []"
| "all_results (r # rs) = bind_result r (\<lambda>x. bind_result (all_results rs) (\<lambda>xs. Inr (x # xs)))"

lemma bind_result_assoc:
  "bind_result (bind_result m f) g = bind_result m (\<lambda>x. bind_result (f x) g)"
  by (cases m) auto

lemma bind_result_Inr [simp]:
  "bind_result m f = Inr y \<longleftrightarrow> (\<exists>x. m = Inr x \<and> f x = Inr y)"
  by (cases m) auto

lemma map_err_Inr [simp]: "map_err f m = Inr x \<longleftrightarrow> m = Inr x"
  by (cases m) auto

lemma ok_or_Inr [simp]: "ok_or e m = Inr x \<longleftrightarrow> m = Some x"
  by (cases m) auto

lemma ok_or_Inl [simp]: "ok_or e m = Inl x \<longleftrightarrow> m = None \<and> x = e"
  by (cases m) auto

lemma transpose_result_Inr:
  "transpose_result m = Inr r \<longleftrightarrow>
     (case r of None \<Rightarrow> m = None | Some x \<Rightarrow> m = Some (Inr x))"
  by (cases m rule: transpose_result.cases) (auto split: option.splits)

section \<open>Strings\<close>

definition as_bytes :: "string \<Rightarrow> bytes" where
  "as_bytes s = map (\<lambda>c. word_of_nat (of_char c)) s"

lemma as_bytes_inject [simp]: "as_bytes s = as_bytes t \<longleftrightarrow> s = t"
proof -
  have "char_of (unat (word_of_nat (of_char c) :: byte)) = c" for c
    by (simp add: unat_of_nat)
  then have "map (\<lambda>b. char_of (unat b)) (as_bytes u) = u" for u
    by (simp add: as_bytes_def comp_def map_idI)
  then show ?thesis by metis
qed

fun strip_prefix :: "'a list \<Rightarrow> 'a list \<Rightarrow> 'a list option" where
  "strip_prefix [] s = Some s"
| "strip_prefix (c # p) [] = None"
| "strip_prefix (c # p) (d # s) = (if c = d then strip_prefix p s else None)"

definition starts_with :: "string \<Rightarrow> string \<Rightarrow> bool" where
  "starts_with p s \<longleftrightarrow> strip_prefix p s \<noteq> None"

lemma strip_prefix_Some [simp]: "strip_prefix p s = Some r \<longleftrightarrow> s = p @ r"
  by (induction p s rule: strip_prefix.induct) auto

lemma strip_prefix_append [simp]: "strip_prefix p (p @ r) = Some r"
  by simp

lemma starts_with_iff: "starts_with p s \<longleftrightarrow> (\<exists>r. s = p @ r)"
  by (auto simp: starts_with_def)

lemma starts_with_prefix: "starts_with p s \<longleftrightarrow> prefix p s"
  by (auto simp: starts_with_iff prefix_def)

text \<open>\<open>str::split_once\<close>: around the first occurrence of the pattern.\<close>

fun split_once :: "string \<Rightarrow> string \<Rightarrow> (string \<times> string) option" where
  "split_once pat [] = (if pat = [] then Some ([], []) else None)"
| "split_once pat (c # cs) =
     (case strip_prefix pat (c # cs) of
        Some rest \<Rightarrow> Some ([], rest)
      | None \<Rightarrow> map_option (\<lambda>(a, b). (c # a, b)) (split_once pat cs))"

lemma split_once_Some: "split_once pat s = Some (a, b) \<Longrightarrow> s = a @ pat @ b"
  by (induction pat s arbitrary: a b rule: split_once.induct)
    (auto split: option.splits if_splits)

lemma split_once_char:
  "c \<notin> set a \<Longrightarrow> split_once [c] (a @ c # b) = Some (a, b)"
  by (induction a) auto

lemma split_once_char_None: "split_once [c] s = None \<longleftrightarrow> c \<notin> set s"
  by (induction s) (auto split: option.splits)

lemma split_once_char_fst: "split_once [c] s = Some (a, b) \<Longrightarrow> c \<notin> set a"
  by (induction s arbitrary: a b) (auto split: if_splits)

text \<open>\<open>str::split\<close> on one character, and \<open>str::splitn\<close>.\<close>

fun split_on :: "char \<Rightarrow> string \<Rightarrow> string list" where
  "split_on c [] = [[]]"
| "split_on c (x # xs) =
     (if x = c then [] # split_on c xs
      else (case split_on c xs of [] \<Rightarrow> [[x]] | y # ys \<Rightarrow> (x # y) # ys))"

fun splitn :: "nat \<Rightarrow> char \<Rightarrow> string \<Rightarrow> string list" where
  "splitn 0 c s = []"
| "splitn (Suc 0) c s = [s]"
| "splitn (Suc (Suc n)) c s =
     (case split_once [c] s of None \<Rightarrow> [s] | Some (a, b) \<Rightarrow> a # splitn (Suc n) c b)"

lemma split_on_nonempty [simp]: "split_on c s \<noteq> []"
  by (induction s) (auto split: list.splits)

lemma split_on_no_sep: "x \<in> set (split_on c s) \<Longrightarrow> c \<notin> set x"
  by (induction s arbitrary: x) (auto split: list.splits if_splits)

lemma split_on_append:
  "c \<notin> set a \<Longrightarrow> split_on c (a @ c # b) = a # split_on c b"
  by (induction a) auto

lemma split_on_id: "c \<notin> set s \<Longrightarrow> split_on c s = [s]"
  by (induction s) auto

lemma splitn_append:
  "c \<notin> set a \<Longrightarrow> splitn (Suc (Suc n)) c (a @ c # b) = a # splitn (Suc n) c b"
  by (simp add: split_once_char)

text \<open>The first pieces of \<open>split\<close> and \<open>splitn\<close> agree.\<close>

lemma split_on_splitn:
  "i + 1 < length (splitn n c s) \<Longrightarrow> i < length (split_on c s) \<and> split_on c s ! i = splitn n c s ! i"
proof (induction n c s arbitrary: i rule: splitn.induct)
  case (3 n c s)
  show ?case
  proof (cases "split_once [c] s")
    case None
    with "3.prems" show ?thesis by simp
  next
    case (Some ab)
    obtain a b where ab: "ab = (a, b)" by (cases ab)
    from Some ab have s: "s = a @ c # b" and "c \<notin> set a"
      by (auto dest: split_once_Some split_once_char_fst)
    then have split: "split_on c s = a # split_on c b"
      by (simp add: split_on_append)
    show ?thesis
    proof (cases i)
      case 0
      with split Some ab show ?thesis by simp
    next
      case (Suc j)
      with "3.prems" Some ab have "j + 1 < length (splitn (Suc n) c b)" by simp
      with "3.IH" [OF Some, of a b j] ab split Some Suc show ?thesis by simp
    qed
  qed
qed auto

text \<open>The fields of an exhausted \<open>splitn\<close> and the string determine each other.\<close>

lemma splitn_exact:
  "splitn n c s = xs @ [y] \<Longrightarrow> length xs + 1 = n \<Longrightarrow>
   s = concat (map (\<lambda>x. x @ [c]) xs) @ y \<and> (\<forall>x \<in> set xs. c \<notin> set x)"
proof (induction n c s arbitrary: xs rule: splitn.induct)
  case (3 n c s)
  show ?case
  proof (cases "split_once [c] s")
    case None
    with 3 show ?thesis by (cases xs) auto
  next
    case (Some ab)
    obtain a b where ab: "ab = (a, b)" by (cases ab)
    with Some 3 obtain zs where xs: "xs = a # zs" "splitn (Suc n) c b = zs @ [y]" "length zs + 1 = Suc n"
      by (cases xs) auto
    have "b = concat (map (\<lambda>x. x @ [c]) zs) @ y \<and> (\<forall>x \<in> set zs. c \<notin> set x)"
      using "3.IH" [OF Some ab [symmetric] xs(2,3)] ab by simp
    with Some ab xs show ?thesis by (auto dest: split_once_Some split_once_char_fst)
  qed
qed (auto simp: Cons_eq_append_conv)

lemma splitn_fields:
  assumes "\<And>x. x \<in> set xs \<Longrightarrow> c \<notin> set x"
  shows "splitn (Suc (length xs)) c (concat (map (\<lambda>x. x @ [c]) xs) @ y) = xs @ [y]"
  using assms by (induction xs) (simp_all add: split_once_char)

section \<open>Trimming\<close>

text \<open>
  \<open>str::trim\<close> removes the characters with the Unicode property White\_Space; their UTF-8
  encodings are listed. UTF-8 is self-synchronising, so a match of an encoding at either end of a
  valid string is a match of that character.
\<close>

definition white_space :: "string list" where
  "white_space =
     map (\<lambda>c. [c]) [CHR 0x09, CHR 0x0A, CHR 0x0B, CHR 0x0C, CHR 0x0D, CHR 0x20]
     @ [[CHR 0xC2, CHR 0x85], [CHR 0xC2, CHR 0xA0], [CHR 0xE1, CHR 0x9A, CHR 0x80]]
     @ map (\<lambda>c. [CHR 0xE2, CHR 0x80, c])
         [CHR 0x80, CHR 0x81, CHR 0x82, CHR 0x83, CHR 0x84, CHR 0x85, CHR 0x86, CHR 0x87,
          CHR 0x88, CHR 0x89, CHR 0x8A, CHR 0xA8, CHR 0xA9, CHR 0xAF]
     @ [[CHR 0xE2, CHR 0x81, CHR 0x9F], [CHR 0xE3, CHR 0x80, CHR 0x80]]"

fun strip_any :: "string list \<Rightarrow> string \<Rightarrow> string option" where
  "strip_any [] s = None"
| "strip_any (p # ps) s =
     (case strip_prefix p s of Some r \<Rightarrow> Some r | None \<Rightarrow> strip_any ps s)"

function trim_start_of :: "string list \<Rightarrow> string \<Rightarrow> string" where
  "trim_start_of ps s =
     (case strip_any ps s of
        None \<Rightarrow> s
      | Some r \<Rightarrow> if length r < length s then trim_start_of ps r else s)"
  by pat_completeness auto
termination
  by (relation "measure (\<lambda>(ps, s). length s)") auto

declare trim_start_of.simps [simp del]

definition trim_start :: "string \<Rightarrow> string" where
  "trim_start s = trim_start_of white_space s"

definition trim_end :: "string \<Rightarrow> string" where
  "trim_end s = rev (trim_start_of (map rev white_space) (rev s))"

definition trim :: "string \<Rightarrow> string" where
  "trim s = trim_end (trim_start s)"

text \<open>\<open>str::trim_matches\<close> with one character.\<close>

definition trim_matches :: "char \<Rightarrow> string \<Rightarrow> string" where
  "trim_matches c s = rev (dropWhile ((=) c) (rev (dropWhile ((=) c) s)))"

lemma strip_any_Some: "strip_any ps s = Some r \<Longrightarrow> \<exists>p \<in> set ps. s = p @ r"
  by (induction ps) (auto split: option.splits)

lemma strip_any_None: "strip_any ps s = None \<longleftrightarrow> (\<forall>p \<in> set ps. \<not> prefix p s)"
proof (induction ps)
  case (Cons p ps)
  have "strip_prefix p s = None \<longleftrightarrow> \<not> prefix p s"
    by (cases "strip_prefix p s") (auto simp: prefix_def)
  with Cons show ?case by (auto split: option.splits)
qed simp

lemma trim_start_of_done:
  "[] \<notin> set ps \<Longrightarrow> p \<in> set ps \<Longrightarrow> \<not> prefix p (trim_start_of ps s)"
proof (induction ps s rule: trim_start_of.induct)
  case (1 ps s)
  show ?case
  proof (cases "strip_any ps s")
    case None
    with "1.prems" show ?thesis
      by (subst trim_start_of.simps) (simp add: strip_any_None [THEN iffD1])
  next
    case (Some r)
    then obtain q where "q \<in> set ps" "s = q @ r" by (auto dest: strip_any_Some)
    with "1.prems" have "length r < length s" by (cases q) auto
    with "1.IH" [OF Some] "1.prems" Some show ?thesis by (subst trim_start_of.simps) simp
  qed
qed

lemma trim_start_of_suffix: "suffix (trim_start_of ps s) s"
proof (induction ps s rule: trim_start_of.induct)
  case (1 ps s)
  show ?case
  proof (cases "\<exists>r. strip_any ps s = Some r \<and> length r < length s")
    case True
    then obtain r where r: "strip_any ps s = Some r" "length r < length s" by blast
    then obtain q where "s = q @ r" by (auto dest: strip_any_Some)
    with "1.IH" [OF r] have "suffix (trim_start_of ps r) s"
      by (metis suffix_appendI)
    with r show ?thesis by (subst trim_start_of.simps) simp
  next
    case False
    then show ?thesis by (subst trim_start_of.simps) (auto split: option.splits)
  qed
qed

lemma nil_not_white_space: "[] \<notin> set white_space" "[] \<notin> set (map rev white_space)"
  by (simp_all add: white_space_def)

text \<open>A trimmed string neither ends nor, unless that was all of it, starts with white space.\<close>

lemma trim_no_trailing_space: "w \<in> set white_space \<Longrightarrow> \<not> suffix w (trim s)"
  using trim_start_of_done [OF nil_not_white_space(2), of "rev w" "rev (trim_start s)"]
  by (simp add: trim_def trim_end_def suffix_to_prefix)

lemma trim_no_leading_space:
  assumes "w \<in> set white_space"
  shows "\<not> prefix w (trim s)"
proof
  assume "prefix w (trim s)"
  moreover have "prefix (trim s) (trim_start s)"
    using trim_start_of_suffix [of "map rev white_space" "rev (trim_start s)"]
    by (simp add: trim_def trim_end_def suffix_to_prefix)
  ultimately have "prefix w (trim_start s)" by (rule prefix_order.trans)
  with trim_start_of_done [OF nil_not_white_space(1) assms] show False
    by (simp add: trim_start_def)
qed

lemma trim_start_of_fixed:
  assumes "\<And>p. p \<in> set ps \<Longrightarrow> \<not> prefix p s"
  shows "trim_start_of ps s = s"
proof -
  from assms have "strip_any ps s = None" by (simp add: strip_any_None)
  then show ?thesis by (subst trim_start_of.simps) simp
qed

lemma trim_trim [simp]: "trim (trim s) = trim s"
proof -
  have "trim_start (trim s) = trim s"
    unfolding trim_start_def by (rule trim_start_of_fixed) (rule trim_no_leading_space)
  moreover have "trim_start_of (map rev white_space) (rev (trim s)) = rev (trim s)"
  proof (rule trim_start_of_fixed)
    fix p assume "p \<in> set (map rev white_space)"
    then show "\<not> prefix p (rev (trim s))"
      using trim_no_trailing_space [of "rev p" s] by (auto simp: suffix_to_prefix)
  qed
  ultimately show ?thesis
    by (simp add: trim_def trim_end_def)
qed

lemma trim_matches_ends:
  "trim_matches c s = t \<Longrightarrow> t \<noteq> [] \<Longrightarrow> hd t \<noteq> c \<and> last t \<noteq> c"
proof -
  assume t: "trim_matches c s = t" and ne: "t \<noteq> []"
  define u where "u = dropWhile ((=) c) s"
  from t have rt: "rev t = dropWhile ((=) c) (rev u)"
    by (auto simp: trim_matches_def u_def)
  with ne have "hd (rev t) \<noteq> c"
    by (metis hd_dropWhile rev_is_Nil_conv)
  moreover from rt have "suffix (rev t) (rev u)"
    by (simp add: suffix_dropWhile)
  then have "prefix t u" by (simp add: suffix_to_prefix)
  then obtain v where u: "u = t @ v" by (auto simp: prefix_def)
  with ne have "u \<noteq> []" "hd t = hd u" by auto
  moreover from \<open>u \<noteq> []\<close> have "hd u \<noteq> c"
    by (metis hd_dropWhile u_def)
  ultimately show ?thesis using ne by (simp add: hd_rev)
qed

end
