(* ===== verification/Kms_Types.thy ===== *)
theory Kms_Types
  imports Text_Numbers
begin

text \<open>
  The data of \<open>src/src/lib.rs\<close> and \<open>src/src/key_material.rs\<close>: constants, enums,
  structs, the requests and responses of the broker protocol, the form of errors, and the record of the library functions the program calls.
\<close>

section \<open>Constants\<close>

definition default_broker_endpoint :: string where
  "default_broker_endpoint = ''tcp:127.0.0.1:7001''"

definition default_enclave_rpc_endpoint :: string where
  "default_enclave_rpc_endpoint = ''tcp:127.0.0.1:7003''"

definition default_nitro_kms_proxy_port :: u32 where
  "default_nitro_kms_proxy_port = 8000"

definition default_parent_cid :: u32 where
  "default_parent_cid = 3"

definition default_s3_prefix :: string where
  "default_s3_prefix = ''kms-keypair''"

definition private_key_algorithm :: string where
  "private_key_algorithm = ''ED25519''"

definition private_key_encryption :: string where
  "private_key_encryption = ''AES-GCM''"

definition ed25519_private_key_length :: nat where
  "ed25519_private_key_length = 32"

definition aes_gcm_nonce_length :: nat where
  "aes_gcm_nonce_length = 12"

definition max_json_frame_length :: nat where
  "max_json_frame_length = 1024 * 1024"

definition key_material_version :: u32 where
  "key_material_version = 2"

definition manifest_file_name :: string where
  "manifest_file_name = ''key_manifest.json''"

section \<open>Settings and protocol\<close>

datatype startup_mode = Serve | InitKey

datatype kms_slot = Primary | Backup

instantiation kms_slot :: linorder
begin
definition less_eq_kms_slot :: "kms_slot \<Rightarrow> kms_slot \<Rightarrow> bool" where
  "less_eq_kms_slot a b \<longleftrightarrow> a = Primary \<or> b = Backup"
definition less_kms_slot :: "kms_slot \<Rightarrow> kms_slot \<Rightarrow> bool" where
  "less_kms_slot a b \<longleftrightarrow> a = Primary \<and> b = Backup"
instance
proof
  fix x y z :: kms_slot
  show "(x < y) = (x \<le> y \<and> \<not> y \<le> x)"
    by (cases x; cases y) (auto simp: less_eq_kms_slot_def less_kms_slot_def)
  show "x \<le> x"
    by (cases x) (auto simp: less_eq_kms_slot_def)
  show "x \<le> z" if "x \<le> y" "y \<le> z"
    using that by (cases y) (auto simp: less_eq_kms_slot_def)
  show "x = y" if "x \<le> y" "y \<le> x"
    using that by (cases x) (auto simp: less_eq_kms_slot_def)
  show "x \<le> y \<or> y \<le> x"
    by (cases x; cases y) (auto simp: less_eq_kms_slot_def)
qed
end

fun label :: "kms_slot \<Rightarrow> string" where
  "label Primary = ''primary''"
| "label Backup = ''backup''"

text \<open>\<open>label().to_ascii_uppercase()\<close>, used in one message.\<close>

fun upper_label :: "kms_slot \<Rightarrow> string" where
  "upper_label Primary = ''PRIMARY''"
| "upper_label Backup = ''BACKUP''"

record kms_key_settings =
  slot :: kms_slot
  key_arn :: string
  key_region :: string

type_synonym string_map = "string \<rightharpoonup> string"

record parent_settings =
  kms_keys :: "kms_key_settings list"
  s3_bucket :: string
  s3_prefix :: string
  mode :: startup_mode
  key_spec :: "string option"
  number_of_bytes :: "i32 option"
  encryption_context :: "string_map option"
  grant_tokens :: "string list"
  dry_run :: "bool option"

record aws_credentials =
  cred_region :: string
  access_key_id :: string
  secret_access_key :: string
  session_token :: "string option"
  expires_at_epoch_seconds :: "u64 option"

datatype broker_request =
    GetSettings
  | GetAwsCredentials kms_slot
  | LoadObject string string
  | SaveObjectIfAbsent string string bytes

datatype broker_response =
    Settings parent_settings
  | AwsCredentials aws_credentials
  | Object "bytes option"
  | Saved
  | Error string

datatype endpoint = Tcp string | Vsock u32 u32

section \<open>KMS requests\<close>

datatype data_key_spec = Aes128 | Aes256

record kms_request =
  kms_key_id :: string
  spec :: "data_key_spec option"
  request_bytes :: "i32 option"
  request_context :: "string_map option"
  request_tokens :: "string list"
  request_dry_run :: "bool option"

record generated_data_key =
  plaintext_data_key :: bytes
  encrypted_data_key :: bytes
  generated_key_id :: string

section \<open>Stored documents\<close>

record object_reference =
  object_key :: string
  object_sha256 :: string

record recovery_object_reference =
  recovery_kms_key_arn :: string
  recovery_object_key :: string
  recovery_sha256 :: string

record key_manifest =
  manifest_version :: u32
  recovery_policy :: string
  key_fingerprint :: string
  manifest_algorithm :: string
  manifest_encryption :: string
  manifest_public_key :: object_reference
  recovery_objects :: "recovery_object_reference list"

record public_key_document =
  document_version :: u32
  algorithm :: string
  public_key_base64 :: string
  fingerprint_sha256 :: string

record recovery_package =
  package_version :: u32
  encrypted_data_key_base64 :: string
  private_key_nonce_base64 :: string
  encrypted_private_key_base64 :: string

record restored_key_pair =
  public_key :: bytes
  fingerprint :: string
  restored_kms_key_arn :: string

section \<open>Errors\<close>

text \<open>
  \<open>Result<T, String>\<close> and \<open>AppResult<T>\<close> (a boxed error) are observed only through
  \<open>Display\<close>, so an error is its text; each message of the source is a definition of the
  theory that raises it. A panic (a failed \<open>expect\<close>, \<open>unreachable!\<close>, a slice out of
  range) is not an \<open>Err\<close>: code that matches on a \<open>Result\<close> does not see it.
\<close>

datatype app_error = Err string | Panic string

type_synonym 'a app_result = "app_error + 'a"

fun panics :: "'a app_result \<Rightarrow> bool" where
  "panics (Inl (Panic _)) = True"
| "panics _ = False"

lemma panics_Inl [simp]: "panics (Inl e) \<longleftrightarrow> (\<exists>msg. e = Panic msg)"
  by (cases e) auto

declare panics.simps(1,2) [simp del]

lemma panics_bind_result [simp]:
  "panics (bind_result m k) \<longleftrightarrow> panics m \<or> (\<exists>x. m = Inr x \<and> panics (k x))"
  by (cases m) auto

lemma panics_ok_or [simp]: "panics (ok_or e m) \<longleftrightarrow> m = None \<and> (\<exists>msg. e = Panic msg)"
  by (cases m) auto

text \<open>\<open>?\<close> on the result of a library call.\<close>

definition lib_result :: "string + 'a \<Rightarrow> 'a app_result" where
  "lib_result r = map_err Err r"

lemma lib_result_Inr [simp]: "lib_result r = Inr x \<longleftrightarrow> r = Inr x"
  by (simp add: lib_result_def)

lemma lib_result_Inl [simp]: "lib_result r = Inl e \<longleftrightarrow> (\<exists>x. r = Inl x \<and> e = Err x)"
  by (cases r) (auto simp: lib_result_def)

lemma lib_result_simps [simp]:
  "lib_result (Inl e) = Inl (Err e)"
  "lib_result (Inr x) = Inr x"
  by (simp_all add: lib_result_def)

lemma panics_lib_result [simp]: "\<not> panics (lib_result r)"
  by (cases r) auto

section \<open>Library functions\<close>

text \<open>
  The pure functions of crates the program calls: SHA-256 (\<open>sha2\<close>), base64, AES-GCM
  (\<open>aes-gcm\<close>), Ed25519 key derivation (\<open>ed25519-dalek\<close>), \<open>serde_json\<close> with the
  derived serialisers, and the string escaping of \<open>Debug\<close> and the derived \<open>Debug\<close> of
  \<open>ParentSettings\<close>. They are arguments of the model. A fallible one returns the text of its
  error.
\<close>

record libs =
  sha256 :: "bytes \<Rightarrow> bytes"
  base64_encode :: "bytes \<Rightarrow> string"
  base64_decode :: "string \<Rightarrow> string + bytes"
  aes128_encrypt :: "bytes \<Rightarrow> bytes \<Rightarrow> bytes \<Rightarrow> string + bytes"
  aes128_decrypt :: "bytes \<Rightarrow> bytes \<Rightarrow> bytes \<Rightarrow> string + bytes"
  aes256_encrypt :: "bytes \<Rightarrow> bytes \<Rightarrow> bytes \<Rightarrow> string + bytes"
  aes256_decrypt :: "bytes \<Rightarrow> bytes \<Rightarrow> bytes \<Rightarrow> string + bytes"
  verifying_key :: "bytes \<Rightarrow> bytes"
  request_to_json :: "broker_request \<Rightarrow> string + bytes"
  request_of_json :: "bytes \<Rightarrow> string + broker_request"
  response_to_json :: "broker_response \<Rightarrow> string + bytes"
  response_of_json :: "bytes \<Rightarrow> string + broker_response"
  manifest_to_json :: "key_manifest \<Rightarrow> string + bytes"
  manifest_of_json :: "bytes \<Rightarrow> string + key_manifest"
  document_to_json :: "public_key_document \<Rightarrow> string + bytes"
  document_of_json :: "bytes \<Rightarrow> string + public_key_document"
  package_to_json :: "recovery_package \<Rightarrow> string + bytes"
  package_of_json :: "bytes \<Rightarrow> string + recovery_package"
  context_to_json :: "string_map \<Rightarrow> string + string"
  debug_str :: "string \<Rightarrow> string"
  debug_settings :: "parent_settings \<Rightarrow> string"

text \<open>
  The documented behaviour the program relies on: digests and keys have their length, and a
  decoder inverts its encoder.
\<close>

definition libs_ok :: "libs \<Rightarrow> bool" where
  "libs_ok L \<longleftrightarrow>
     (\<forall>x. length (sha256 L x) = 32)
     \<and> (\<forall>k. length (verifying_key L k) = 32)
     \<and> (\<forall>b. base64_decode L (base64_encode L b) = Inr b)
     \<and> (\<forall>k n p c. aes128_encrypt L k n p = Inr c \<longrightarrow> aes128_decrypt L k n c = Inr p)
     \<and> (\<forall>k n p c. aes256_encrypt L k n p = Inr c \<longrightarrow> aes256_decrypt L k n c = Inr p)
     \<and> (\<forall>v b. request_to_json L v = Inr b \<longrightarrow> request_of_json L b = Inr v)
     \<and> (\<forall>v b. response_to_json L v = Inr b \<longrightarrow> response_of_json L b = Inr v)
     \<and> (\<forall>v b. manifest_to_json L v = Inr b \<longrightarrow> manifest_of_json L b = Inr v)
     \<and> (\<forall>v b. document_to_json L v = Inr b \<longrightarrow> document_of_json L b = Inr v)
     \<and> (\<forall>v b. package_to_json L v = Inr b \<longrightarrow> package_of_json L b = Inr v)"

lemma libs_okD:
  assumes "libs_ok L"
  shows libs_sha256: "length (sha256 L x) = 32"
    and libs_verifying_key: "length (verifying_key L k) = 32"
    and libs_base64: "base64_decode L (base64_encode L b) = Inr b"
    and libs_aes128: "aes128_encrypt L k n p = Inr c \<Longrightarrow> aes128_decrypt L k n c = Inr p"
    and libs_aes256: "aes256_encrypt L k n p = Inr c \<Longrightarrow> aes256_decrypt L k n c = Inr p"
    and libs_request: "request_to_json L rq = Inr b \<Longrightarrow> request_of_json L b = Inr rq"
    and libs_response: "response_to_json L rs = Inr b \<Longrightarrow> response_of_json L b = Inr rs"
    and libs_manifest: "manifest_to_json L mf = Inr b \<Longrightarrow> manifest_of_json L b = Inr mf"
    and libs_document: "document_to_json L pd = Inr b \<Longrightarrow> document_of_json L b = Inr pd"
    and libs_package: "package_to_json L rp = Inr b \<Longrightarrow> package_of_json L b = Inr rp"
  using assms by (auto simp: libs_ok_def)

section \<open>Debug output of responses\<close>

text \<open>
  The hand-written \<open>Debug\<close> of \<open>AwsCredentials\<close>: the keys and the token are never
  formatted.
\<close>

definition redacted :: string where
  "redacted = ''[REDACTED]''"

definition show_option :: "('a \<Rightarrow> string) \<Rightarrow> 'a option \<Rightarrow> string" where
  "show_option f x = (case x of None \<Rightarrow> ''None'' | Some v \<Rightarrow> ''Some('' @ f v @ '')'')"

definition debug_credentials :: "libs \<Rightarrow> aws_credentials \<Rightarrow> string" where
  "debug_credentials L c =
     ''AwsCredentials { region: '' @ debug_str L (cred_region c)
     @ '', access_key_id: '' @ debug_str L redacted
     @ '', secret_access_key: '' @ debug_str L redacted
     @ '', session_token: ''
     @ show_option (debug_str L) (map_option (\<lambda>_. redacted) (session_token c))
     @ '', expires_at_epoch_seconds: ''
     @ show_option (\<lambda>w. show_nat (unat w)) (expires_at_epoch_seconds c) @ '' }''"

fun join :: "string \<Rightarrow> string list \<Rightarrow> string" where
  "join sep [] = []"
| "join sep [x] = x"
| "join sep (x # xs) = x @ sep @ join sep xs"

text \<open>The derived \<open>Debug\<close> of \<open>BrokerResponse\<close>.\<close>

fun debug_response :: "libs \<Rightarrow> broker_response \<Rightarrow> string" where
  "debug_response L (Settings s) = ''Settings('' @ debug_settings L s @ '')''"
| "debug_response L (AwsCredentials c) = ''AwsCredentials('' @ debug_credentials L c @ '')''"
| "debug_response L (Object body) =
     ''Object(''
     @ show_option (\<lambda>bs. ''['' @ join '', '' (map (\<lambda>b. show_nat (unat b)) bs) @ '']'') body
     @ '')''"
| "debug_response L Saved = ''Saved''"
| "debug_response L (Error msg) = ''Error { message: '' @ debug_str L msg @ '' }''"

end
