(* ===== verification/Effects.thy ===== *)
theory Effects
  imports Kms_Types
begin

text \<open>
  How an operation with effects is modelled: a function from the state of its process to a result
  and the next state. The state is the world outside the process, of an unspecified type, and the
  trace of the external calls the process has made. An external call is a function on the world
  (a field of a record of services, an argument of the model) together with the event it leaves on
  the trace. The second half is a small logic for the events an operation may emit.
\<close>

section \<open>Requests to the AWS SDK\<close>

text \<open>
  A request as the SDK's fluent builders accumulate it: a field is \<^const>\<open>None\<close> until its
  setter is called. \<open>Decrypt\<close> uses the ciphertext, \<open>GenerateDataKey\<close> the key size.
\<close>

record sdk_request =
  sdk_key_id :: "string option"
  sdk_ciphertext :: "bytes option"
  sdk_spec :: "data_key_spec option"
  sdk_bytes :: "i32 option"
  sdk_context :: "string_map option"
  sdk_tokens :: "string list"
  sdk_dry_run :: "bool option"

text \<open>A PutObject request as the SDK's builder accumulates it.\<close>

record put_object_request =
  put_bucket :: string
  put_key :: string
  if_none_match :: "string option"
  content_type :: "string option"
  put_body :: bytes

text \<open>
  The arguments that the two native functions of \<open>src/native/nitro_kms_shim.h\<close> share, from
  \<open>region\<close> to \<open>session_token\<close>.
\<close>

record native_client =
  native_region :: string
  native_cid :: u32
  native_port :: u32
  native_access_key :: string
  native_secret_key :: string
  native_token :: string

text \<open>\<open>SockAddrVm\<close>, the address the socket calls pass to the kernel.\<close>

record sock_addr_vm =
  svm_family :: u16
  svm_reserved1 :: u16
  svm_port :: u32
  svm_cid :: u32
  svm_zero :: bytes

section \<open>Events\<close>

datatype event =
    Stdout string
  | Stderr string
  | Tcp_Connect string
  | Tcp_Bind string
  | Tcp_Accept int
  | Sys_Socket int int int
  | Sys_Connect int sock_addr_vm nat
  | Sys_Bind int sock_addr_vm nat
  | Sys_Listen int int
  | Sys_Accept int
  | Sys_Close int
  | Send endpoint broker_request
  | Kms_Generate aws_credentials sdk_request
  | Kms_Decrypt aws_credentials sdk_request
  | Nitro_Generate native_client string u32
  | Nitro_Decrypt native_client bytes "string option"
  | Nitro_Free
  | Draw nat
  | S3_Get string string
  | S3_Put put_object_request
  | Receive
  | Reply bytes
  | Load_Sdk_Config
  | Load_Credentials kms_slot
  | Build_Runtime
  | Sleep nat
  | Rpc_Connect endpoint
  | Rpc_Hello int
  | Rpc_Bind u32 u32
  | Serve_Rpc endpoint
  | Compile_Protos string
  | Compile_Native string string

record 'w sys =
  world :: 'w
  trace :: "event list"

type_synonym ('w, 'a) io = "'w sys \<Rightarrow> 'a app_result \<times> 'w sys"

section \<open>Combinators\<close>

definition returnM :: "'a \<Rightarrow> ('w, 'a) io" where
  "returnM x = (\<lambda>s. (Inr x, s))"

definition throwM :: "app_error \<Rightarrow> ('w, 'a) io" where
  "throwM e = (\<lambda>s. (Inl e, s))"

text \<open>\<open>m?\<close> followed by the rest of the function: an error returns early.\<close>

definition bindM :: "('w, 'a) io \<Rightarrow> ('a \<Rightarrow> ('w, 'b) io) \<Rightarrow> ('w, 'b) io" where
  "bindM m k = (\<lambda>s. case m s of (Inl e, t) \<Rightarrow> (Inl e, t) | (Inr x, t) \<Rightarrow> k x t)"

definition liftM :: "'a app_result \<Rightarrow> ('w, 'a) io" where
  "liftM r = (\<lambda>s. (r, s))"

text \<open>An external call, and an event without a result.\<close>

definition callM :: "event \<Rightarrow> ('w \<Rightarrow> 'a \<times> 'w) \<Rightarrow> ('w, 'a) io" where
  "callM ev f =
     (\<lambda>s. case f (world s) of (x, w) \<Rightarrow> (Inr x, \<lparr>world = w, trace = trace s @ [ev]\<rparr>))"

definition emitM :: "event \<Rightarrow> ('w, unit) io" where
  "emitM ev = callM ev (\<lambda>w. ((), w))"

text \<open>
  A \<open>match\<close> on the result of an operation: both \<open>Ok\<close> and \<open>Err\<close> continue, a panic
  does not.
\<close>

definition attemptM :: "('w, 'a) io \<Rightarrow> ('w, string + 'a) io" where
  "attemptM m =
     (\<lambda>s. case m s of
        (Inl (Err e), t) \<Rightarrow> (Inr (Inl e), t)
      | (Inl (Panic e), t) \<Rightarrow> (Inl (Panic e), t)
      | (Inr x, t) \<Rightarrow> (Inr (Inr x), t))"

definition whenM :: "bool \<Rightarrow> ('w, unit) io \<Rightarrow> ('w, unit) io" where
  "whenM b m = (if b then m else returnM ())"

lemma returnM_run [io_simps]: "returnM x s = (Inr x, s)"
  by (simp add: returnM_def)

lemma throwM_run [io_simps]: "throwM e s = (Inl e, s)"
  by (simp add: throwM_def)

lemma liftM_run [io_simps]: "liftM r s = (r, s)"
  by (simp add: liftM_def)

lemma bindM_run [io_simps]:
  "bindM m k s = (case m s of (Inl e, t) \<Rightarrow> (Inl e, t) | (Inr x, t) \<Rightarrow> k x t)"
  by (simp add: bindM_def)

lemma callM_run [io_simps]:
  "callM ev f s = (Inr (fst (f (world s))), \<lparr>world = snd (f (world s)), trace = trace s @ [ev]\<rparr>)"
  by (simp add: callM_def split: prod.splits)

lemma emitM_run [io_simps]:
  "emitM ev s = (Inr (), s\<lparr>trace := trace s @ [ev]\<rparr>)"
  by (simp add: emitM_def callM_def)

lemma bindM_returnM [simp]: "bindM (returnM x) k = k x"
  by (simp add: bindM_def returnM_def)

lemma bindM_throwM [simp]: "bindM (throwM e) k = throwM e"
  by (simp add: bindM_def throwM_def)

lemma bindM_assoc: "bindM (bindM m k) h = bindM m (\<lambda>x. bindM (k x) h)"
  by (auto simp: bindM_def fun_eq_iff split: prod.splits sum.splits)

text \<open>Inversion of a successful run.\<close>

lemma bindM_InrE:
  assumes "bindM m k s = (Inr y, t)"
  obtains x u where "m s = (Inr x, u)" "k x u = (Inr y, t)"
  using assms by (auto simp: bindM_def split: prod.splits sum.splits)

text \<open>Any run of a sequence: the first step failed, or the second one ran.\<close>

lemma bindM_cases:
  assumes "bindM m k s = (r, t)"
  obtains e where "m s = (Inl e, t)" "r = Inl e" | x u where "m s = (Inr x, u)" "k x u = (r, t)"
  using assms by (auto simp: bindM_def split: prod.splits sum.splits)

lemma liftM_Inr [simp]: "liftM r s = (Inr x, t) \<longleftrightarrow> r = Inr x \<and> t = s"
  by (auto simp: liftM_def)

lemma returnM_eq [simp]: "returnM x s = (r, t) \<longleftrightarrow> r = Inr x \<and> t = s"
  by (auto simp: returnM_def)

lemma throwM_eq [simp]: "throwM e s = (r, t) \<longleftrightarrow> r = Inl e \<and> t = s"
  by (auto simp: throwM_def)

lemma emitM_eq [simp]: "emitM ev s = (r, t) \<longleftrightarrow> r = Inr () \<and> t = s\<lparr>trace := trace s @ [ev]\<rparr>"
  by (auto simp: emitM_run)

section \<open>Freedom from panics\<close>

definition panic_free :: "('w, 'a) io \<Rightarrow> bool" where
  "panic_free m \<longleftrightarrow> (\<forall>s. \<not> panics (fst (m s)))"

lemma panic_freeD: "panic_free m \<Longrightarrow> m s = (r, t) \<Longrightarrow> \<not> panics r"
  unfolding panic_free_def by (metis fst_conv)

lemma panic_free_returnM [panic_free_intros]: "panic_free (returnM x)"
  by (simp add: panic_free_def io_simps)

lemma panic_free_throwM [panic_free_intros]: "\<not> panics (Inl e) \<Longrightarrow> panic_free (throwM e)"
  by (simp add: panic_free_def io_simps)

lemma panic_free_liftM [panic_free_intros]: "\<not> panics r \<Longrightarrow> panic_free (liftM r)"
  by (simp add: panic_free_def io_simps)

lemma panic_free_callM [panic_free_intros]: "panic_free (callM ev f)"
  by (simp add: panic_free_def io_simps)

lemma panic_free_emitM [panic_free_intros]: "panic_free (emitM ev)"
  by (simp add: panic_free_def io_simps)

lemma panic_free_bindM [panic_free_intros]:
  assumes m: "panic_free m" and k: "\<And>x. panic_free (k x)"
  shows "panic_free (bindM m k)"
  unfolding panic_free_def
proof
  fix s
  obtain r t where run: "m s = (r, t)" by force
  with panic_freeD [OF m run] k show "\<not> panics (fst (bindM m k s))"
    by (cases r) (auto simp: io_simps panic_free_def)
qed

lemma panic_free_attemptM [panic_free_intros]:
  assumes m: "panic_free m"
  shows "panic_free (attemptM m)"
  unfolding panic_free_def
proof
  fix s
  obtain r t where run: "m s = (r, t)" by force
  with panic_freeD [OF m run] show "\<not> panics (fst (attemptM m s))"
    by (auto simp: attemptM_def split: sum.splits app_error.splits)
qed

lemma panic_free_whenM [panic_free_intros]: "panic_free m \<Longrightarrow> panic_free (whenM b m)"
  by (simp add: whenM_def panic_free_returnM)

lemma panic_free_if [panic_free_intros]:
  "panic_free m \<Longrightarrow> panic_free n \<Longrightarrow> panic_free (if b then m else n)"
  by simp

lemma panic_free_sum [panic_free_intros]:
  "(\<And>e. panic_free (f e)) \<Longrightarrow> (\<And>y. panic_free (g y)) \<Longrightarrow>
   panic_free (case x of Inl e \<Rightarrow> f e | Inr y \<Rightarrow> g y)"
  by (cases x) auto

lemma panic_free_option [panic_free_intros]:
  "panic_free f \<Longrightarrow> (\<And>y. panic_free (g y)) \<Longrightarrow>
   panic_free (case x of None \<Rightarrow> f | Some y \<Rightarrow> g y)"
  by (cases x) auto

text \<open>An attempted operation that cannot panic always hands back its result.\<close>

lemma attemptM_total: "panic_free m \<Longrightarrow> \<exists>r t. attemptM m s = (Inr r, t)"
  using panic_freeD [of m s] by (auto simp: attemptM_def split: prod.splits sum.splits app_error.splits)

section \<open>What an operation may emit\<close>

text \<open>
  \<open>emits m Q\<close>: whatever the world answers, \<open>m\<close> only appends to the trace, and the events
  it appends and its result satisfy \<open>Q\<close>. \<open>confined A m\<close> is the special case that every
  event lies in \<open>A\<close>.
\<close>

definition emits :: "('w, 'a) io \<Rightarrow> (event list \<Rightarrow> 'a app_result \<Rightarrow> bool) \<Rightarrow> bool" where
  "emits m Q \<longleftrightarrow>
     (\<forall>s r t. m s = (r, t) \<longrightarrow> (\<exists>evs. trace t = trace s @ evs \<and> Q evs r))"

definition confined :: "(event \<Rightarrow> bool) \<Rightarrow> ('w, 'a) io \<Rightarrow> bool" where
  "confined A m \<longleftrightarrow> emits m (\<lambda>evs r. list_all A evs)"

lemma emitsD: "emits m Q \<Longrightarrow> m s = (r, t) \<Longrightarrow> \<exists>evs. trace t = trace s @ evs \<and> Q evs r"
  unfolding emits_def by blast

lemma confinedD:
  "confined A m \<Longrightarrow> m s = (r, t) \<Longrightarrow> \<exists>evs. trace t = trace s @ evs \<and> list_all A evs"
  unfolding confined_def by (rule emitsD)

lemma emits_mono: "emits m P \<Longrightarrow> (\<And>evs r. P evs r \<Longrightarrow> Q evs r) \<Longrightarrow> emits m Q"
  unfolding emits_def by blast

lemma confined_mono: "confined A m \<Longrightarrow> (\<And>ev. A ev \<Longrightarrow> B ev) \<Longrightarrow> confined B m"
  unfolding confined_def by (erule emits_mono) (auto elim: list.pred_mono_strong)

lemma emits_returnM: "Q [] (Inr x) \<Longrightarrow> emits (returnM x) Q"
  by (auto simp: emits_def)

lemma emits_throwM: "Q [] (Inl e) \<Longrightarrow> emits (throwM e) Q"
  by (auto simp: emits_def)

lemma emits_liftM: "Q [] r \<Longrightarrow> emits (liftM r) Q"
  by (auto simp: emits_def liftM_def)

lemma emits_callM: "(\<And>x. Q [ev] (Inr x)) \<Longrightarrow> emits (callM ev f) Q"
  by (auto simp: emits_def callM_run)

lemma emits_emitM: "Q [ev] (Inr ()) \<Longrightarrow> emits (emitM ev) Q"
  by (auto simp: emits_def emitM_run)

lemma emits_bindM:
  assumes "emits m P"
    and "\<And>evs e. P evs (Inl e) \<Longrightarrow> Q evs (Inl e)"
    and "\<And>evs x. P evs (Inr x) \<Longrightarrow> emits (k x) (\<lambda>evs' r. Q (evs @ evs') r)"
  shows "emits (bindM m k) Q"
  unfolding emits_def
proof (intro allI impI)
  fix s r t
  assume run: "bindM m k s = (r, t)"
  obtain r1 u where m: "m s = (r1, u)" by force
  from emitsD [OF assms(1) m] obtain evs where evs: "trace u = trace s @ evs" "P evs r1" by blast
  show "\<exists>evs. trace t = trace s @ evs \<and> Q evs r"
  proof (cases r1)
    case (Inl e)
    with run m evs assms(2) show ?thesis by (auto simp: bindM_def)
  next
    case (Inr x)
    with run m have "k x u = (r, t)" by (simp add: bindM_def)
    with emitsD [OF assms(3) [of evs x] this] evs Inr show ?thesis by auto
  qed
qed

text \<open>The bind rule for a first step that is pure or one call.\<close>

lemma emits_liftM_bind:
  "(\<And>e. r = Inl e \<Longrightarrow> Q [] (Inl e)) \<Longrightarrow> (\<And>x. r = Inr x \<Longrightarrow> emits (k x) Q) \<Longrightarrow>
   emits (bindM (liftM r) k) Q"
  by (cases r) (auto simp: emits_def io_simps)

lemma emits_callM_bind:
  assumes "\<And>x. emits (k x) (\<lambda>evs r. Q (ev # evs) r)"
  shows "emits (bindM (callM ev f) k) Q"
proof (rule emits_bindM)
  show "emits (callM ev f) (\<lambda>evs r. evs = [ev] \<and> is_ok r)"
    by (rule emits_callM) simp
qed (use assms in auto)

lemma emits_attemptM:
  assumes "emits m P"
    and "\<And>evs e. P evs (Inl (Err e)) \<Longrightarrow> Q evs (Inr (Inl e))"
    and "\<And>evs e. P evs (Inl (Panic e)) \<Longrightarrow> Q evs (Inl (Panic e))"
    and "\<And>evs x. P evs (Inr x) \<Longrightarrow> Q evs (Inr (Inr x))"
  shows "emits (attemptM m) Q"
  unfolding emits_def
proof (intro allI impI)
  fix s r t
  assume run: "attemptM m s = (r, t)"
  obtain r1 u where m: "m s = (r1, u)" by force
  from emitsD [OF assms(1) m] obtain evs where evs: "trace u = trace s @ evs" "P evs r1" by blast
  with run m assms(2-) show "\<exists>evs. trace t = trace s @ evs \<and> Q evs r"
    by (auto simp: attemptM_def split: sum.splits app_error.splits)
qed

lemma confined_returnM [confined_intros]: "confined A (returnM x)"
  by (simp add: confined_def emits_returnM)

lemma confined_throwM [confined_intros]: "confined A (throwM e)"
  by (simp add: confined_def emits_throwM)

lemma confined_liftM [confined_intros]: "confined A (liftM r)"
  by (simp add: confined_def emits_liftM)

lemma confined_callM [confined_intros]: "A ev \<Longrightarrow> confined A (callM ev f)"
  by (simp add: confined_def emits_callM)

lemma confined_emitM [confined_intros]: "A ev \<Longrightarrow> confined A (emitM ev)"
  by (simp add: confined_def emits_emitM)

lemma confined_bindM [confined_intros]:
  "confined A m \<Longrightarrow> (\<And>x. confined A (k x)) \<Longrightarrow> confined A (bindM m k)"
  unfolding confined_def by (erule emits_bindM) (auto intro: emits_mono)

lemma confined_attemptM [confined_intros]: "confined A m \<Longrightarrow> confined A (attemptM m)"
  unfolding confined_def by (erule emits_attemptM) auto

lemma confined_if [confined_intros]:
  "(b \<Longrightarrow> confined A m) \<Longrightarrow> (\<not> b \<Longrightarrow> confined A n) \<Longrightarrow> confined A (if b then m else n)"
  by simp

lemma confined_whenM [confined_intros]: "(b \<Longrightarrow> confined A m) \<Longrightarrow> confined A (whenM b m)"
  by (simp add: whenM_def confined_returnM)

lemma confined_sum [confined_intros]:
  "(\<And>e. x = Inl e \<Longrightarrow> confined A (f e)) \<Longrightarrow> (\<And>y. x = Inr y \<Longrightarrow> confined A (g y))
   \<Longrightarrow> confined A (case x of Inl e \<Rightarrow> f e | Inr y \<Rightarrow> g y)"
  by (cases x) auto

lemma confined_option [confined_intros]:
  "(x = None \<Longrightarrow> confined A f) \<Longrightarrow> (\<And>y. x = Some y \<Longrightarrow> confined A (g y))
   \<Longrightarrow> confined A (case x of None \<Rightarrow> f | Some y \<Rightarrow> g y)"
  by (cases x) auto

end
