(* ===== verification/Settings_Env.thy ===== *)
theory Settings_Env
  imports Effects
begin

text \<open>
  The configuration of the broker: \<open>ParentSettings::from_env\<close>, \<open>KmsKeySettings::from_arn\<close>,
  \<open>kms_request_settings\<close> and the parsers of single values, from \<open>src/src/lib.rs\<close>. The
  process environment is a map from names to values.
\<close>

type_synonym env = "string \<rightharpoonup> string"

section \<open>Environment\<close>

definition optional_env :: "env \<Rightarrow> string \<Rightarrow> string option" where
  "optional_env env name =
     (case env name of
        Some v \<Rightarrow> if trim v \<noteq> [] then Some v else None
      | None \<Rightarrow> None)"

definition missing_env :: "string \<Rightarrow> app_error" where
  "missing_env name = Err (''missing '' @ name)"

definition required_env :: "env \<Rightarrow> string \<Rightarrow> string app_result" where
  "required_env env name = ok_or (missing_env name) (optional_env env name)"

section \<open>Single values\<close>

definition invalid_key_spec :: "string \<Rightarrow> app_error" where
  "invalid_key_spec v =
     Err (''unsupported KMS_KEY_SPEC '' @ [CHR 0x27] @ v @ [CHR 0x27] @ '', expected AES_128 or AES_256'')"

definition parse_key_spec :: "string \<Rightarrow> data_key_spec app_result" where
  "parse_key_spec v =
     (if v = ''AES_128'' then Inr Aes128
      else if v = ''AES_256'' then Inr Aes256
      else Inl (invalid_key_spec v))"

definition bytes_not_integer :: "string \<Rightarrow> app_error" where
  "bytes_not_integer v =
     Err (''KMS_NUMBER_OF_BYTES must be an integer, got '' @ [CHR 0x27] @ v @ [CHR 0x27])"

definition bytes_not_16_or_32 :: app_error where
  "bytes_not_16_or_32 = Err ''KMS_NUMBER_OF_BYTES must be 16 or 32''"

definition parse_number_of_bytes :: "string \<Rightarrow> i32 app_result" where
  "parse_number_of_bytes v =
     (case parse_i32 v of
        None \<Rightarrow> Inl (bytes_not_integer v)
      | Some n \<Rightarrow> if n \<noteq> 16 \<and> n \<noteq> 32 then Inl bytes_not_16_or_32 else Inr n)"

definition parse_csv :: "string \<Rightarrow> string list" where
  "parse_csv v = filter (\<lambda>item. item \<noteq> []) (map trim (split_on (CHR '','') v))"

definition context_not_pair :: "string \<Rightarrow> app_error" where
  "context_not_pair item =
     Err (''invalid KMS_ENCRYPTION_CONTEXT item '' @ [CHR 0x27] @ item @ [CHR 0x27]
          @ '', expected key=value'')"

definition context_empty_part :: "string \<Rightarrow> app_error" where
  "context_empty_part item =
     Err (''invalid KMS_ENCRYPTION_CONTEXT item '' @ [CHR 0x27] @ item @ [CHR 0x27]
          @ '', key and value must be non-empty'')"

text \<open>The loop body and the loop of \<open>parse_encryption_context\<close>.\<close>

definition parse_context_item :: "string \<Rightarrow> (string \<times> string) app_result" where
  "parse_context_item item =
     (case split_once ''='' item of
        None \<Rightarrow> Inl (context_not_pair item)
      | Some (k, v) \<Rightarrow>
          if trim k = [] \<or> trim v = [] then Inl (context_empty_part item)
          else Inr (trim k, trim v))"

fun insert_context_items :: "string list \<Rightarrow> string_map \<Rightarrow> string_map app_result" where
  "insert_context_items [] m = Inr m"
| "insert_context_items (item # items) m =
     bind_result (parse_context_item item) (\<lambda>(k, v). insert_context_items items (m(k \<mapsto> v)))"

definition parse_encryption_context :: "string \<Rightarrow> string_map app_result" where
  "parse_encryption_context v = insert_context_items (parse_csv v) Map.empty"

definition not_boolean :: "string \<Rightarrow> string \<Rightarrow> app_error" where
  "not_boolean name v =
     Err (name @ '' must be true or false, got '' @ [CHR 0x27] @ v @ [CHR 0x27])"

definition parse_bool :: "string \<Rightarrow> string \<Rightarrow> bool app_result" where
  "parse_bool name v =
     (if v \<in> {''true'', ''1'', ''yes'', ''y''} then Inr True
      else if v \<in> {''false'', ''0'', ''no'', ''n''} then Inr False
      else Inl (not_boolean name v))"

definition invalid_mode :: "string \<Rightarrow> app_error" where
  "invalid_mode v =
     Err (''DECRYPT_SERVER_TEE_MODE must be serve or init-key, got '' @ [CHR 0x27] @ v @ [CHR 0x27])"

definition parse_startup_mode :: "string \<Rightarrow> startup_mode app_result" where
  "parse_startup_mode v =
     (if v = ''serve'' then Inr Serve
      else if v = ''init-key'' then Inr InitKey
      else Inl (invalid_mode v))"

definition prefix_empty :: app_error where
  "prefix_empty = Err ''S3_PREFIX must not be empty''"

definition prefix_parent_component :: app_error where
  "prefix_parent_component =
     Err (''S3_PREFIX must not contain '' @ [CHR 0x27] @ ''..'' @ [CHR 0x27] @ '' path components'')"

definition normalize_s3_prefix :: "string \<Rightarrow> string app_result" where
  "normalize_s3_prefix v =
     (let p = trim_matches (CHR ''/'') v
      in if p = [] then Inl prefix_empty
         else if ''..'' \<in> set (split_on (CHR ''/'') p) then Inl prefix_parent_component
         else Inr p)"

section \<open>Key ARNs\<close>

definition not_key_arn :: "string \<Rightarrow> app_error" where
  "not_key_arn arn =
     Err (''KMS key must be a full key ARN (arn:...:kms:<region>:<account>:key/<id>), got ''
          @ [CHR 0x27] @ arn @ [CHR 0x27])"

definition kms_region_from_arn :: "string \<Rightarrow> string app_result" where
  "kms_region_from_arn arn =
     (let parts = splitn 6 (CHR '':'') arn
      in if length parts \<noteq> 6 \<or> parts ! 0 \<noteq> ''arn'' \<or> parts ! 2 \<noteq> ''kms'' \<or> parts ! 3 = []
            \<or> parts ! 4 = [] \<or> \<not> starts_with ''key/'' (parts ! 5)
         then Inl (not_key_arn arn)
         else Inr (parts ! 3))"

definition kms_account_from_arn :: "string \<Rightarrow> string app_result" where
  "kms_account_from_arn arn =
     bind_result (kms_region_from_arn arn) (\<lambda>_.
       let parts = split_on (CHR '':'') arn
       in if 4 < length parts then Inr (parts ! 4)
          else Inl (Panic ''validated KMS ARN has an account component''))"

definition from_arn :: "kms_slot \<Rightarrow> string \<Rightarrow> kms_key_settings app_result" where
  "from_arn sl arn =
     bind_result (kms_region_from_arn arn) (\<lambda>r.
       Inr \<lparr>slot = sl, key_arn = arn, key_region = r\<rparr>)"

section \<open>ParentSettings\<close>

definition spec_and_bytes :: app_error where
  "spec_and_bytes = Err ''set only one of KMS_KEY_SPEC or KMS_NUMBER_OF_BYTES''"

definition from_env :: "env \<Rightarrow> parent_settings app_result" where
  "from_env env =
     (let spec_var = (case optional_env env ''KMS_KEY_SPEC'' of
                        Some v \<Rightarrow> Some v
                      | None \<Rightarrow> optional_env env ''KEY_SPEC'')
      in
      bind_result (transpose_result
          (map_option parse_number_of_bytes (optional_env env ''KMS_NUMBER_OF_BYTES''))) (\<lambda>nbytes.
      if spec_var \<noteq> None \<and> nbytes \<noteq> None then Inl spec_and_bytes else
      bind_result (required_env env ''KMS_PRIMARY_KEY_ARN'') (\<lambda>primary_arn.
      bind_result (required_env env ''KMS_BACKUP_KEY_ARN'') (\<lambda>backup_arn.
      bind_result (from_arn Primary primary_arn) (\<lambda>primary.
      bind_result (from_arn Backup backup_arn) (\<lambda>backup.
      bind_result (required_env env ''S3_BUCKET'') (\<lambda>bucket.
      bind_result (normalize_s3_prefix
          (case optional_env env ''S3_PREFIX'' of Some v \<Rightarrow> v | None \<Rightarrow> default_s3_prefix)) (\<lambda>pfx.
      bind_result (transpose_result
          (map_option parse_startup_mode (optional_env env ''DECRYPT_SERVER_TEE_MODE''))) (\<lambda>m.
      bind_result (transpose_result
          (map_option parse_encryption_context (optional_env env ''KMS_ENCRYPTION_CONTEXT''))) (\<lambda>ctx.
      bind_result (transpose_result
          (map_option (parse_bool ''KMS_DRY_RUN'') (optional_env env ''KMS_DRY_RUN''))) (\<lambda>dry.
      Inr \<lparr>kms_keys = [primary, backup],
           s3_bucket = bucket,
           s3_prefix = pfx,
           mode = (case m of Some x \<Rightarrow> x | None \<Rightarrow> Serve),
           key_spec = (case spec_var of Some v \<Rightarrow> Some v | None \<Rightarrow> Some ''AES_256''),
           number_of_bytes = nbytes,
           encryption_context = ctx,
           grant_tokens = (case optional_env env ''KMS_GRANT_TOKENS'' of
                             Some v \<Rightarrow> parse_csv v | None \<Rightarrow> []),
           dry_run = dry\<rparr>)))))))))))"

definition kms_request_settings :: "parent_settings \<Rightarrow> string \<Rightarrow> kms_request app_result" where
  "kms_request_settings ps arn =
     bind_result (transpose_result (map_option parse_key_spec (key_spec ps))) (\<lambda>sp.
       Inr \<lparr>kms_key_id = arn,
            spec = sp,
            request_bytes = number_of_bytes ps,
            request_context = encryption_context ps,
            request_tokens = grant_tokens ps,
            request_dry_run = dry_run ps\<rparr>)"

section \<open>Well-formed settings\<close>

text \<open>
  What \<open>from_env\<close> establishes and the other components rely on: two keys in the order primary,
  backup, each with the region of its ARN; a normalised prefix; trimmed grant tokens and an
  encryption context without empty parts; a data key size of 16 or 32 bytes if one is given.
\<close>

definition settings_ok :: "parent_settings \<Rightarrow> bool" where
  "settings_ok ps \<longleftrightarrow>
     map slot (kms_keys ps) = [Primary, Backup]
     \<and> (\<forall>k \<in> set (kms_keys ps). kms_region_from_arn (key_arn k) = Inr (key_region k))
     \<and> normalize_s3_prefix (s3_prefix ps) = Inr (s3_prefix ps)
     \<and> trim (s3_bucket ps) \<noteq> []
     \<and> (\<forall>t \<in> set (grant_tokens ps). t \<noteq> [] \<and> trim t = t \<and> CHR '','' \<notin> set t)
     \<and> (\<forall>m. encryption_context ps = Some m \<longrightarrow>
          (\<forall>k v. m k = Some v \<longrightarrow> k \<noteq> [] \<and> v \<noteq> [] \<and> trim k = k \<and> trim v = v))
     \<and> (\<forall>n. number_of_bytes ps = Some n \<longrightarrow> n = 16 \<or> n = 32)"

section \<open>Lemmas\<close>

lemma parse_csv_item:
  "t \<in> set (parse_csv v) \<Longrightarrow> t \<noteq> [] \<and> trim t = t"
  by (auto simp: parse_csv_def)

lemma set_trim: "set (trim s) \<subseteq> set s"
proof -
  have "set (trim_start_of ps u) \<subseteq> set u" for ps u
    by (rule set_mono_suffix) (rule trim_start_of_suffix)
  then have "set (trim_end u) \<subseteq> set u" "set (trim_start u) \<subseteq> set u" for u
    by (auto simp: trim_end_def trim_start_def) (metis set_rev subset_code(1))
  then show ?thesis unfolding trim_def by blast
qed

lemma parse_csv_no_comma: "t \<in> set (parse_csv v) \<Longrightarrow> CHR '','' \<notin> set t"
  using set_trim by (fastforce simp: parse_csv_def dest: split_on_no_sep)

lemma parse_context_item_Inr:
  "parse_context_item item = Inr (k, v) \<Longrightarrow>
     k \<noteq> [] \<and> v \<noteq> [] \<and> trim k = k \<and> trim v = v"
  by (auto simp: parse_context_item_def split: option.splits if_splits)

lemma insert_context_items_entries:
  "insert_context_items items m = Inr m' \<Longrightarrow>
   (\<And>k v. m k = Some v \<Longrightarrow> P k v) \<Longrightarrow>
   (\<And>item k v. parse_context_item item = Inr (k, v) \<Longrightarrow> P k v) \<Longrightarrow>
   m' k = Some v \<Longrightarrow> P k v"
proof (induction items arbitrary: m)
  case (Cons item items)
  from Cons.prems(1) obtain k1 v1 where
    item: "parse_context_item item = Inr (k1, v1)"
    and rest: "insert_context_items items (m(k1 \<mapsto> v1)) = Inr m'"
    by auto
  from rest show ?case
  proof (rule Cons.IH)
    show "P k v" if "(m(k1 \<mapsto> v1)) k = Some v" for k v
      using that Cons.prems(2,3) item by (auto split: if_splits)
  qed (use Cons.prems in auto)
qed auto

lemma insert_context_items_reference:
  "insert_context_items items m =
     bind_result (all_results (map parse_context_item items)) (\<lambda>kvs. Inr (m ++ map_of (rev kvs)))"
proof (induction items arbitrary: m)
  case (Cons item items)
  show ?case
  proof (cases "parse_context_item item")
    case (Inr x)
    obtain k v where x: "x = (k, v)" by (cases x)
    have "m(k \<mapsto> v) ++ map_of (rev kvs) = m ++ map_of (rev ((k, v) # kvs))" for kvs
      by (auto simp: map_add_def fun_eq_iff split: option.splits)
    then show ?thesis
      by (simp add: Inr x Cons.IH bind_result_assoc del: fun_upd_apply map_add_upd rev.simps)
  qed simp
qed simp

lemma trim_matches_idem:
  assumes "trim_matches c s = t"
  shows "trim_matches c t = t"
proof (cases "t = []")
  case False
  with trim_matches_ends [OF assms] have "hd t \<noteq> c" "last t \<noteq> c" by auto
  with False have "dropWhile ((=) c) t = t" "dropWhile ((=) c) (rev t) = rev t"
    by (auto simp: dropWhile_eq_self_iff hd_rev)
  then show ?thesis by (simp add: trim_matches_def)
qed (simp add: trim_matches_def)

lemma normalize_s3_prefix_Inr:
  "normalize_s3_prefix v = Inr p \<Longrightarrow>
     p \<noteq> [] \<and> hd p \<noteq> CHR ''/'' \<and> last p \<noteq> CHR ''/'' \<and> ''..'' \<notin> set (split_on (CHR ''/'') p)"
  using trim_matches_ends [OF refl, of "CHR ''/''" v]
  by (auto simp: normalize_s3_prefix_def Let_def split: if_splits)

lemma normalize_s3_prefix_idem:
  "normalize_s3_prefix v = Inr p \<Longrightarrow> normalize_s3_prefix p = Inr p"
  using trim_matches_idem [OF refl, of "CHR ''/''" v]
  by (auto simp: normalize_s3_prefix_def Let_def split: if_splits)

lemma parse_number_of_bytes_Inr:
  "parse_number_of_bytes v = Inr n \<Longrightarrow> n = 16 \<or> n = 32"
  by (auto simp: parse_number_of_bytes_def split: option.splits if_splits)

lemma optional_env_Some: "optional_env env x = Some v \<longleftrightarrow> env x = Some v \<and> trim v \<noteq> []"
  by (auto simp: optional_env_def split: option.splits)

lemma required_env_Inr: "required_env env x = Inr v \<longleftrightarrow> env x = Some v \<and> trim v \<noteq> []"
  by (simp add: required_env_def optional_env_Some)

text \<open>The panic branch of \<open>kms_account_from_arn\<close> is unreachable.\<close>

lemma kms_account_from_arn_no_panic: "kms_account_from_arn arn \<noteq> Inl (Panic msg)"
proof (cases "kms_region_from_arn arn")
  case (Inl e)
  then show ?thesis
    by (auto simp: kms_account_from_arn_def kms_region_from_arn_def not_key_arn_def Let_def
        split: if_splits)
next
  case (Inr r)
  then have "length (splitn 6 (CHR '':'') arn) = 6"
    by (auto simp: kms_region_from_arn_def Let_def split: if_splits)
  then have "4 < length (split_on (CHR '':'') arn)"
    using split_on_splitn [of 4 6 "CHR '':''" arn] by simp
  with Inr show ?thesis by (simp add: kms_account_from_arn_def)
qed

lemma kms_region_from_arn_Inr:
  "kms_region_from_arn arn = Inr region \<longleftrightarrow>
     (\<exists>part account key_id.
        arn = ''arn:'' @ part @ '':kms:'' @ region @ '':'' @ account @ '':key/'' @ key_id
        \<and> region \<noteq> [] \<and> account \<noteq> []
        \<and> CHR '':'' \<notin> set part \<and> CHR '':'' \<notin> set region \<and> CHR '':'' \<notin> set account)"
  (is "?region \<longleftrightarrow> ?shape")
proof
  assume ?region
  then have len: "length (splitn 6 (CHR '':'') arn) = 6"
    and at: "splitn 6 (CHR '':'') arn ! 0 = ''arn''" "splitn 6 (CHR '':'') arn ! 2 = ''kms''"
      "splitn 6 (CHR '':'') arn ! 3 = region" "region \<noteq> []" "splitn 6 (CHR '':'') arn ! 4 \<noteq> []"
      "starts_with ''key/'' (splitn 6 (CHR '':'') arn ! 5)"
    by (auto simp: kms_region_from_arn_def Let_def split: if_splits)
  from len obtain a b c d e f where parts: "splitn 6 (CHR '':'') arn = [a, b, c, d, e] @ [f]"
    by (auto simp: numeral_eq_Suc length_Suc_conv)
  from splitn_exact [OF parts] at parts show ?shape
    by (auto simp: starts_with_iff) 
next
  assume ?shape
  then obtain part account key_id where
    arn: "arn = ''arn:'' @ part @ '':kms:'' @ region @ '':'' @ account @ '':key/'' @ key_id"
    and ok: "region \<noteq> []" "account \<noteq> []" "CHR '':'' \<notin> set part" "CHR '':'' \<notin> set region"
      "CHR '':'' \<notin> set account" by blast
  have "splitn 6 (CHR '':'') arn = [''arn'', part, ''kms'', region, account] @ [''key/'' @ key_id]"
  proof -
    let ?xs = "[''arn'', part, ''kms'', region, account]"
    have "arn = concat (map (\<lambda>x. x @ [CHR '':'']) ?xs) @ ''key/'' @ key_id" "6 = Suc (length ?xs)"
      by (simp_all add: arn)
    moreover have "CHR '':'' \<notin> set x" if "x \<in> set ?xs" for x
      using that ok by auto
    ultimately show ?thesis
      using splitn_fields [of ?xs "CHR '':''" "''key/'' @ key_id"] by metis
  qed
  with ok show ?region
    by (simp add: kms_region_from_arn_def starts_with_iff)
qed

lemma kms_account_from_arn_shape:
  assumes "arn = ''arn:'' @ part @ '':kms:'' @ region @ '':'' @ account @ '':key/'' @ key_id"
    and "region \<noteq> []" "account \<noteq> []" "CHR '':'' \<notin> set part" "CHR '':'' \<notin> set region"
      "CHR '':'' \<notin> set account"
  shows "kms_account_from_arn arn = Inr account"
proof -
  have "kms_region_from_arn arn = Inr region"
    using assms by (auto simp: kms_region_from_arn_Inr)
  moreover have "split_on (CHR '':'') arn =
      ''arn'' # part # ''kms'' # region # account # split_on (CHR '':'') (''key/'' @ key_id)"
    using split_on_append [OF assms(4), of "''kms:'' @ region @ '':'' @ account @ '':key/'' @ key_id"]
      split_on_append [OF assms(5), of "account @ '':key/'' @ key_id"]
      split_on_append [OF assms(6), of "''key/'' @ key_id"]
    by (simp add: assms(1))
  ultimately show ?thesis
    by (simp add: kms_account_from_arn_def)
qed

text \<open>Inversion of a successful \<open>from_env\<close>.\<close>

lemma from_env_Inr:
  assumes "from_env env = Inr ps"
  shows "\<exists>primary_arn backup_arn primary backup v m.
     transpose_result (map_option parse_number_of_bytes (optional_env env ''KMS_NUMBER_OF_BYTES''))
       = Inr (number_of_bytes ps)
     \<and> (number_of_bytes ps = None \<or>
          optional_env env ''KMS_KEY_SPEC'' = None \<and> optional_env env ''KEY_SPEC'' = None)
     \<and> required_env env ''KMS_PRIMARY_KEY_ARN'' = Inr primary_arn
     \<and> required_env env ''KMS_BACKUP_KEY_ARN'' = Inr backup_arn
     \<and> from_arn Primary primary_arn = Inr primary \<and> from_arn Backup backup_arn = Inr backup
     \<and> required_env env ''S3_BUCKET'' = Inr (s3_bucket ps)
     \<and> normalize_s3_prefix v = Inr (s3_prefix ps)
     \<and> transpose_result (map_option parse_encryption_context
          (optional_env env ''KMS_ENCRYPTION_CONTEXT'')) = Inr (encryption_context ps)
     \<and> kms_keys ps = [primary, backup]
     \<and> mode ps = (case m of Some x \<Rightarrow> x | None \<Rightarrow> Serve)
     \<and> key_spec ps = (case optional_env env ''KMS_KEY_SPEC'' of
         Some v \<Rightarrow> Some v
       | None \<Rightarrow> (case optional_env env ''KEY_SPEC'' of Some v \<Rightarrow> Some v | None \<Rightarrow> Some ''AES_256''))
     \<and> grant_tokens ps =
         (case optional_env env ''KMS_GRANT_TOKENS'' of Some v \<Rightarrow> parse_csv v | None \<Rightarrow> [])
     \<and> transpose_result (map_option parse_startup_mode (optional_env env ''DECRYPT_SERVER_TEE_MODE''))
         = Inr m"
proof -
  define spec where "spec = (case optional_env env ''KMS_KEY_SPEC'' of
                        Some v \<Rightarrow> Some v
                      | None \<Rightarrow> optional_env env ''KEY_SPEC'')"
  have cond: "spec = None \<longleftrightarrow> optional_env env ''KMS_KEY_SPEC'' = None \<and> optional_env env ''KEY_SPEC'' = None"
   and ks: "(case spec of Some v \<Rightarrow> Some v | None \<Rightarrow> Some ''AES_256'') = (case optional_env env ''KMS_KEY_SPEC'' of
         Some v \<Rightarrow> Some v
       | None \<Rightarrow> (case optional_env env ''KEY_SPEC'' of Some v \<Rightarrow> Some v | None \<Rightarrow> Some ''AES_256''))"
    by (auto simp: spec_def split: option.splits)
  have step: "(if b then Inl e else m) = Inr x \<longleftrightarrow> \<not> b \<and> m = Inr x" for b and e :: app_error and m and x :: parent_settings
    by simp
  from assms show ?thesis
    unfolding from_env_def Let_def spec_def [symmetric] bind_result_Inr step
  proof (elim exE conjE)
    fix nbytes primary_arn backup_arn primary backup bucket pfx m ctx dry
    assume facts: "transpose_result (map_option parse_number_of_bytes (optional_env env ''KMS_NUMBER_OF_BYTES''))
       = Inr nbytes" "\<not> (spec \<noteq> None \<and> nbytes \<noteq> None)"
      "required_env env ''KMS_PRIMARY_KEY_ARN'' = Inr primary_arn"
      "required_env env ''KMS_BACKUP_KEY_ARN'' = Inr backup_arn"
      "from_arn Primary primary_arn = Inr primary" "from_arn Backup backup_arn = Inr backup"
      "required_env env ''S3_BUCKET'' = Inr bucket"
      "normalize_s3_prefix
         (case optional_env env ''S3_PREFIX'' of None \<Rightarrow> default_s3_prefix | Some v \<Rightarrow> v) = Inr pfx"
      "transpose_result (map_option parse_startup_mode (optional_env env ''DECRYPT_SERVER_TEE_MODE''))
         = Inr m"
      "transpose_result (map_option parse_encryption_context
          (optional_env env ''KMS_ENCRYPTION_CONTEXT'')) = Inr ctx"
    assume rec: "Inr \<lparr>kms_keys = [primary, backup], s3_bucket = bucket, s3_prefix = pfx,
        mode = (case m of None \<Rightarrow> Serve | Some x \<Rightarrow> x),
        key_spec = (case spec of None \<Rightarrow> Some ''AES_256'' | Some v \<Rightarrow> Some v),
        number_of_bytes = nbytes, encryption_context = ctx,
        grant_tokens = (case optional_env env ''KMS_GRANT_TOKENS'' of None \<Rightarrow> [] | Some v \<Rightarrow> parse_csv v),
        dry_run = dry\<rparr> = (Inr ps :: parent_settings app_result)"
    from facts(2) cond have disj: "nbytes = None \<or>
        optional_env env ''KMS_KEY_SPEC'' = None \<and> optional_env env ''KEY_SPEC'' = None" by blast
    from rec have "ps = \<lparr>kms_keys = [primary, backup], s3_bucket = bucket, s3_prefix = pfx,
        mode = (case m of None \<Rightarrow> Serve | Some x \<Rightarrow> x),
        key_spec = (case spec of None \<Rightarrow> Some ''AES_256'' | Some v \<Rightarrow> Some v),
        number_of_bytes = nbytes, encryption_context = ctx,
        grant_tokens = (case optional_env env ''KMS_GRANT_TOKENS'' of None \<Rightarrow> [] | Some v \<Rightarrow> parse_csv v),
        dry_run = dry\<rparr>" by blast
    then show ?thesis
      apply (simp only: parent_settings.select_convs ks)
      apply (intro exI conjI)
      apply (rule facts refl disj)+
      done
  qed
qed

lemma from_env_init_key:
  assumes "from_env env = Inr ps" and "mode ps = InitKey"
  shows "env ''DECRYPT_SERVER_TEE_MODE'' = Some ''init-key''"
proof -
  from from_env_Inr [OF assms(1)] obtain m where
    m: "transpose_result (map_option parse_startup_mode (optional_env env ''DECRYPT_SERVER_TEE_MODE'')) = Inr m"
    "mode ps = (case m of None \<Rightarrow> Serve | Some x \<Rightarrow> x)" by blast
  with assms(2) have "m = Some InitKey" by (cases m) simp_all
  with m(1) show ?thesis
    by (auto simp: transpose_result_Inr optional_env_Some parse_startup_mode_def split: if_splits)
qed

lemma kms_request_settings_key_id: "kms_request_settings ps arn = Inr rs \<Longrightarrow> kms_key_id rs = arn"
  by (auto simp: kms_request_settings_def)

lemma from_arn_Inr [simp]:
  "from_arn sl arn = Inr k \<longleftrightarrow>
     (\<exists>r. kms_region_from_arn arn = Inr r \<and> k = \<lparr>slot = sl, key_arn = arn, key_region = r\<rparr>)"
  by (auto simp: from_arn_def)

lemma from_env_settings:
  assumes "from_env env = Inr ps"
  shows "settings_ok ps \<and> (mode ps = InitKey) = (env ''DECRYPT_SERVER_TEE_MODE'' = Some ''init-key'')"
proof -
  from from_env_Inr [OF assms] obtain primary_arn backup_arn primary backup v m where
    nbytes: "transpose_result (map_option parse_number_of_bytes (optional_env env ''KMS_NUMBER_OF_BYTES''))
       = Inr (number_of_bytes ps)"
    and keys: "from_arn Primary primary_arn = Inr primary" "from_arn Backup backup_arn = Inr backup"
      "kms_keys ps = [primary, backup]"
    and bucket: "required_env env ''S3_BUCKET'' = Inr (s3_bucket ps)"
    and pfx: "normalize_s3_prefix v = Inr (s3_prefix ps)"
    and ctx: "transpose_result (map_option parse_encryption_context
          (optional_env env ''KMS_ENCRYPTION_CONTEXT'')) = Inr (encryption_context ps)"
    and mode: "mode ps = (case m of Some x \<Rightarrow> x | None \<Rightarrow> Serve)"
      "transpose_result (map_option parse_startup_mode (optional_env env ''DECRYPT_SERVER_TEE_MODE'')) = Inr m"
    and tokens: "grant_tokens ps =
         (case optional_env env ''KMS_GRANT_TOKENS'' of Some v \<Rightarrow> parse_csv v | None \<Rightarrow> [])"
    by blast
  have "n = 16 \<or> n = 32" if "number_of_bytes ps = Some n" for n
    using nbytes that by (auto simp: transpose_result_Inr dest: parse_number_of_bytes_Inr)
  moreover have "t \<noteq> [] \<and> trim t = t \<and> CHR '','' \<notin> set t" if "t \<in> set (grant_tokens ps)" for t
    using tokens that by (auto dest: parse_csv_item parse_csv_no_comma split: option.splits)
  moreover have "k \<noteq> [] \<and> v \<noteq> [] \<and> trim k = k \<and> trim v = v"
    if "encryption_context ps = Some c" "c k = Some v" for c k v
  proof -
    from ctx that(1) obtain raw where "parse_encryption_context raw = Inr c"
      by (auto simp: transpose_result_Inr)
    then show ?thesis
      using insert_context_items_entries [of "parse_csv raw" Map.empty c
          "\<lambda>k v. k \<noteq> [] \<and> v \<noteq> [] \<and> trim k = k \<and> trim v = v" k v] that(2) parse_context_item_Inr
      by (simp add: parse_encryption_context_def)
  qed
  ultimately have "settings_ok ps"
    using keys bucket normalize_s3_prefix_idem [OF pfx]
    by (auto simp: settings_ok_def required_env_Inr)
  moreover have "mode ps = InitKey" if "env ''DECRYPT_SERVER_TEE_MODE'' = Some ''init-key''"
  proof -
    have "optional_env env ''DECRYPT_SERVER_TEE_MODE'' = Some ''init-key''"
      using that by (simp add: optional_env_def) code_simp
    with mode show ?thesis by (auto simp: parse_startup_mode_def)
  qed
  ultimately show ?thesis using from_env_init_key [OF assms] by blast
qed

text \<open>The reference reading of \<open>KMS_ENCRYPTION_CONTEXT\<close>, step by step.\<close>

lemma all_results_Inr: "all_results (map f xs) = Inr ys \<longleftrightarrow> list_all2 (\<lambda>x y. f x = Inr y) xs ys"
proof (induction xs arbitrary: ys)
  case (Cons x xs)
  then show ?case by (cases ys) auto
qed auto

lemma join_split_on: "join [c] (split_on c s) = s"
proof (induction s)
  case (Cons x s)
  have "join [c] ((x # y) # ys) = x # join [c] (y # ys)" for y ys by (cases ys) simp_all
  moreover have "join [c] ([] # y # ys) = c # join [c] (y # ys)" for y ys by simp
  moreover obtain y ys where "split_on c s = y # ys" by (cases "split_on c s") auto
  ultimately show ?case using Cons by simp
qed simp

lemma split_on_join: "xs \<noteq> [] \<Longrightarrow> list_all (\<lambda>x. c \<notin> set x) xs \<Longrightarrow> split_on c (join [c] xs) = xs"
  by (induction "[c]" xs rule: join.induct) (auto simp: split_on_append split_on_id)

lemma split_on_iff:
  "split_on c s = xs \<longleftrightarrow> xs \<noteq> [] \<and> join [c] xs = s \<and> list_all (\<lambda>x. c \<notin> set x) xs"
  using join_split_on [of c s] split_on_join [of xs c] split_on_nonempty [of c s] split_on_no_sep [of _ c s]
  by (auto simp: list_all_iff)

lemma parse_context_item_iff:
  "parse_context_item item = Inr kx \<longleftrightarrow>
     (case kx of (k, x) \<Rightarrow> \<exists>a b. item = a @ CHR ''='' # b \<and> CHR ''='' \<notin> set a
        \<and> k = trim a \<and> x = trim b \<and> k \<noteq> [] \<and> x \<noteq> [])"
proof -
  have split: "split_once ''='' item = Some (a, b) \<longleftrightarrow> item = a @ CHR ''='' # b \<and> CHR ''='' \<notin> set a" for a b
    using split_once_Some [of "''=''" item a b] split_once_char_fst [of "CHR ''=''" item a b]
      split_once_char [of "CHR ''=''" a b] by auto
  have "parse_context_item item = Inr kx \<longleftrightarrow>
      (case kx of (k, x) \<Rightarrow> \<exists>a b. split_once ''='' item = Some (a, b)
         \<and> k = trim a \<and> x = trim b \<and> k \<noteq> [] \<and> x \<noteq> [])"
    unfolding parse_context_item_def by (auto split: option.split prod.split)
  then show ?thesis unfolding split conj_assoc .
qed

lemma insert_context_items_no_panic: "insert_context_items items m \<noteq> Inl (Panic msg)"
proof (induction items arbitrary: m)
  case (Cons item items)
  show ?case
  proof (cases "parse_context_item item")
    case (Inl e)
    then show ?thesis
      by (auto simp: parse_context_item_def context_not_pair_def context_empty_part_def
        split: option.splits if_splits)
  next
    case (Inr kx)
    with Cons.IH show ?thesis by (cases kx) (simp del: fun_upd_apply)
  qed
qed simp

section \<open>Properties\<close>

text \<open>
  Property C27. Settings read from the environment are well formed (two keys in the order primary,
  backup with the regions of their ARNs, a normalised prefix, clean grant tokens and encryption
  context, a data-key size of 16 or 32 bytes), and the mode is \<open>init-key\<close> only if the variable
  says exactly that.
\<close>

theorem from_env_settings_ok:
  assumes "from_env env = Inr ps"
  shows "settings_ok ps \<and> (mode ps = InitKey) = (env ''DECRYPT_SERVER_TEE_MODE'' = Some ''init-key'')"
  by (rule from_env_settings [OF assms])

definition demo_env :: env where
  "demo_env =
     [''KMS_PRIMARY_KEY_ARN'' \<mapsto> ''arn:aws:kms:us-east-1:111122223333:key/abc-1'',
      ''KMS_BACKUP_KEY_ARN'' \<mapsto> ''arn:aws:kms:us-east-1:444455556666:key/def-2'',
      ''S3_BUCKET'' \<mapsto> ''bucket'',
      ''S3_PREFIX'' \<mapsto> ''/keys/prod/'',
      ''KMS_ENCRYPTION_CONTEXT'' \<mapsto> ''app = demo , env=test'',
      ''DECRYPT_SERVER_TEE_MODE'' \<mapsto> ''init-key'']"

lemma from_env_demo:
  "\<exists>ps. from_env demo_env = Inr ps \<and> mode ps = InitKey \<and> s3_prefix ps = ''keys/prod''"
proof -
  have "case from_env demo_env of Inl _ \<Rightarrow> False | Inr ps \<Rightarrow> mode ps = InitKey \<and> s3_prefix ps = ''keys/prod''"
    by code_simp
  then show ?thesis
    by (cases "from_env demo_env") simp_all
qed

theorem from_env_settings_ok_witness:
  "\<exists>ps. from_env demo_env = Inr ps \<and> settings_ok ps \<and> mode ps = InitKey \<and> s3_prefix ps = ''keys/prod''"
  using from_env_demo from_env_settings_ok by blast

text \<open>
  Property C34. The grammar of \<open>KMS_ENCRYPTION_CONTEXT\<close>. A value is accepted with context
  \<open>ctx\<close> exactly if it is a comma-separated list of pieces such that each piece that is not blank
  is, after trimming, a text \<open>a=b\<close> with no \<open>=\<close> in \<open>a\<close> and both parts not blank; the
  entry is the pair of the trimmed parts, and of several entries with one key the last counts. A
  refusal is an error value, never a panic.
\<close>

theorem encryption_context_grammar:
  "(parse_encryption_context v = Inr ctx \<longleftrightarrow>
     (\<exists>pieces entries. pieces \<noteq> [] \<and> join '','' pieces = v
        \<and> list_all (\<lambda>p. CHR '','' \<notin> set p) pieces
        \<and> list_all2 (\<lambda>item (k, x). \<exists>a b. item = a @ CHR ''='' # b \<and> CHR ''='' \<notin> set a
              \<and> k = trim a \<and> x = trim b \<and> k \<noteq> [] \<and> x \<noteq> [])
            (filter (\<lambda>item. item \<noteq> []) (map trim pieces)) entries
        \<and> ctx = map_of (rev entries)))
   \<and> \<not> panics (parse_encryption_context v)"
proof
  show "\<not> panics (parse_encryption_context v)"
    using insert_context_items_no_panic [of "parse_csv v" Map.empty]
    by (cases "parse_encryption_context v") (auto simp: parse_encryption_context_def)
  have "parse_encryption_context v = Inr ctx \<longleftrightarrow>
      (\<exists>entries. list_all2 (\<lambda>item kx. parse_context_item item = Inr kx) (parse_csv v) entries
        \<and> ctx = map_of (rev entries))"
    by (auto simp: parse_encryption_context_def insert_context_items_reference all_results_Inr)
  also have "\<dots> \<longleftrightarrow> (\<exists>pieces entries. split_on (CHR '','') v = pieces
        \<and> list_all2 (\<lambda>item kx. parse_context_item item = Inr kx)
            (filter (\<lambda>item. item \<noteq> []) (map trim pieces)) entries \<and> ctx = map_of (rev entries))"
    by (simp add: parse_csv_def)
  finally show "(parse_encryption_context v = Inr ctx) =
     (\<exists>pieces entries. pieces \<noteq> [] \<and> join '','' pieces = v
        \<and> list_all (\<lambda>p. CHR '','' \<notin> set p) pieces
        \<and> list_all2 (\<lambda>item (k, x). \<exists>a b. item = a @ CHR ''='' # b \<and> CHR ''='' \<notin> set a
              \<and> k = trim a \<and> x = trim b \<and> k \<noteq> [] \<and> x \<noteq> [])
            (filter (\<lambda>item. item \<noteq> []) (map trim pieces)) entries
        \<and> ctx = map_of (rev entries))"
    unfolding split_on_iff parse_context_item_iff conj_assoc .
qed

text \<open>
  Property C28. The shape of an accepted key ARN. The region is read from exactly the strings
  \<open>arn:<partition>:kms:<region>:<account>:key/<id>\<close> with non-empty region and account (the
  identifier may be empty here and contain colons); for these the account is the fifth field, and
  the panic in \<open>kms_account_from_arn\<close> is unreachable.
\<close>

theorem arn_fields:
  "(kms_region_from_arn arn = Inr region \<and> kms_account_from_arn arn = Inr account) =
     (\<exists>part key_id. arn = ''arn:'' @ part @ '':kms:'' @ region @ '':'' @ account @ '':key/'' @ key_id
        \<and> region \<noteq> [] \<and> account \<noteq> []
        \<and> CHR '':'' \<notin> set part \<and> CHR '':'' \<notin> set region \<and> CHR '':'' \<notin> set account)
   \<and> \<not> panics (kms_account_from_arn arn)"
proof
  show "\<not> panics (kms_account_from_arn arn)"
    using kms_account_from_arn_no_panic [of arn] by (cases "kms_account_from_arn arn") auto
  show "(kms_region_from_arn arn = Inr region \<and> kms_account_from_arn arn = Inr account) =
     (\<exists>part key_id. arn = ''arn:'' @ part @ '':kms:'' @ region @ '':'' @ account @ '':key/'' @ key_id
        \<and> region \<noteq> [] \<and> account \<noteq> []
        \<and> CHR '':'' \<notin> set part \<and> CHR '':'' \<notin> set region \<and> CHR '':'' \<notin> set account)"
    unfolding kms_region_from_arn_Inr using kms_account_from_arn_shape by (metis sum.inject(2))
qed
end
