(* ===== verification/Platform.thy ===== *)
theory Platform
  imports Effects
begin

text \<open>
  The code outside \<open>src/\<close> that a process calls and that can change or depend on the world: the
  socket calls of the operating system, the byte stream to the peer, the S3 and KMS clients of the
  AWS SDK, credential providers, the native Nitro shim and the random number generator. It is one
  record of functions on the world, an argument of the model; nothing is assumed about them here.
\<close>

section \<open>Outcomes\<close>

text \<open>
  \<open>SdkError\<close>: a service error with the detail the code inspects, a dispatch failure (no
  connection), or any other variant. A dispatch failure has two texts: the \<open>Debug\<close> of the failure
  itself, and the text of the whole error that the code reports when it gives up (its \<open>Display\<close> for
  a read, its \<open>Debug\<close> for a write); any other error has only the latter.
\<close>

datatype 'e sdk_error = Service_Error 'e | Dispatch_Failure string string | Other_Error string

text \<open>GetObject: whether the service error is \<open>NoSuchKey\<close>, and its text.\<close>

record get_service_error =
  no_such_key :: bool
  get_error_text :: string

record put_service_error =
  http_status :: nat
  error_code :: "string option"
  error_message :: "string option"

text \<open>
  Credentials as a provider returns them; the expiry is in nanoseconds from the Unix epoch and may
  lie before it.
\<close>

record sdk_credentials =
  sdk_access_key_id :: string
  sdk_secret_access_key :: string
  sdk_session_token :: "string option"
  sdk_expiry :: "int option"

datatype credentials_provider = Default_Provider | Static_Provider sdk_credentials

record generate_output =
  output_plaintext :: "bytes option"
  output_ciphertext :: "bytes option"
  output_key_id :: "string option"

text \<open>
  \<open>NativeBuffer\<close>: the memory behind the data pointer (\<^const>\<open>None\<close> for a null pointer) and
  the length field.
\<close>

record native_buffer =
  buffer_data :: "bytes option"
  buffer_len :: nat

record native_outcome =
  native_rc :: int
  native_plaintext :: native_buffer
  native_ciphertext :: native_buffer
  native_error_text :: string

datatype stream = Tcp_Stream int | Fd_Stream int

section \<open>The platform\<close>

text \<open>
  \<open>linux\<close> and \<open>nitro_enclave\<close> are the conditional-compilation switches
  \<open>target_os = "linux"\<close> and \<open>feature = "nitro-enclave"\<close>. \<open>exchange\<close> sends bytes on a
  stream and returns the bytes that can then be read from it, with the text of the error that a
  read past their end gives (for a closed connection, that of \<open>read_exact\<close>). The socket calls take the
  arguments of the C functions; \<open>sys_accept\<close> also returns the address that the kernel leaves in
  its argument. On the side
  that accepted the connection, \<open>stream_input\<close> is what the peer sends and
  \<open>stream_output\<close> writes to it.
\<close>

record 'w platform =
  crates :: libs
  linux :: bool
  nitro_enclave :: bool
  tcp_connect :: "string \<Rightarrow> 'w \<Rightarrow> (string + int) \<times> 'w"
  tcp_bind :: "string \<Rightarrow> 'w \<Rightarrow> (string + int) \<times> 'w"
  tcp_accept :: "int \<Rightarrow> 'w \<Rightarrow> (string + int) \<times> 'w"
  sys_socket :: "int \<Rightarrow> int \<Rightarrow> int \<Rightarrow> 'w \<Rightarrow> int \<times> 'w"
  sys_connect :: "int \<Rightarrow> sock_addr_vm \<Rightarrow> nat \<Rightarrow> 'w \<Rightarrow> int \<times> 'w"
  sys_bind :: "int \<Rightarrow> sock_addr_vm \<Rightarrow> nat \<Rightarrow> 'w \<Rightarrow> int \<times> 'w"
  sys_listen :: "int \<Rightarrow> int \<Rightarrow> 'w \<Rightarrow> int \<times> 'w"
  sys_accept :: "int \<Rightarrow> sock_addr_vm \<Rightarrow> nat \<Rightarrow> 'w \<Rightarrow> (int \<times> sock_addr_vm) \<times> 'w"
  sys_close :: "int \<Rightarrow> 'w \<Rightarrow> unit \<times> 'w"
  last_os_error :: "'w \<Rightarrow> string"
  exchange :: "stream \<Rightarrow> bytes \<Rightarrow> 'w \<Rightarrow> (string + bytes \<times> string) \<times> 'w"
  stream_input :: "stream \<Rightarrow> 'w \<Rightarrow> (bytes \<times> string) \<times> 'w"
  stream_output :: "stream \<Rightarrow> bytes \<Rightarrow> 'w \<Rightarrow> unit \<times> 'w"
  load_default_provider :: "'w \<Rightarrow> credentials_provider option \<times> 'w"
  s3_get :: "string \<Rightarrow> string \<Rightarrow> 'w \<Rightarrow> (get_service_error sdk_error + (string + bytes)) \<times> 'w"
  s3_put :: "put_object_request \<Rightarrow> 'w \<Rightarrow> (put_service_error sdk_error + unit) \<times> 'w"
  provide_credentials :: "credentials_provider \<Rightarrow> 'w \<Rightarrow> (string + sdk_credentials) \<times> 'w"
  build_runtime :: "'w \<Rightarrow> (string + unit) \<times> 'w"
  kms_generate :: "aws_credentials \<Rightarrow> sdk_request \<Rightarrow> 'w \<Rightarrow> (string + generate_output) \<times> 'w"
  kms_decrypt :: "aws_credentials \<Rightarrow> sdk_request \<Rightarrow> 'w \<Rightarrow> (string + bytes option) \<times> 'w"
  nkms_generate :: "native_client \<Rightarrow> string \<Rightarrow> u32 \<Rightarrow> 'w \<Rightarrow> native_outcome \<times> 'w"
  nkms_decrypt :: "native_client \<Rightarrow> bytes \<Rightarrow> string option \<Rightarrow> 'w \<Rightarrow> native_outcome \<times> 'w"
  random_bytes :: "nat \<Rightarrow> 'w \<Rightarrow> bytes \<times> 'w"

end
