(* ===== verification/Endpoints.thy ===== *)
theory Endpoints
  imports Settings_Env Platform
begin

text \<open>
  Endpoints and connections, from \<open>src/src/lib.rs\<close>: \<open>Endpoint::parse\<close>, the dispatch of
  \<open>connect_endpoint\<close>, \<open>listen_endpoint\<close> and \<open>Listener::accept\<close>, and the module
  \<open>linux_vsock\<close> with its system calls.
\<close>

section \<open>Parsing\<close>

definition tcp_shape :: app_error where
  "tcp_shape = Err ''tcp endpoint must be tcp:host:port''"

definition vsock_shape :: app_error where
  "vsock_shape = Err ''vsock endpoint must be vsock:cid:port''"

definition invalid_cid :: "string \<Rightarrow> app_error" where
  "invalid_cid v = Err (''invalid vsock cid '' @ [CHR 0x27] @ v @ [CHR 0x27])"

definition invalid_port :: "string \<Rightarrow> app_error" where
  "invalid_port v = Err (''invalid vsock port '' @ [CHR 0x27] @ v @ [CHR 0x27])"

definition unsupported_endpoint :: "string \<Rightarrow> app_error" where
  "unsupported_endpoint v =
     Err (''unsupported endpoint '' @ [CHR 0x27] @ v @ [CHR 0x27]
          @ '', expected tcp:host:port or vsock:cid:port'')"

definition endpoint_parse :: "string \<Rightarrow> endpoint app_result" where
  "endpoint_parse v =
     (case strip_prefix ''tcp:'' v of
        Some addr \<Rightarrow> if addr = [] then Inl tcp_shape else Inr (Tcp addr)
      | None \<Rightarrow>
          (case strip_prefix ''vsock:'' v of
             Some rest \<Rightarrow>
               bind_result (ok_or vsock_shape (split_once '':'' rest)) (\<lambda>(cid, port).
               bind_result (ok_or (invalid_cid cid) (parse_u32 cid)) (\<lambda>c.
               bind_result (ok_or (invalid_port port) (parse_u32 port)) (\<lambda>p.
               Inr (Vsock c p))))
           | None \<Rightarrow> Inl (unsupported_endpoint v)))"

text \<open>The text of an endpoint in a configuration.\<close>

definition endpoint_text :: "endpoint \<Rightarrow> string" where
  "endpoint_text ep =
     (case ep of
        Tcp addr \<Rightarrow> ''tcp:'' @ addr
      | Vsock cid port \<Rightarrow> ''vsock:'' @ show_u32 cid @ '':'' @ show_u32 port)"

text \<open>The derived \<open>Debug\<close> of an endpoint, as the start-up messages print it.\<close>

definition debug_endpoint :: "libs \<Rightarrow> endpoint \<Rightarrow> string" where
  "debug_endpoint L ep =
     (case ep of
        Tcp addr \<Rightarrow> ''Tcp('' @ debug_str L addr @ '')''
      | Vsock cid port \<Rightarrow> ''Vsock { cid: '' @ show_u32 cid @ '', port: '' @ show_u32 port @ '' }'')"

section \<open>Vsock system calls\<close>

definition af_vsock :: int where
  "af_vsock = 40"

definition sock_stream :: int where
  "sock_stream = 1"

definition vmaddr_cid_any :: u32 where
  "vmaddr_cid_any = 0xffffffff"

definition sockaddr :: "u32 \<Rightarrow> u32 \<Rightarrow> sock_addr_vm" where
  "sockaddr cid port =
     \<lparr>svm_family = word_of_int af_vsock, svm_reserved1 = 0, svm_port = port, svm_cid = cid,
      svm_zero = replicate 4 0\<rparr>"

text \<open>\<open>mem::size_of::<SockAddrVm>()\<close> under \<open>repr(C)\<close>: two u16, two u32 and four bytes.\<close>

definition sock_addr_size :: nat where
  "sock_addr_size = 2 + 2 + 4 + 4 + 4"

definition os_error :: "('w, 'a) platform_scheme \<Rightarrow> ('w, 'b) io" where
  "os_error P = (\<lambda>s. (Inl (Err (last_os_error P (world s))), s))"

text \<open>Dropping the \<open>File\<close> made from a descriptor closes it; the error is read before.\<close>

definition close_with_error :: "('w, 'a) platform_scheme \<Rightarrow> int \<Rightarrow> ('w, 'b) io" where
  "close_with_error P fd =
     (\<lambda>s. let e = last_os_error P (world s)
          in bindM (callM (Sys_Close fd) (sys_close P fd)) (\<lambda>_. throwM (Err e)) s)"

definition connect_vsock :: "('w, 'a) platform_scheme \<Rightarrow> u32 \<Rightarrow> u32 \<Rightarrow> ('w, stream) io" where
  "connect_vsock P cid port =
     bindM (callM (Sys_Socket af_vsock sock_stream 0) (sys_socket P af_vsock sock_stream 0)) (\<lambda>fd.
     if fd < 0 then os_error P else
     (let addr = sockaddr cid port in
     bindM (callM (Sys_Connect fd addr sock_addr_size) (sys_connect P fd addr sock_addr_size)) (\<lambda>rc.
     if rc < 0 then close_with_error P fd else
     returnM (Fd_Stream fd))))"

text \<open>\<open>VsockListener\<close> and \<open>Listener\<close>.\<close>

datatype vsock_listener = Unsupported | Linux int

datatype listener = Tcp_Listener int | Vsock_Listener vsock_listener

definition listen_vsock :: "('w, 'a) platform_scheme \<Rightarrow> u32 \<Rightarrow> u32 \<Rightarrow> ('w, listener) io" where
  "listen_vsock P cid port =
     bindM (callM (Sys_Socket af_vsock sock_stream 0) (sys_socket P af_vsock sock_stream 0)) (\<lambda>fd.
     if fd < 0 then os_error P else
     (let bind_cid = (if cid = 0 then vmaddr_cid_any else cid);
          addr = sockaddr bind_cid port in
     bindM (callM (Sys_Bind fd addr sock_addr_size) (sys_bind P fd addr sock_addr_size)) (\<lambda>rc.
     if rc < 0 then close_with_error P fd else
     bindM (callM (Sys_Listen fd 128) (sys_listen P fd 128)) (\<lambda>rc.
     if rc < 0 then close_with_error P fd else
     returnM (Vsock_Listener (Linux fd))))))"

record accepted_connection =
  accepted_stream :: stream
  peer_cid :: "u32 option"

definition accept_vsock :: "('w, 'a) platform_scheme \<Rightarrow> int \<Rightarrow> ('w, accepted_connection) io" where
  "accept_vsock P fd =
     (let addr = sockaddr 0 0 in
     bindM (callM (Sys_Accept fd) (sys_accept P fd addr sock_addr_size)) (\<lambda>(client, addr).
     if client < 0 then os_error P else
     returnM \<lparr>accepted_stream = Fd_Stream client, peer_cid = Some (svm_cid addr)\<rparr>))"

section \<open>Dispatch on the target\<close>

definition vsock_not_linux :: app_error where
  "vsock_not_linux = Err ''vsock is only supported on Linux targets''"

text \<open>
  The crate-level functions of the same names, which exist twice: under
  \<open>cfg(target_os = "linux")\<close> they call the module, otherwise they fail.
\<close>

definition connect_vsock_target :: "('w, 'a) platform_scheme \<Rightarrow> u32 \<Rightarrow> u32 \<Rightarrow> ('w, stream) io" where
  "connect_vsock_target P cid port =
     (if linux P then connect_vsock P cid port else throwM vsock_not_linux)"

definition listen_vsock_target :: "('w, 'a) platform_scheme \<Rightarrow> u32 \<Rightarrow> u32 \<Rightarrow> ('w, listener) io" where
  "listen_vsock_target P cid port =
     (if linux P then listen_vsock P cid port else throwM vsock_not_linux)"

section \<open>Dispatch on the endpoint\<close>

definition connect_endpoint :: "('w, 'a) platform_scheme \<Rightarrow> endpoint \<Rightarrow> ('w, stream) io" where
  "connect_endpoint P ep =
     (case ep of
        Tcp addr \<Rightarrow>
          bindM (callM (Tcp_Connect addr) (tcp_connect P addr)) (\<lambda>r.
          bindM (liftM (lib_result r)) (\<lambda>h. returnM (Tcp_Stream h)))
      | Vsock cid port \<Rightarrow> connect_vsock_target P cid port)"

definition listen_endpoint :: "('w, 'a) platform_scheme \<Rightarrow> endpoint \<Rightarrow> ('w, listener) io" where
  "listen_endpoint P ep =
     (case ep of
        Tcp addr \<Rightarrow>
          bindM (callM (Tcp_Bind addr) (tcp_bind P addr)) (\<lambda>r.
          bindM (liftM (lib_result r)) (\<lambda>h. returnM (Tcp_Listener h)))
      | Vsock cid port \<Rightarrow> listen_vsock_target P cid port)"

definition vsock_listener_accept ::
    "('w, 'a) platform_scheme \<Rightarrow> vsock_listener \<Rightarrow> ('w, accepted_connection) io" where
  "vsock_listener_accept P l =
     (case l of Unsupported \<Rightarrow> throwM vsock_not_linux | Linux fd \<Rightarrow> accept_vsock P fd)"

definition listener_accept ::
    "('w, 'a) platform_scheme \<Rightarrow> listener \<Rightarrow> ('w, accepted_connection) io" where
  "listener_accept P l =
     (case l of
        Tcp_Listener h \<Rightarrow>
          bindM (callM (Tcp_Accept h) (tcp_accept P h)) (\<lambda>r.
          bindM (liftM (lib_result r)) (\<lambda>c.
          returnM \<lparr>accepted_stream = Tcp_Stream c, peer_cid = None\<rparr>))
      | Vsock_Listener v \<Rightarrow> vsock_listener_accept P v)"

lemmas connect_endpoint_defs = connect_endpoint_def connect_vsock_target_def connect_vsock_def

section \<open>Lemmas\<close>

text \<open>The events of connecting to an endpoint.\<close>

fun connecting :: "event \<Rightarrow> bool" where
  "connecting (Tcp_Connect _) = True"
| "connecting (Sys_Socket _ _ _) = True"
| "connecting (Sys_Connect _ _ _) = True"
| "connecting (Sys_Close _) = True"
| "connecting _ = False"

lemma confined_os_error [confined_intros]: "confined A (os_error P)"
  by (simp add: confined_def emits_def os_error_def)

lemma confined_close_with_error [confined_intros]:
  "A (Sys_Close fd) \<Longrightarrow> confined A (close_with_error P fd)"
  by (auto simp: confined_def emits_def close_with_error_def io_simps)

lemma confined_connect_endpoint:
  assumes "\<And>ev. connecting ev \<Longrightarrow> A ev"
  shows "confined A (connect_endpoint P ep)"
  unfolding connect_endpoint_defs Let_def
  by (cases ep) (auto intro!: confined_intros assms)

lemma panic_free_connect_endpoint [panic_free_intros]: "panic_free (connect_endpoint P ep)"
  by (cases ep)
    (auto simp: panic_free_def connect_endpoint_defs io_simps close_with_error_def
      os_error_def vsock_not_linux_def Let_def split: sum.splits)

text \<open>
  What the kernel guarantees about descriptors: a successful \<open>socket\<close> opens a new one,
  \<open>close\<close> closes its argument, the other calls open and close none.
\<close>

definition fds_ok :: "('w, 'a) platform_scheme \<Rightarrow> ('w \<Rightarrow> int set) \<Rightarrow> bool" where
  "fds_ok P fds \<longleftrightarrow>
     (\<forall>d ty pr w. fst (sys_socket P d ty pr w) < 0 \<longrightarrow> fds (snd (sys_socket P d ty pr w)) = fds w)
     \<and> (\<forall>d ty pr w. \<not> fst (sys_socket P d ty pr w) < 0 \<longrightarrow>
          fst (sys_socket P d ty pr w) \<notin> fds w
          \<and> fds (snd (sys_socket P d ty pr w)) = insert (fst (sys_socket P d ty pr w)) (fds w))
     \<and> (\<forall>w fd. fds (snd (sys_close P fd w)) = fds w - {fd})
     \<and> (\<forall>w fd a n. fds (snd (sys_connect P fd a n w)) = fds w)
     \<and> (\<forall>w fd a n. fds (snd (sys_bind P fd a n w)) = fds w)
     \<and> (\<forall>w fd b. fds (snd (sys_listen P fd b w)) = fds w)"

lemma fds_okD:
  assumes "fds_ok P fds"
  shows fds_socket_fail: "fst (sys_socket P d ty pr w) < 0 \<Longrightarrow> fds (snd (sys_socket P d ty pr w)) = fds w"
    and fds_socket: "\<not> fst (sys_socket P d ty pr w) < 0 \<Longrightarrow>
      fst (sys_socket P d ty pr w) \<notin> fds w
      \<and> fds (snd (sys_socket P d ty pr w)) = insert (fst (sys_socket P d ty pr w)) (fds w)"
    and fds_close: "fds (snd (sys_close P fd w)) = fds w - {fd}"
    and fds_connect: "fds (snd (sys_connect P fd a n w)) = fds w"
    and fds_bind: "fds (snd (sys_bind P fd a n w)) = fds w"
    and fds_listen: "fds (snd (sys_listen P fd b w)) = fds w"
  using assms by (simp_all add: fds_ok_def)

lemma show_u32_no_colon: "CHR '':'' \<notin> set (show_u32 w)"
  unfolding show_u32_def by (rule show_nat_no_char) (simp add: digit_value_def)

lemma close_with_error_run:
  "close_with_error P fd s = (Inl (Err (last_os_error P (world s))),
     \<lparr>world = snd (sys_close P fd (world s)), trace = trace s @ [Sys_Close fd]\<rparr>)"
  by (simp add: close_with_error_def io_simps Let_def)

section \<open>Properties\<close>

text \<open>
  Property C33. Writing an endpoint down and parsing it gives it back, for every vsock endpoint (all
  context identifiers and ports) and every TCP endpoint but the one with an empty address, which is
  refused.
\<close>

theorem endpoint_roundtrip:
  "endpoint_parse (endpoint_text ep) = (if ep = Tcp [] then Inl tcp_shape else Inr ep)"
proof (cases ep)
  case (Vsock cid port)
  have "split_once '':'' (show_u32 cid @ CHR '':'' # show_u32 port) = Some (show_u32 cid, show_u32 port)"
    by (rule split_once_char [OF show_u32_no_colon])
  then show ?thesis
    by (simp add: Vsock endpoint_parse_def endpoint_text_def parse_show_u32)
qed (simp add: endpoint_parse_def endpoint_text_def)

text \<open>
  Property C32. No descriptor leaks: whatever the system calls answer, after \<open>connect_vsock\<close> or
  \<open>listen_vsock\<close> the process has exactly the descriptors it had before, plus the returned one on
  success; every error path closes the socket it opened.
\<close>

theorem vsock_no_leak:
  assumes "fds_ok P fds"
  shows "fds (world (snd (connect_vsock P cid port s))) =
      (case fst (connect_vsock P cid port s) of
         Inl _ \<Rightarrow> fds (world s)
       | Inr st \<Rightarrow> (case st of Tcp_Stream _ \<Rightarrow> {} | Fd_Stream fd \<Rightarrow> insert fd (fds (world s))))
    \<and> fds (world (snd (listen_vsock P cid port s))) =
      (case fst (listen_vsock P cid port s) of
         Inl _ \<Rightarrow> fds (world s)
       | Inr l \<Rightarrow> (case l of Vsock_Listener (Linux fd) \<Rightarrow> insert fd (fds (world s)) | _ \<Rightarrow> {}))"
  using fds_socket_fail [OF assms, of af_vsock sock_stream 0 "world s"]
    fds_socket [OF assms, of af_vsock sock_stream 0 "world s"]
  by (auto simp: connect_vsock_def listen_vsock_def io_simps os_error_def close_with_error_run Let_def
      fds_okD(3-) [OF assms])
end
