(* ===== verification/Frames.thy ===== *)
theory Frames
  imports Settings_Env Platform
begin

text \<open>
  The framing of the broker protocol, from \<open>src/src/lib.rs\<close>: a JSON payload behind a
  four-byte big-endian length, at most one mebibyte. The serialiser and the deserialiser are
  arguments (\<open>serde_json\<close> at the type of the frame).
\<close>

section \<open>Length headers\<close>

text \<open>
  What the framing needs of the header, as an interface: a fixed width, and a reader that inverts
  the writer.
\<close>

locale length_header =
  fixes put_len :: "u32 \<Rightarrow> bytes"
    and get_len :: "bytes \<Rightarrow> u32"
    and width :: nat
  assumes put_width: "length (put_len n) = width"
    and get_put: "get_len (put_len n) = n"
begin

lemma take_header: "take width (put_len n @ bs) = put_len n"
  by (simp add: put_width)

lemma drop_header: "drop width (put_len n @ bs) = bs"
  by (simp add: put_width)

lemma header_then_payload: "get_len (take width (put_len n @ bs)) = n"
  by (simp only: take_header get_put)

lemma put_len_inj: "put_len m = put_len n \<Longrightarrow> m = n"
  by (metis get_put)

end

interpretation be_header: length_header to_be_bytes from_be_bytes 4
  by unfold_locales simp_all

section \<open>Writing\<close>

definition frame_too_large :: "nat \<Rightarrow> app_error" where
  "frame_too_large n =
     Err (''JSON frame is '' @ show_nat n @ '' bytes; maximum is '' @ show_nat max_json_frame_length)"

definition u32_try_from :: "nat \<Rightarrow> u32 app_result" where
  "u32_try_from n =
     (if n < 2 ^ 32 then Inr (word_of_nat n)
      else Inl (Err ''out of range integral type conversion attempted''))"

text \<open>
  \<open>write_json_frame\<close>: the bytes handed to the writer, or the error that stops it before the
  first byte.
\<close>

definition write_json_frame :: "('t \<Rightarrow> string + bytes) \<Rightarrow> 't \<Rightarrow> bytes app_result" where
  "write_json_frame to_vec v =
     bind_result (lib_result (to_vec v)) (\<lambda>payload.
     if length payload > max_json_frame_length then Inl (frame_too_large (length payload)) else
     bind_result (u32_try_from (length payload)) (\<lambda>len.
     Inr (to_be_bytes len @ payload)))"

section \<open>Reading\<close>

text \<open>
  A reader is the bytes that will still arrive and the error text of a read beyond them.
  \<open>read_exact\<close> takes exactly the bytes asked for.
\<close>

type_synonym reader = "bytes \<times> string"

definition read_exact :: "nat \<Rightarrow> reader \<Rightarrow> (bytes \<times> reader) app_result" where
  "read_exact n r =
     (if length (fst r) < n then Inl (Err (snd r))
      else Inr (take n (fst r), (drop n (fst r), snd r)))"

definition read_json_frame :: "(bytes \<Rightarrow> string + 't) \<Rightarrow> reader \<Rightarrow> ('t \<times> reader) app_result" where
  "read_json_frame from_slice r =
     bind_result (read_exact 4 r) (\<lambda>(header, r).
     (let len = unat (from_be_bytes header) in
     if len > max_json_frame_length then Inl (frame_too_large len) else
     bind_result (read_exact len r) (\<lambda>(payload, r).
     bind_result (lib_result (from_slice payload)) (\<lambda>v.
     Inr (v, r)))))"

text \<open>Frames read one after the other from one stream.\<close>

fun read_frames :: "(bytes \<Rightarrow> string + 't) \<Rightarrow> nat \<Rightarrow> reader \<Rightarrow> ('t list \<times> reader) app_result" where
  "read_frames from_slice 0 r = Inr ([], r)"
| "read_frames from_slice (Suc n) r =
     bind_result (read_json_frame from_slice r) (\<lambda>(v, r).
     bind_result (read_frames from_slice n r) (\<lambda>(vs, r). Inr (v # vs, r)))"

section \<open>Lemmas\<close>

lemma max_json_frame_length_u32: "max_json_frame_length < 2 ^ 32"
  by (simp add: max_json_frame_length_def)

lemma unat_word_of_frame_length:
  "n \<le> max_json_frame_length \<Longrightarrow> unat (word_of_nat n :: u32) = n"
  using max_json_frame_length_u32 by (simp add: unat_of_nat)

text \<open>The conversion of the length never fails after the size check.\<close>

lemma write_json_frame_Inr:
  "write_json_frame to_vec v = Inr bs \<longleftrightarrow>
     (\<exists>payload. to_vec v = Inr payload \<and> length payload \<le> max_json_frame_length
        \<and> bs = to_be_bytes (word_of_nat (length payload)) @ payload)"
  using max_json_frame_length_u32
  by (auto simp: write_json_frame_def u32_try_from_def not_less split: if_splits)

lemma read_exact_append [simp]:
  "length a = n \<Longrightarrow> read_exact n (a @ b, fin) = Inr (a, (b, fin))"
  by (simp add: read_exact_def)

lemma read_json_frame_payload:
  assumes "length payload \<le> max_json_frame_length"
  shows "read_json_frame from_slice (to_be_bytes (word_of_nat (length payload)) @ payload @ rest, fin) =
    bind_result (lib_result (from_slice payload)) (\<lambda>v. Inr (v, (rest, fin)))"
  using assms
  by (simp add: read_json_frame_def unat_word_of_frame_length be_header.get_put be_header.put_width
      not_less)

lemma read_written_frame:
  assumes "write_json_frame to_vec v = Inr bs"
    and "\<And>b. to_vec v = Inr b \<Longrightarrow> from_slice b = Inr v"
  shows "read_json_frame from_slice (bs @ rest, fin) = Inr (v, (rest, fin))"
proof -
  from assms(1) obtain payload where payload: "to_vec v = Inr payload"
    "length payload \<le> max_json_frame_length"
    "bs = to_be_bytes (word_of_nat (length payload)) @ payload"
    by (auto simp: write_json_frame_Inr)
  with assms(2) show ?thesis
    using read_json_frame_payload [of payload from_slice rest fin] by simp
qed

lemma write_json_frame_no_panic [simp]: "\<not> panics (write_json_frame to_vec v)"
  by (simp add: write_json_frame_def u32_try_from_def frame_too_large_def)

lemma read_json_frame_no_panic [simp]: "\<not> panics (read_json_frame from_slice r)"
  by (auto simp: read_json_frame_def read_exact_def frame_too_large_def Let_def split: if_splits)

lemma frames_never_panic [simp]:
  "write_json_frame to_vec v \<noteq> Inl (Panic msg)"
  "read_json_frame from_slice r \<noteq> Inl (Panic msg)"
  using write_json_frame_no_panic [of to_vec v] read_json_frame_no_panic [of from_slice r]
  by (auto simp del: write_json_frame_no_panic read_json_frame_no_panic)

section \<open>Properties\<close>

text \<open>
  Property C25. Frames written one after the other to a stream are read back as the same values in
  the same order, with nothing consumed beyond the last one, whenever the deserialiser inverts the
  serialiser.
\<close>

theorem frames_roundtrip:
  assumes "\<And>v b. to_vec v = Inr b \<Longrightarrow> from_slice b = Inr v"
    and "list_all2 (\<lambda>v bs. write_json_frame to_vec v = Inr bs) vs bss"
  shows "read_frames from_slice (length vs) (concat bss @ rest, fin) = Inr (vs, (rest, fin))"
  using assms(2)
proof (induction vs bss rule: list_all2_induct)
  case (Cons v vs bs bss)
  with read_written_frame [OF Cons(1) assms(1), where rest = "concat bss @ rest" and fin = fin]
  show ?case by simp
qed simp

text \<open>
  Property C26. The length limit, on both sides. A frame is written exactly when serialisation
  succeeds with at most one mebibyte; the conversion of the length to \<open>u32\<close> never fails. A
  stream whose header announces more than one mebibyte is refused with the size error whatever
  follows and whatever the deserialiser does, so before any payload is read; otherwise exactly the
  announced payload is read.
\<close>

theorem frame_size_limit:
  "write_json_frame to_vec v =
     (case to_vec v of
        Inl e \<Rightarrow> Inl (Err e)
      | Inr payload \<Rightarrow>
          if 1048576 < length payload then Inl (frame_too_large (length payload))
          else Inr (to_be_bytes (word_of_nat (length payload)) @ payload))
   \<and> read_json_frame from_slice (to_be_bytes n @ body, fin) =
     (if 1048576 < unat n then Inl (frame_too_large (unat n))
      else if length body < unat n then Inl (Err fin)
      else (case from_slice (take (unat n) body) of
              Inl e \<Rightarrow> Inl (Err e)
            | Inr x \<Rightarrow> Inr (x, (drop (unat n) body, fin))))"
proof
  show "write_json_frame to_vec v =
     (case to_vec v of
        Inl e \<Rightarrow> Inl (Err e)
      | Inr payload \<Rightarrow>
          if 1048576 < length payload then Inl (frame_too_large (length payload))
          else Inr (to_be_bytes (word_of_nat (length payload)) @ payload))"
    by (auto simp: write_json_frame_def u32_try_from_def max_json_frame_length_def
        split: sum.splits)
next
  show "read_json_frame from_slice (to_be_bytes n @ body, fin) =
     (if 1048576 < unat n then Inl (frame_too_large (unat n))
      else if length body < unat n then Inl (Err fin)
      else (case from_slice (take (unat n) body) of
              Inl e \<Rightarrow> Inl (Err e)
            | Inr x \<Rightarrow> Inr (x, (drop (unat n) body, fin))))"
    by (cases "from_slice (take (unat n) body)")
      (simp_all add: read_json_frame_def read_exact_def be_header.get_put be_header.put_width
        max_json_frame_length_def)
qed

end
