(* ===== verification/S3_Objects.thy ===== *)
theory S3_Objects
  imports Platform
begin

text \<open>
  The two S3 operations of \<open>src/src/key_material.rs\<close>, \<open>load_s3_object\<close> and
  \<open>save_s3_object_if_absent\<close>, with their retry loops, and the contract of a write-once
  object store that they provide when S3 keeps its documented behaviour.
\<close>

section \<open>Operations\<close>

definition s3_operation_max_attempts :: nat where
  "s3_operation_max_attempts = 4"

definition s3_url :: "string \<Rightarrow> string \<Rightarrow> string" where
  "s3_url bucket key = ''s3://'' @ bucket @ ''/'' @ key"

definition attempt_text :: "nat \<Rightarrow> string" where
  "attempt_text a =
     '' (attempt '' @ show_nat a @ ''/'' @ show_nat s3_operation_max_attempts @ '')''"

definition retry_warning :: "string \<Rightarrow> nat \<Rightarrow> string \<Rightarrow> string" where
  "retry_warning operation a e =
     ''WARNING: S3 '' @ operation @ '' connection failed on attempt '' @ show_nat a @ '': '' @ e
     @ ''; retrying''"

definition sleep_before_s3_retry :: "nat \<Rightarrow> ('w, unit) io" where
  "sleep_before_s3_retry a = emitM (Sleep (250 * a))"

text \<open>The iterations of the \<open>for attempt in 1..=4\<close> loop over the attempts that remain.\<close>

fun load_attempts ::
    "('w, 'z) platform_scheme \<Rightarrow> string \<Rightarrow> string \<Rightarrow> nat list \<Rightarrow> ('w, bytes option) io" where
  "load_attempts P bucket key [] =
     throwM (Panic ''S3 GetObject retry loop always returns'')"
| "load_attempts P bucket key (a # as) =
     bindM (emitM (Stdout (''s3: get_object '' @ s3_url bucket key @ attempt_text a))) (\<lambda>_.
     bindM (callM (S3_Get bucket key) (s3_get P bucket key)) (\<lambda>outcome.
     case outcome of
       Inr body \<Rightarrow> bindM (liftM (lib_result body)) (\<lambda>bs. returnM (Some bs))
     | Inl (Service_Error e) \<Rightarrow>
         if no_such_key e then returnM None else throwM (Err (get_error_text e))
     | Inl (Dispatch_Failure d e) \<Rightarrow>
         if a < s3_operation_max_attempts
         then bindM (emitM (Stderr (retry_warning ''GetObject'' a d))) (\<lambda>_.
              bindM (sleep_before_s3_retry a) (\<lambda>_. load_attempts P bucket key as))
         else throwM (Err e)
     | Inl (Other_Error e) \<Rightarrow> throwM (Err e)))"

definition load_s3_object ::
    "('w, 'z) platform_scheme \<Rightarrow> string \<Rightarrow> string \<Rightarrow> ('w, bytes option) io" where
  "load_s3_object P bucket key =
     load_attempts P bucket key [1..<Suc s3_operation_max_attempts]"

definition put_refused :: "string \<Rightarrow> string \<Rightarrow> app_error" where
  "put_refused bucket key =
     Err (''conditional S3 write refused because '' @ s3_url bucket key
          @ '' already exists with different content (HTTP 412)'')"

definition put_failed :: "string \<Rightarrow> string \<Rightarrow> string \<Rightarrow> app_error" where
  "put_failed bucket key e =
     Err (''conditional S3 write failed for '' @ s3_url bucket key @ '': '' @ e)"

definition put_service_text :: "put_service_error \<Rightarrow> string" where
  "put_service_text e =
     ''HTTP '' @ show_nat (http_status e)
     @ '', code='' @ (case error_code e of Some c \<Rightarrow> c | None \<Rightarrow> ''unknown'')
     @ '', message='' @ (case error_message e of Some m \<Rightarrow> m | None \<Rightarrow> ''unknown'')"

definition idempotent_note :: string where
  "idempotent_note =
     ''s3: conditional write reported 412, but the existing content matches exactly; treating it as an idempotent success''"

text \<open>The request: \<open>If-None-Match: *\<close> makes the write conditional.\<close>

definition put_object_if_absent :: "string \<Rightarrow> string \<Rightarrow> bytes \<Rightarrow> put_object_request" where
  "put_object_if_absent bucket key body =
     \<lparr>put_bucket = bucket, put_key = key, if_none_match = Some ''*'',
      content_type = Some ''application/json'', put_body = body\<rparr>"

lemma put_object_if_absent_simps [simp]:
  "put_bucket (put_object_if_absent b k body) = b" "put_key (put_object_if_absent b k body) = k"
  "if_none_match (put_object_if_absent b k body) = Some ''*''"
  "put_body (put_object_if_absent b k body) = body"
  by (simp_all add: put_object_if_absent_def)

fun save_attempts ::
    "('w, 'z) platform_scheme \<Rightarrow> string \<Rightarrow> string \<Rightarrow> bytes \<Rightarrow> nat list \<Rightarrow> ('w, unit) io" where
  "save_attempts P bucket key body [] =
     throwM (Panic ''S3 PutObject retry loop always returns'')"
| "save_attempts P bucket key body (a # as) =
     bindM (emitM (Stdout (''s3: put_object if-absent '' @ s3_url bucket key @ attempt_text a))) (\<lambda>_.
     bindM (callM (S3_Put (put_object_if_absent bucket key body))
              (s3_put P (put_object_if_absent bucket key body))) (\<lambda>outcome.
     case outcome of
       Inr _ \<Rightarrow> returnM ()
     | Inl (Service_Error e) \<Rightarrow>
         if http_status e = 412
         then bindM (load_s3_object P bucket key) (\<lambda>existing.
              if existing = Some body then emitM (Stdout idempotent_note)
              else throwM (put_refused bucket key))
         else throwM (put_failed bucket key (put_service_text e))
     | Inl (Dispatch_Failure d e) \<Rightarrow>
         if a < s3_operation_max_attempts
         then bindM (emitM (Stderr (retry_warning ''PutObject'' a d))) (\<lambda>_.
              bindM (sleep_before_s3_retry a) (\<lambda>_. save_attempts P bucket key body as))
         else throwM (put_failed bucket key e)
     | Inl (Other_Error e) \<Rightarrow> throwM (put_failed bucket key e)))"

definition save_s3_object_if_absent ::
    "('w, 'z) platform_scheme \<Rightarrow> string \<Rightarrow> string \<Rightarrow> bytes \<Rightarrow> ('w, unit) io" where
  "save_s3_object_if_absent P bucket key body =
     save_attempts P bucket key body [1..<Suc s3_operation_max_attempts]"

section \<open>The contract of a write-once store\<close>

text \<open>
  The interface the key material is written against: objects only ever appear (\<open>\<subseteq>\<^sub>m\<close> allows
  other writers to add some), a load tells the truth about the object it names, and a save that
  returns has put exactly its body there. \<open>ok\<close> is the condition under which the provider
  keeps these laws.
\<close>

locale object_store =
  fixes load :: "string \<Rightarrow> string \<Rightarrow> ('w, bytes option) io"
    and save :: "string \<Rightarrow> string \<Rightarrow> bytes \<Rightarrow> ('w, unit) io"
    and objects :: "'w \<Rightarrow> string \<times> string \<rightharpoonup> bytes"
    and ok :: bool
  assumes load_grows: "ok \<Longrightarrow> load b k s = (r, t) \<Longrightarrow> objects (world s) \<subseteq>\<^sub>m objects (world t)"
    and load_found: "ok \<Longrightarrow> load b k s = (Inr (Some body), t) \<Longrightarrow> objects (world t) (b, k) = Some body"
    and load_absent: "ok \<Longrightarrow> load b k s = (Inr None, t) \<Longrightarrow> objects (world s) (b, k) = None"
    and save_grows: "ok \<Longrightarrow> save b k body s = (r', t) \<Longrightarrow> objects (world s) \<subseteq>\<^sub>m objects (world t)"
    and save_stored: "ok \<Longrightarrow> save b k body s = (Inr (), t) \<Longrightarrow> objects (world t) (b, k) = Some body"
begin

lemma load_of_known:
  assumes ok and "objects (world s) (b, k) = Some x" and "load b k s = (Inr y, t)"
  shows "y = Some x"
proof (cases y)
  case None
  with assms load_absent show ?thesis by fastforce
next
  case (Some z)
  with assms load_found have "objects (world t) (b, k) = Some z" by blast
  moreover from assms load_grows have "objects (world t) (b, k) = Some x"
    by (auto simp: map_le_def dom_def)
  ultimately show ?thesis using Some by simp
qed

lemma read_back:
  assumes ok and "save b k x s = (Inr (), t)"
    and "objects (world t) \<subseteq>\<^sub>m objects (world u)" and "load b k u = (Inr y, v)"
  shows "y = Some x"
proof -
  have "objects (world u) (b, k) = Some x"
    using save_stored [OF assms(1,2)] assms(3) by (auto simp: map_le_def dom_def)
  then show ?thesis by (rule load_of_known [OF assms(1) _ assms(4)])
qed

lemma first_writer_wins:
  assumes ok and "objects (world s) (b, k) = Some x" and "save b k y s = (Inr (), t)"
  shows "y = x"
proof -
  from assms save_grows have "objects (world t) (b, k) = Some x"
    by (auto simp: map_le_def dom_def)
  with save_stored [OF assms(1,3)] show ?thesis by simp
qed

end

text \<open>
  The documented behaviour of S3: reads change nothing and see what has been written. A write that
  succeeds has stored its body; what it does to the object it names depends on its condition: with
  \<open>If-None-Match: *\<close> it succeeds only by creating the object, never replaces one, and status 412
  means that the object exists. Without that condition nothing is said about the old content, so a
  write may replace it. Other objects are not affected. Other clients may add objects at any time.
\<close>

definition s3_documented ::
    "('w, 'z) platform_scheme \<Rightarrow> ('w \<Rightarrow> string \<times> string \<rightharpoonup> bytes) \<Rightarrow> bool" where
  "s3_documented P objects \<longleftrightarrow>
     (\<forall>b k w r w'. s3_get P b k w = (r, w') \<longrightarrow>
        objects w \<subseteq>\<^sub>m objects w'
        \<and> (\<forall>body. r = Inr (Inr body) \<longrightarrow> objects w' (b, k) = Some body)
        \<and> (\<forall>e. r = Inl (Service_Error e) \<and> no_such_key e \<longrightarrow> objects w (b, k) = None))
     \<and> (\<forall>rq w r w'. s3_put P rq w = (r, w') \<longrightarrow>
        (objects w)((put_bucket rq, put_key rq) := None) \<subseteq>\<^sub>m objects w'
        \<and> (r = Inr () \<longrightarrow> objects w' (put_bucket rq, put_key rq) = Some (put_body rq))
        \<and> (if_none_match rq = Some ''*'' \<longrightarrow>
             objects w \<subseteq>\<^sub>m objects w'
             \<and> (r = Inr () \<longrightarrow> objects w (put_bucket rq, put_key rq) = None)
             \<and> (\<forall>e. r = Inl (Service_Error e) \<and> http_status e = 412 \<longrightarrow>
                   objects w' (put_bucket rq, put_key rq) \<noteq> None)))"

text \<open>What this gives for the request of the code.\<close>

lemma s3_conditional_put:
  assumes "s3_documented P objects" and "s3_put P (put_object_if_absent b k body) w = (r, w')"
  shows "objects w \<subseteq>\<^sub>m objects w'" and "r = Inr () \<Longrightarrow> objects w' (b, k) = Some body"
    and "r = Inr () \<Longrightarrow> objects w (b, k) = None"
proof -
  from assms(1) have put: "\<And>rq w r w'. s3_put P rq w = (r, w') \<Longrightarrow>
      (r = Inr () \<longrightarrow> objects w' (put_bucket rq, put_key rq) = Some (put_body rq))
      \<and> (if_none_match rq = Some ''*'' \<longrightarrow> objects w \<subseteq>\<^sub>m objects w'
          \<and> (r = Inr () \<longrightarrow> objects w (put_bucket rq, put_key rq) = None))"
    unfolding s3_documented_def by blast
  from put [OF assms(2)] show "objects w \<subseteq>\<^sub>m objects w'"
    "r = Inr () \<Longrightarrow> objects w' (b, k) = Some body" "r = Inr () \<Longrightarrow> objects w (b, k) = None"
    by simp_all
qed

lemma map_le_Some: "m \<subseteq>\<^sub>m n \<Longrightarrow> m x = Some y \<Longrightarrow> n x = Some y"
  by (metis domI map_le_def)

lemma map_le_None: "m \<subseteq>\<^sub>m n \<Longrightarrow> n x = None \<Longrightarrow> m x = None"
  by (metis map_le_Some not_None_eq)

lemma load_attempts_contract:
  assumes "s3_documented P objects"
  shows "load_attempts P b k as s = (r, t) \<Longrightarrow>
    objects (world s) \<subseteq>\<^sub>m objects (world t)
    \<and> (\<forall>body. r = Inr (Some body) \<longrightarrow> objects (world t) (b, k) = Some body)
    \<and> (r = Inr None \<longrightarrow> objects (world s) (b, k) = None)"
proof (induction as arbitrary: s)
  case (Cons a as)
  obtain out w where get: "s3_get P b k (world s) = (out, w)" by force
  with assms have grows: "objects (world s) \<subseteq>\<^sub>m objects w"
    and found: "\<And>body. out = Inr (Inr body) \<Longrightarrow> objects w (b, k) = Some body"
    and absent: "\<And>e. out = Inl (Service_Error e) \<Longrightarrow> no_such_key e \<Longrightarrow> objects (world s) (b, k) = None"
    by (auto simp: s3_documented_def)
  show ?case
  proof (cases "\<exists>d e. out = Inl (Dispatch_Failure d e) \<and> a < s3_operation_max_attempts")
    case True
    then obtain tr where "load_attempts P b k as \<lparr>world = w, trace = tr\<rparr> = (r, t)"
      using Cons.prems get by (auto simp: io_simps sleep_before_s3_retry_def)
    from Cons.IH [OF this] grows show ?thesis
      by (auto dest: map_le_None intro: map_le_trans)
  next
    case False
    with Cons.prems get grows found absent show ?thesis
      by (auto simp: io_simps split: sum.splits sdk_error.splits if_splits)
  qed
qed simp

lemma save_attempts_contract:
  assumes "s3_documented P objects"
  shows "save_attempts P b k body as s = (r, t) \<Longrightarrow>
    objects (world s) \<subseteq>\<^sub>m objects (world t)
    \<and> (r = Inr () \<longrightarrow> objects (world t) (b, k) = Some body)"
proof (induction as arbitrary: s)
  case (Cons a as)
  obtain out w where put: "s3_put P (put_object_if_absent b k body) (world s) = (out, w)" by force
  note grows = s3_conditional_put(1) [OF assms put] and stored = s3_conditional_put(2) [OF assms put]
  consider (retry) d e where "out = Inl (Dispatch_Failure d e)" "a < s3_operation_max_attempts"
    | (conflict) e where "out = Inl (Service_Error e)" "http_status e = 412"
    | (final) "\<And>d e. out = Inl (Dispatch_Failure d e) \<Longrightarrow> \<not> a < s3_operation_max_attempts"
        "\<And>e. out = Inl (Service_Error e) \<Longrightarrow> http_status e \<noteq> 412"
    by blast
  then show ?case
  proof cases
    case retry
    then obtain tr where "save_attempts P b k body as \<lparr>world = w, trace = tr\<rparr> = (r, t)"
      using Cons.prems put by (auto simp: io_simps sleep_before_s3_retry_def)
    from Cons.IH [OF this] grows show ?thesis
      by (auto intro: map_le_trans)
  next
    case conflict
    obtain r1 t1 where ld: "load_s3_object P b k \<lparr>world = w,
        trace = trace s @ [Stdout (''s3: put_object if-absent '' @ s3_url b k @ attempt_text a),
                           S3_Put (put_object_if_absent b k body)]\<rparr> = (r1, t1)" by force
    from load_attempts_contract [OF assms this [unfolded load_s3_object_def]] conflict Cons.prems put grows ld
    show ?thesis
      by (auto simp: io_simps split: sum.splits if_splits intro: map_le_trans)
  next
    case final
    with Cons.prems put grows stored show ?thesis
      by (auto simp: io_simps split: sum.splits sdk_error.splits if_splits)
  qed
qed simp

interpretation s3_store: object_store "load_s3_object P" "save_s3_object_if_absent P" objects
    "s3_documented P objects" for P :: "('w, 'z) platform_scheme" and objects
proof unfold_locales
  fix b k s r t
  assume doc: "s3_documented P objects" and run: "load_s3_object P b k s = (r, t)"
  show "objects (world s) \<subseteq>\<^sub>m objects (world t)"
    using load_attempts_contract [OF doc run [unfolded load_s3_object_def]] by blast
next
  fix b k s body t
  assume doc: "s3_documented P objects" and run: "load_s3_object P b k s = (Inr (Some body), t)"
  show "objects (world t) (b, k) = Some body"
    using load_attempts_contract [OF doc run [unfolded load_s3_object_def]] by blast
next
  fix b k s t
  assume doc: "s3_documented P objects" and run: "load_s3_object P b k s = (Inr None, t)"
  show "objects (world s) (b, k) = None"
    using load_attempts_contract [OF doc run [unfolded load_s3_object_def]] by blast
next
  fix b k body s r t
  assume doc: "s3_documented P objects" and run: "save_s3_object_if_absent P b k body s = (r, t)"
  show "objects (world s) \<subseteq>\<^sub>m objects (world t)"
    using save_attempts_contract [OF doc run [unfolded save_s3_object_if_absent_def]] by blast
next
  fix b k body s t
  assume doc: "s3_documented P objects" and run: "save_s3_object_if_absent P b k body s = (Inr (), t)"
  show "objects (world t) (b, k) = Some body"
    using save_attempts_contract [OF doc run [unfolded save_s3_object_if_absent_def]] by blast
qed

section \<open>Schedule of requests\<close>

fun silent :: "event \<Rightarrow> bool" where
  "silent (Stdout _) = True"
| "silent (Stderr _) = True"
| "silent _ = False"

definition quiet :: "event list \<Rightarrow> event list" where
  "quiet evs = filter (\<lambda>ev. \<not> silent ev) evs"

text \<open>
  One request, and before each further one a pause of 250 ms times the number of the attempt that
  failed.
\<close>

definition attempts_from :: "event \<Rightarrow> nat \<Rightarrow> nat \<Rightarrow> event list" where
  "attempts_from request a n =
     request # concat (map (\<lambda>i. [Sleep (250 * i), request]) [a..<a + n])"

lemma quiet_simps [simp]:
  "quiet [] = []"
  "quiet (Stdout x # evs) = quiet evs"
  "quiet (Stderr x # evs) = quiet evs"
  "quiet (S3_Get b k # evs) = S3_Get b k # quiet evs"
  "quiet (S3_Put rq # evs) = S3_Put rq # quiet evs"
  "quiet (Sleep n # evs) = Sleep n # quiet evs"
  "quiet (evs @ evs') = quiet evs @ quiet evs'"
  by (simp_all add: quiet_def)

lemma attempts_from_Suc:
  "attempts_from rq a (Suc n) = rq # Sleep (250 * a) # attempts_from rq (Suc a) n"
  by (simp add: attempts_from_def upt_conv_Cons)

lemma load_attempts_schedule:
  "1 \<le> a \<Longrightarrow> a \<le> 4 \<Longrightarrow> emits (load_attempts P b k [a..<5])
     (\<lambda>evs r. (\<exists>n. a + n \<le> 4 \<and> quiet evs = attempts_from (S3_Get b k) a n) \<and> \<not> panics r)"
proof (induction "4 - a" arbitrary: a)
  case 0
  then show ?case
    unfolding emits_def
    by (auto simp: io_simps upt_conv_Cons s3_operation_max_attempts_def attempts_from_def
        split: sum.splits sdk_error.splits if_splits)
next
  case (Suc m)
  then have IH: "emits (load_attempts P b k [Suc a..<5]) (\<lambda>evs r. (\<exists>n. Suc a + n \<le> 4 \<and>
      quiet evs = attempts_from (S3_Get b k) (Suc a) n) \<and> \<not> panics r)"
    by (intro Suc.hyps(1)) simp_all
  from Suc.hyps(2) have a4: "a < 4" by simp
  show ?case
    unfolding emits_def
  proof (intro allI impI)
    fix s r t
    assume run: "load_attempts P b k [a..<5] s = (r, t)"
    obtain out w where get: "s3_get P b k (world s) = (out, w)" by force
    show "\<exists>evs. trace t = trace s @ evs \<and> ((\<exists>n. a + n \<le> 4 \<and>
        quiet evs = attempts_from (S3_Get b k) a n) \<and> \<not> panics r)"
    proof (cases "\<exists>d e. out = Inl (Dispatch_Failure d e)")
      case True
      then obtain d e where e: "out = Inl (Dispatch_Failure d e)" by blast
      define pre where "pre = [Stdout (''s3: get_object '' @ s3_url b k @ attempt_text a), S3_Get b k,
        Stderr (retry_warning ''GetObject'' a d), Sleep (250 * a)]"
      from run get e a4 have "load_attempts P b k [Suc a..<5] \<lparr>world = w, trace = trace s @ pre\<rparr> = (r, t)"
        by (simp add: upt_conv_Cons io_simps sleep_before_s3_retry_def pre_def
            s3_operation_max_attempts_def)
      from emitsD [OF IH this] obtain evs n where
        evs: "trace t = trace s @ pre @ evs" "Suc a + n \<le> 4"
        "quiet evs = attempts_from (S3_Get b k) (Suc a) n" "\<not> panics r" by auto
      then have "a + Suc n \<le> 4"
        "quiet (pre @ evs) = attempts_from (S3_Get b k) a (Suc n)"
        by (simp_all add: pre_def attempts_from_Suc)
      with evs show ?thesis by blast
    next
      case False
      with run get a4 show ?thesis
        by (intro exI [of _ "[Stdout (''s3: get_object '' @ s3_url b k @ attempt_text a), S3_Get b k]"]
            conjI exI [of _ 0])
          (auto simp: upt_conv_Cons io_simps attempts_from_def split: sum.splits sdk_error.splits if_splits)
    qed
  qed
qed

lemma all_attempts: "[1..<Suc s3_operation_max_attempts] = [1..<5]"
  by (simp add: s3_operation_max_attempts_def)

lemma load_s3_object_schedule:
  "emits (load_s3_object P b k)
     (\<lambda>evs r. (\<exists>n \<le> 3. quiet evs = attempts_from (S3_Get b k) 1 n) \<and> \<not> panics r)"
  unfolding load_s3_object_def all_attempts
  by (rule emits_mono [OF load_attempts_schedule [of 1 P b k]]) auto

text \<open>After the writes, possibly the reads that compare an existing object.\<close>

definition save_schedule :: "string \<Rightarrow> string \<Rightarrow> bytes \<Rightarrow> nat \<Rightarrow> event list \<Rightarrow> bool" where
  "save_schedule b k body a evs \<longleftrightarrow>
     (\<exists>n gets. a + n \<le> 4 \<and> quiet evs = attempts_from (S3_Put (put_object_if_absent b k body)) a n @ gets
        \<and> (gets = [] \<or> (\<exists>m \<le> 3. gets = attempts_from (S3_Get b k) 1 m)))"

lemma save_schedule_retry:
  assumes "save_schedule b k body (Suc a) evs"
    and "quiet pre = [S3_Put (put_object_if_absent b k body), Sleep (250 * a)]"
  shows "save_schedule b k body a (pre @ evs)"
proof -
  from assms(1) obtain n gets where "Suc a + n \<le> 4"
    "quiet evs = attempts_from (S3_Put (put_object_if_absent b k body)) (Suc a) n @ gets"
    "gets = [] \<or> (\<exists>m \<le> 3. gets = attempts_from (S3_Get b k) 1 m)"
    unfolding save_schedule_def by blast
  with assms(2) show ?thesis
    unfolding save_schedule_def
    by (intro exI [of _ "Suc n"] exI [of _ gets]) (simp add: attempts_from_Suc)
qed

lemma save_schedule_first:
  assumes "quiet pre = [S3_Put (put_object_if_absent b k body)]" and "a \<le> 4"
  shows "save_schedule b k body a pre"
    and "quiet gets = attempts_from (S3_Get b k) 1 m \<Longrightarrow> m \<le> 3 \<Longrightarrow> save_schedule b k body a (pre @ gets)"
proof -
  from assms have "a + 0 \<le> 4" "quiet pre = attempts_from (S3_Put (put_object_if_absent b k body)) a 0"
    by (simp_all add: attempts_from_def)
  then show "save_schedule b k body a pre"
    "quiet gets = attempts_from (S3_Get b k) 1 m \<Longrightarrow> m \<le> 3 \<Longrightarrow> save_schedule b k body a (pre @ gets)"
    unfolding save_schedule_def by (metis append_Nil2 quiet_simps(7))+
qed

lemma save_attempts_schedule:
  "1 \<le> a \<Longrightarrow> a \<le> 4 \<Longrightarrow> emits (save_attempts P b k body [a..<5])
     (\<lambda>evs r. save_schedule b k body a evs \<and> \<not> panics r)"
proof (induction "5 - a" arbitrary: a)
  case (Suc m)
  then have a: "a \<le> 4" by simp
  define put where "put = [Stdout (''s3: put_object if-absent '' @ s3_url b k @ attempt_text a), S3_Put (put_object_if_absent b k body)]"
  show ?case
    unfolding emits_def
  proof (intro allI impI)
    fix s r t
    assume run: "save_attempts P b k body [a..<5] s = (r, t)"
    obtain out w where out: "s3_put P (put_object_if_absent b k body) (world s) = (out, w)" by force
    consider (retry) d e where "out = Inl (Dispatch_Failure d e)" "a < 4"
      | (conflict) e where "out = Inl (Service_Error e)" "http_status e = 412"
      | (final) "\<And>d e. out = Inl (Dispatch_Failure d e) \<Longrightarrow> \<not> a < 4"
          "\<And>e. out = Inl (Service_Error e) \<Longrightarrow> http_status e \<noteq> 412"
      by blast
    then show "\<exists>evs. trace t = trace s @ evs \<and> save_schedule b k body a evs \<and> \<not> panics r"
    proof cases
      case retry
      define pre where "pre = put @ [Stderr (retry_warning ''PutObject'' a d), Sleep (250 * a)]"
      from run out retry have
        next_run: "save_attempts P b k body [Suc a..<5] \<lparr>world = w, trace = trace s @ pre\<rparr> = (r, t)"
        by (simp add: upt_conv_Cons io_simps sleep_before_s3_retry_def pre_def put_def
            s3_operation_max_attempts_def)
      have "emits (save_attempts P b k body [Suc a..<5])
          (\<lambda>evs r. save_schedule b k body (Suc a) evs \<and> \<not> panics r)"
        using Suc retry by auto
      from emitsD [OF this next_run] obtain evs where
        "trace t = trace s @ pre @ evs" "save_schedule b k body (Suc a) evs" "\<not> panics r" by auto
      with save_schedule_retry [of b k body a evs pre] show ?thesis
        by (auto simp: pre_def put_def)
    next
      case conflict
      obtain r1 t1 where ld: "load_s3_object P b k \<lparr>world = w, trace = trace s @ put\<rparr> = (r1, t1)"
        by force
      from emitsD [OF load_s3_object_schedule ld] obtain gets n where
        gets: "trace t1 = trace s @ put @ gets" "n \<le> 3"
        "quiet gets = attempts_from (S3_Get b k) 1 n" "\<not> panics r1" by auto
      from run out conflict ld a have "t = t1 \<or> t = t1\<lparr>trace := trace t1 @ [Stdout idempotent_note]\<rparr>"
        and "panics r \<longrightarrow> panics r1"
        by (auto simp: upt_conv_Cons io_simps put_def put_refused_def split: sum.splits if_splits)
      with gets save_schedule_first(2) [of put b k body a gets n]
        save_schedule_first(2) [of put b k body a "gets @ [Stdout idempotent_note]" n] a
      show ?thesis
        by (auto simp: put_def)
    next
      case final
      with run out a save_schedule_first(1) [of put b k body a] show ?thesis
        by (intro exI [of _ put])
          (auto simp: upt_conv_Cons io_simps put_def put_failed_def s3_operation_max_attempts_def
            split: sum.splits sdk_error.splits if_splits)
    qed
  qed
qed simp

lemma save_s3_object_schedule:
  "emits (save_s3_object_if_absent P b k body)
     (\<lambda>evs r. save_schedule b k body 1 evs \<and> \<not> panics r)"
  unfolding save_s3_object_if_absent_def all_attempts
  using save_attempts_schedule [of 1 P b k body] by simp

section \<open>Properties\<close>

text \<open>
  Property C19. S3 operations make a bounded number of attempts and always return: a load issues the
  same GetObject one to four times, a save issues the same conditional PutObject one to four times,
  then at most one load, with a pause of 250 ms, 500 ms and 750 ms before the second, third and
  fourth attempt; the panic after the loop is unreachable.
\<close>

theorem s3_attempts_bounded:
  "emits (load_s3_object P b k)
     (\<lambda>evs r. \<not> panics r \<and> (\<exists>n \<in> {..3}. quiet evs = attempts_from (S3_Get b k) 1 n))
   \<and> emits (save_s3_object_if_absent P b k body)
     (\<lambda>evs r. \<not> panics r \<and> (\<exists>n \<in> {..3}.
        let puts = attempts_from (S3_Put \<lparr>put_bucket = b, put_key = k, if_none_match = Some ''*'',
              content_type = Some ''application/json'', put_body = body\<rparr>) 1 n
        in quiet evs = puts
          \<or> (\<exists>m \<in> {..3}. quiet evs = puts @ attempts_from (S3_Get b k) 1 m)))"
  unfolding put_object_if_absent_def [symmetric] Let_def
proof
  show "emits (load_s3_object P b k)
     (\<lambda>evs r. \<not> panics r \<and> (\<exists>n \<in> {..3}. quiet evs = attempts_from (S3_Get b k) 1 n))"
    by (rule emits_mono [OF load_s3_object_schedule]) auto
  show "emits (save_s3_object_if_absent P b k body)
     (\<lambda>evs r. \<not> panics r \<and> (\<exists>n \<in> {..3}.
        quiet evs = attempts_from (S3_Put (put_object_if_absent b k body)) 1 n
        \<or> (\<exists>m \<in> {..3}. quiet evs = attempts_from (S3_Put (put_object_if_absent b k body)) 1 n
              @ attempts_from (S3_Get b k) 1 m)))"
    by (rule emits_mono [OF save_s3_object_schedule]) (fastforce simp: save_schedule_def)
qed

text \<open>
  Property C10. Saves are write-once, through all retries and conflicts. S3 promises to keep an
  existing object only for a write with the condition \<open>If-None-Match: *\<close>; every write of a save
  carries it, so a save never changes or removes an object. A save that returns has its body stored
  under the key, and it returns only if the key was free or already held that very body.
\<close>

theorem conditional_write_once:
  assumes "s3_documented P objects" and "save_s3_object_if_absent P b k body s = (r, t)"
  shows "objects (world s) \<subseteq>\<^sub>m objects (world t)
    \<and> (if is_ok r
       then objects (world t) (b, k) = Some body \<and> objects (world s) (b, k) \<in> {None, Some body}
       else True)"
proof (cases r)
  case (Inl e)
  with s3_store.save_grows [OF assms] show ?thesis by simp
next
  case (Inr x)
  with assms(2) have run: "save_s3_object_if_absent P b k body s = (Inr (), t)" by simp
  have "objects (world s) (b, k) \<in> {None, Some body}"
    using s3_store.first_writer_wins [OF assms(1) _ run]
    by (cases "objects (world s) (b, k)") auto
  with s3_store.save_grows [OF assms] s3_store.save_stored [OF assms(1) run] Inr
  show ?thesis by simp
qed

end
