(* ===== verification/S3_Machine.thy ===== *)
theory S3_Machine
  imports S3_Objects
begin

text \<open>
  The S3 operations at the grain of single SDK calls: an operation as a small machine that makes one
  call per step. The machine is written from the protocol of the operations, independently of their
  loops, and computes what the operations of \<^theory_text>\<open>S3_Objects\<close> compute.
\<close>

section \<open>An operation as a machine\<close>

datatype s3_operation =
    Load_Op (op_bucket: string) (op_key: string)
  | Save_Op (op_bucket: string) (op_key: string) (op_body: bytes)

text \<open>
  Where a thread stands: before attempt \<open>a\<close> of a PutObject, before attempt \<open>a\<close> of a GetObject
  (of a load, or of the comparison with an existing object), or at its end.
\<close>

datatype s3_state = Writing nat | Reading nat | Loaded "bytes option" | Stored | Failed app_error

fun ended :: "s3_state \<Rightarrow> bool" where
  "ended (Writing a) = False"
| "ended (Reading a) = False"
| "ended (Loaded x) = True"
| "ended Stored = True"
| "ended (Failed e) = True"

fun started :: "s3_operation \<Rightarrow> s3_state" where
  "started (Load_Op b k) = Reading 1"
| "started (Save_Op b k body) = Writing 1"

text \<open>What an operation does with the content it has read, and what follows the outcome of a call.\<close>

fun finish :: "s3_operation \<Rightarrow> bytes option \<Rightarrow> s3_state" where
  "finish (Load_Op b k) x = Loaded x"
| "finish (Save_Op b k body) x = (if x = Some body then Stored else Failed (put_refused b k))"

definition after_get ::
    "s3_operation \<Rightarrow> nat \<Rightarrow> get_service_error sdk_error + (string + bytes) \<Rightarrow> s3_state" where
  "after_get op a outcome =
     (case outcome of
        Inr (Inr body) \<Rightarrow> finish op (Some body)
      | Inr (Inl e) \<Rightarrow> Failed (Err e)
      | Inl (Service_Error e) \<Rightarrow>
          if no_such_key e then finish op None else Failed (Err (get_error_text e))
      | Inl (Dispatch_Failure d e) \<Rightarrow>
          if a < s3_operation_max_attempts then Reading (Suc a) else Failed (Err e)
      | Inl (Other_Error e) \<Rightarrow> Failed (Err e))"

definition after_put ::
    "string \<Rightarrow> string \<Rightarrow> nat \<Rightarrow> put_service_error sdk_error + unit \<Rightarrow> s3_state" where
  "after_put bucket key a outcome =
     (case outcome of
        Inr _ \<Rightarrow> Stored
      | Inl (Service_Error e) \<Rightarrow>
          if http_status e = 412 then Reading 1
          else Failed (put_failed bucket key (put_service_text e))
      | Inl (Dispatch_Failure d e) \<Rightarrow>
          if a < s3_operation_max_attempts then Writing (Suc a) else Failed (put_failed bucket key e)
      | Inl (Other_Error e) \<Rightarrow> Failed (put_failed bucket key e))"

text \<open>One step: the next SDK call of a thread that has not ended.\<close>

fun s3_step ::
    "('w, 'z) platform_scheme \<Rightarrow> s3_operation \<Rightarrow> s3_state \<Rightarrow> 'w \<Rightarrow> s3_state \<times> 'w" where
  "s3_step P op (Reading a) w = apfst (after_get op a) (s3_get P (op_bucket op) (op_key op) w)"
| "s3_step P (Save_Op b k body) (Writing a) w = apfst (after_put b k a)
     (s3_put P \<lparr>put_bucket = b, put_key = k, if_none_match = Some ''*'',
        content_type = Some ''application/json'', put_body = body\<rparr> w)"
| "s3_step P op st w = (st, w)"

lemma s3_step_write [simp]:
  "s3_step P (Save_Op b k body) (Writing a) w
     = apfst (after_put b k a) (s3_put P (put_object_if_absent b k body) w)"
  by (simp add: put_object_if_absent_def)

declare s3_step.simps(2) [simp del]

text \<open>Steps until the end, at most \<open>n\<close>.\<close>

fun s3_steps ::
    "('w, 'z) platform_scheme \<Rightarrow> s3_operation \<Rightarrow> nat \<Rightarrow> s3_state \<Rightarrow> 'w \<Rightarrow> s3_state \<times> 'w" where
  "s3_steps P op 0 st w = (st, w)"
| "s3_steps P op (Suc n) st w =
     (if ended st then (st, w) else case s3_step P op st w of (st', w') \<Rightarrow> s3_steps P op n st' w')"

section \<open>A machine ends\<close>

text \<open>The calls a thread can still make. A load never writes, and each ends with its own kind of result.\<close>

fun calls_left :: "s3_state \<Rightarrow> nat" where
  "calls_left (Writing a) = 5 + (4 - a)"
| "calls_left (Reading a) = 1 + (4 - a)"
| "calls_left _ = 0"

fun fits :: "s3_operation \<Rightarrow> s3_state \<Rightarrow> bool" where
  "fits (Load_Op b k) (Writing a) = False"
| "fits (Load_Op b k) Stored = False"
| "fits (Save_Op b k body) (Loaded x) = False"
| "fits op st = True"

lemma ended_calls_left: "ended st \<longleftrightarrow> calls_left st = 0"
  by (cases st) auto

lemma finish_ended [simp]: "ended (finish op x)" "fits op (finish op x)" "calls_left (finish op x) = 0"
  by (cases op; simp)+

lemma fits_simps [simp]:
  "fits op (Reading a)" "fits op (Failed e)"
  by (cases op; simp)+

lemma started_fits [simp]: "fits op (started op)" "\<not> ended (started op)"
  by (cases op; simp)+

lemma s3_step_progress:
  assumes "\<not> ended st" and "fits op st"
  shows "calls_left (fst (s3_step P op st w)) < calls_left st \<and> fits op (fst (s3_step P op st w))"
proof (cases st)
  case (Reading a)
  then show ?thesis
    by (auto simp: apfst_def map_prod_def after_get_def s3_operation_max_attempts_def
        split: prod.split sum.split sdk_error.split)
next
  case (Writing a)
  with assms(2) obtain b k body where "op = Save_Op b k body" by (cases op) auto
  with Writing show ?thesis
    by (auto simp: apfst_def map_prod_def after_put_def s3_operation_max_attempts_def
        split: prod.split sum.split sdk_error.split)
qed (use assms in simp_all)

lemma s3_steps_ended [simp]: "ended st \<Longrightarrow> s3_steps P op n st w = (st, w)"
  by (cases n) auto

lemma s3_steps_end:
  "fits op st \<Longrightarrow> calls_left st \<le> n \<Longrightarrow> ended (fst (s3_steps P op n st w))"
proof (induction n arbitrary: st w)
  case 0
  then show ?case by (simp add: ended_calls_left)
next
  case (Suc n)
  obtain st' w' where step: "s3_step P op st w = (st', w')" by force
  show ?case
  proof (cases "ended st")
    case False
    with s3_step_progress [OF this Suc.prems(1), of P w] step Suc.prems Suc.IH [of st' w'] show ?thesis
      by simp
  qed simp
qed

text \<open>More fuel than needed changes nothing.\<close>

lemma s3_steps_more:
  "fits op st \<Longrightarrow> calls_left st \<le> n \<Longrightarrow> n \<le> n' \<Longrightarrow> s3_steps P op n' st w = s3_steps P op n st w"
proof (induction n arbitrary: n' st w)
  case 0
  then show ?case by (simp flip: ended_calls_left)
next
  case (Suc n)
  then obtain m where n': "n' = Suc m" "n \<le> m" by (cases n') auto
  obtain st' w' where step: "s3_step P op st w = (st', w')" by force
  show ?case
  proof (cases "ended st")
    case False
    with s3_step_progress [OF this Suc.prems(1), of P w] step Suc.prems Suc.IH [of st' m w'] n' show ?thesis
      by simp
  qed simp
qed

section \<open>A machine computes its operation\<close>

text \<open>Result and world of a run, without its trace.\<close>

definition effect :: "'a app_result \<times> 'w sys \<Rightarrow> 'a app_result \<times> 'w" where
  "effect x = (fst x, world (snd x))"

lemma effect_pair [simp]: "effect (r, t) = (r, world t)"
  by (simp add: effect_def)

fun load_result :: "s3_state \<Rightarrow> bytes option app_result" where
  "load_result (Loaded x) = Inr x"
| "load_result (Failed e) = Inl e"
| "load_result _ = Inl (Panic ''running'')"

fun save_result :: "s3_state \<Rightarrow> unit app_result" where
  "save_result Stored = Inr ()"
| "save_result (Failed e) = Inl e"
| "save_result _ = Inl (Panic ''running'')"

text \<open>The reads of a load, and the reads of a save as the same reads followed by the comparison.\<close>

lemma load_machine:
  "m + a = 4 \<Longrightarrow> effect (load_attempts P b k [a..<5] s)
     = apfst load_result (s3_steps P (Load_Op b k) (Suc m) (Reading a) (world s))"
proof (induction m arbitrary: a s)
  case 0
  then have "[a..<5] = [4]" "a = 4" by (simp_all add: upt_conv_Cons)
  moreover obtain out w where "s3_get P b k (world s) = (out, w)" by force
  ultimately show ?case
    by (auto simp: io_simps s3_operation_max_attempts_def after_get_def
        split: sum.split sdk_error.split)
next
  case (Suc m)
  obtain out w where out: "s3_get P b k (world s) = (out, w)" by force
  from Suc.prems have upt: "[a..<5] = a # [Suc a..<5]" and less: "a < 4" by (simp_all add: upt_conv_Cons)
  have IH: "effect (load_attempts P b k [Suc a..<5] u)
      = apfst load_result (s3_steps P (Load_Op b k) (Suc m) (Reading (Suc a)) (world u))" for u
    by (rule Suc.IH) (use Suc.prems in simp)
  show ?case
  proof (cases "\<exists>d e. out = Inl (Dispatch_Failure d e)")
    case True
    then obtain d e where "out = Inl (Dispatch_Failure d e)" by blast
    with out less show ?thesis
      unfolding upt s3_steps.simps(2) [of P "Load_Op b k" "Suc m"]
      by (simp add: io_simps s3_operation_max_attempts_def after_get_def sleep_before_s3_retry_def IH
          del: s3_steps.simps(2))
  next
    case False
    with out show ?thesis
      unfolding upt s3_steps.simps(2) [of P "Load_Op b k" "Suc m"]
      by (auto simp: io_simps after_get_def split: sum.split sdk_error.split)
  qed
qed

definition compared :: "string \<Rightarrow> string \<Rightarrow> bytes \<Rightarrow> bytes option app_result \<Rightarrow> unit app_result" where
  "compared b k body r = bind_result r (\<lambda>x. save_result (finish (Save_Op b k body) x))"

lemma compare_machine:
  "m + a = 4 \<Longrightarrow> apfst save_result (s3_steps P (Save_Op b k body) (Suc m) (Reading a) w)
     = apfst (compared b k body \<circ> load_result) (s3_steps P (Load_Op b k) (Suc m) (Reading a) w)"
proof (induction m arbitrary: a w)
  case 0
  obtain out v where "s3_get P b k w = (out, v)" by force
  with 0 show ?case
    by (auto simp: s3_operation_max_attempts_def after_get_def compared_def
        split: sum.split sdk_error.split)
next
  case (Suc m)
  obtain out v where out: "s3_get P b k w = (out, v)" by force
  have IH: "apfst save_result (s3_steps P (Save_Op b k body) (Suc m) (Reading (Suc a)) u)
     = apfst (compared b k body \<circ> load_result) (s3_steps P (Load_Op b k) (Suc m) (Reading (Suc a)) u)" for u
    by (rule Suc.IH) (use Suc.prems in simp)
  show ?case
  proof (cases "\<exists>d e. out = Inl (Dispatch_Failure d e)")
    case True
    then obtain d e where "out = Inl (Dispatch_Failure d e)" by blast
    with out Suc.prems show ?thesis
      unfolding s3_steps.simps(2) [of P _ "Suc m"]
      by (simp add: s3_operation_max_attempts_def after_get_def IH del: s3_steps.simps(2))
  next
    case False
    with out show ?thesis
      unfolding s3_steps.simps(2) [of P _ "Suc m"]
      by (auto simp: after_get_def compared_def split: sum.split sdk_error.split)
  qed
qed

lemma load_operation_machine:
  "effect (load_s3_object P b k s) = apfst load_result (s3_steps P (Load_Op b k) (Suc 3) (Reading 1) (world s))"
  unfolding load_s3_object_def all_attempts by (rule load_machine) simp

text \<open>After status 412: the same reads with the rest of the fuel.\<close>

lemma compare_operation_machine:
  assumes "4 \<le> n"
  shows "apfst save_result (s3_steps P (Save_Op b k body) n (Reading 1) (world u)) =
    apfst (compared b k body) (effect (load_s3_object P b k u))"
proof -
  have "s3_steps P (Save_Op b k body) n (Reading 1) (world u) =
      s3_steps P (Save_Op b k body) (Suc 3) (Reading 1) (world u)"
    using assms by (intro s3_steps_more) simp_all
  moreover have "apfst (compared b k body \<circ> load_result) x = apfst (compared b k body) (apfst load_result x)"
    for x :: "s3_state \<times> 'a"
    by (cases x) simp
  ultimately show ?thesis
    using compare_machine [of 3 1 P b k body "world u"] by (simp only: load_operation_machine)
qed

text \<open>An attempt to write that is not repeated, and then all of them.\<close>

lemma save_attempt_final:
  assumes out: "s3_put P (put_object_if_absent b k body) (world s) = (out, w)" and n: "4 \<le> n"
    and final: "\<And>d e. out = Inl (Dispatch_Failure d e) \<Longrightarrow> \<not> a < s3_operation_max_attempts"
  shows "effect (save_attempts P b k body (a # as) s)
     = apfst save_result (s3_steps P (Save_Op b k body) (Suc n) (Writing a) (world s))"
proof (cases "\<exists>e. out = Inl (Service_Error e) \<and> http_status e = 412")
  case True
  then obtain e where e: "out = Inl (Service_Error e)" "http_status e = 412" by blast
  define u where "u = \<lparr>world = w, trace = trace s
    @ [Stdout (''s3: put_object if-absent '' @ s3_url b k @ attempt_text a), S3_Put (put_object_if_absent b k body)]\<rparr>"
  obtain r t where ld: "load_s3_object P b k u = (r, t)" by force
  have "effect (save_attempts P b k body (a # as) s) = (compared b k body r, world t)"
    using out e ld by (cases r) (auto simp: io_simps u_def compared_def)
  moreover have "s3_steps P (Save_Op b k body) (Suc n) (Writing a) (world s)
      = s3_steps P (Save_Op b k body) n (Reading 1) (world u)"
    using out e by (simp add: after_put_def u_def)
  moreover have "apfst save_result (s3_steps P (Save_Op b k body) n (Reading 1) (world u))
      = (compared b k body r, world t)"
    by (simp only: compare_operation_machine [OF n] ld) simp
  ultimately show ?thesis by simp
next
  case False
  with out final show ?thesis
    by (auto simp: io_simps after_put_def split: sum.split sdk_error.split)
qed

lemma save_machine:
  "m + a = 4 \<Longrightarrow> effect (save_attempts P b k body [a..<5] s)
     = apfst save_result (s3_steps P (Save_Op b k body) (Suc (m + 4)) (Writing a) (world s))"
proof (induction m arbitrary: a s)
  case 0
  then have upt: "[a..<5] = [4]" "a = 4" by (simp_all add: upt_conv_Cons)
  obtain out w where "s3_put P (put_object_if_absent b k body) (world s) = (out, w)" by force
  then show ?case
    unfolding upt(1) upt(2) [symmetric]
    by (rule save_attempt_final) (simp_all add: s3_operation_max_attempts_def upt(2))
next
  case (Suc m)
  obtain out w where out: "s3_put P (put_object_if_absent b k body) (world s) = (out, w)" by force
  from Suc.prems have upt: "[a..<5] = a # [Suc a..<5]" and less: "a < 4" by (simp_all add: upt_conv_Cons)
  have IH: "effect (save_attempts P b k body [Suc a..<5] u)
      = apfst save_result (s3_steps P (Save_Op b k body) (Suc (m + 4)) (Writing (Suc a)) (world u))" for u
    by (rule Suc.IH) (use Suc.prems in simp)
  show ?case
  proof (cases "\<exists>d e. out = Inl (Dispatch_Failure d e)")
    case True
    then obtain d e where "out = Inl (Dispatch_Failure d e)" by blast
    with out less show ?thesis
      unfolding upt s3_steps.simps(2) [of P _ "Suc m + 4"]
      by (simp add: io_simps s3_operation_max_attempts_def after_put_def sleep_before_s3_retry_def IH
          del: s3_steps.simps(2))
  next
    case False
    with out show ?thesis
      unfolding upt by (intro save_attempt_final) auto
  qed
qed

lemma save_operation_machine:
  "effect (save_s3_object_if_absent P b k body s)
     = apfst save_result (s3_steps P (Save_Op b k body) 8 (Writing 1) (world s))"
proof -
  have "effect (save_s3_object_if_absent P b k body s) =
      apfst save_result (s3_steps P (Save_Op b k body) (Suc (3 + 4)) (Writing 1) (world s))"
    unfolding save_s3_object_if_absent_def all_attempts by (rule save_machine) simp
  then show ?thesis by (simp del: s3_steps.simps(2))
qed

section \<open>Property\<close>

text \<open>
  Property C22. Big step and small step agree: for every store, what \<open>load_s3_object\<close> and
  \<open>save_s3_object_if_absent\<close> return and what they leave in the world is what the machine of the
  operation computes, call by call, within four and eight calls; the machine has then ended. The end
  of the \<open>for\<close> loops, where the code panics, is not reached.
\<close>

theorem s3_operations_are_machines:
  "effect (load_s3_object P b k s) = apfst load_result (s3_steps P (Load_Op b k) 4 (started (Load_Op b k)) (world s))
   \<and> effect (save_s3_object_if_absent P b k body s)
     = apfst save_result (s3_steps P (Save_Op b k body) 8 (started (Save_Op b k body)) (world s))
   \<and> ended (fst (s3_steps P (Load_Op b k) 4 (started (Load_Op b k)) (world s)))
   \<and> ended (fst (s3_steps P (Save_Op b k body) 8 (started (Save_Op b k body)) (world s)))"
  using load_operation_machine [of P b k s] save_operation_machine [of P b k body s]
  by (simp add: s3_steps_end eval_nat_numeral del: s3_steps.simps(2))

end
