(* ===== verification/S3_Threads.thy ===== *)
theory S3_Threads
  imports S3_Machine
begin

text \<open>
  The S3 operations in threads. The broker runs them in one thread per connection, so the calls of
  several operations interleave. Here the operations of \<^theory_text>\<open>S3_Objects\<close> are suspended at
  their calls, and any number of them run over one store in any order; the machine of
  \<^theory_text>\<open>S3_Machine\<close> is the tool of the proofs.
\<close>

section \<open>Operations suspended at their calls\<close>

text \<open>
  How far a thread has come is determined by the answers its calls have received: the code is run
  again with these answers, and the first call for which there is no answer left is the one at which
  the thread is suspended. The code is that of \<^theory_text>\<open>S3_Objects\<close>; what is scripted is the
  platform it runs on. Of its fields only the two S3 calls are used.
\<close>

datatype s3_call = Get_Call string string | Put_Call put_object_request

datatype s3_answer =
    Got "get_service_error sdk_error + (string + bytes)"
  | Put "put_service_error sdk_error + unit"

record script =
  answers :: "s3_answer list"
  asked :: "s3_call option"

definition ask :: "s3_call \<Rightarrow> script \<Rightarrow> script" where
  "ask q w = w\<lparr>asked := (case asked w of None \<Rightarrow> Some q | Some first \<Rightarrow> Some first)\<rparr>"

definition replaying :: "('w, 'z) platform_scheme \<Rightarrow> script platform" where
  "replaying P =
     \<lparr>crates = crates P, linux = linux P, nitro_enclave = nitro_enclave P,
      tcp_connect = (\<lambda>a w. (Inl [], w)), tcp_bind = (\<lambda>a w. (Inl [], w)),
      tcp_accept = (\<lambda>h w. (Inl [], w)),
      sys_socket = (\<lambda>d ty pr w. (- 1, w)), sys_connect = (\<lambda>fd a n w. (- 1, w)),
      sys_bind = (\<lambda>fd a n w. (- 1, w)), sys_listen = (\<lambda>fd n w. (- 1, w)),
      sys_accept = (\<lambda>fd a n w. ((- 1, a), w)), sys_close = (\<lambda>fd w. ((), w)),
      last_os_error = (\<lambda>w. []),
      exchange = (\<lambda>st bs w. (Inl [], w)), stream_input = (\<lambda>st w. (([], []), w)),
      stream_output = (\<lambda>st bs w. ((), w)),
      load_default_provider = (\<lambda>w. (None, w)),
      s3_get = (\<lambda>b k w.
        (case (asked w, answers w) of
           (None, Got x # rest) \<Rightarrow> (x, w\<lparr>answers := rest\<rparr>)
         | _ \<Rightarrow> (Inl (Other_Error []), ask (Get_Call b k) w))),
      s3_put = (\<lambda>rq w.
        (case (asked w, answers w) of
           (None, Put x # rest) \<Rightarrow> (x, w\<lparr>answers := rest\<rparr>)
         | _ \<Rightarrow> (Inl (Other_Error []), ask (Put_Call rq) w))),
      provide_credentials = (\<lambda>p w. (Inl [], w)), build_runtime = (\<lambda>w. (Inl [], w)),
      kms_generate = (\<lambda>c rq w. (Inl [], w)), kms_decrypt = (\<lambda>c rq w. (Inl [], w)),
      nkms_generate = (\<lambda>c k n w. (\<lparr>native_rc = 1, native_plaintext = \<lparr>buffer_data = None, buffer_len = 0\<rparr>,
        native_ciphertext = \<lparr>buffer_data = None, buffer_len = 0\<rparr>, native_error_text = []\<rparr>, w)),
      nkms_decrypt = (\<lambda>c e x w. (\<lparr>native_rc = 1, native_plaintext = \<lparr>buffer_data = None, buffer_len = 0\<rparr>,
        native_ciphertext = \<lparr>buffer_data = None, buffer_len = 0\<rparr>, native_error_text = []\<rparr>, w)),
      random_bytes = (\<lambda>n w. ([], w))\<rparr>"

text \<open>Where a thread stands: suspended at a call, or returned with the result of the code.\<close>

datatype s3_progress =
    Calling s3_call
  | Load_Returned "bytes option app_result"
  | Save_Returned "unit app_result"

definition replay :: "s3_answer list \<Rightarrow> script sys" where
  "replay h = \<lparr>world = \<lparr>answers = h, asked = None\<rparr>, trace = []\<rparr>"

definition suspended :: "('a app_result \<Rightarrow> s3_progress) \<Rightarrow> 'a app_result \<times> script \<Rightarrow> s3_progress" where
  "suspended returned x = (case asked (snd x) of Some q \<Rightarrow> Calling q | None \<Rightarrow> returned (fst x))"

definition progress ::
    "('w, 'z) platform_scheme \<Rightarrow> s3_operation \<Rightarrow> s3_answer list \<Rightarrow> s3_progress" where
  "progress P op h =
     (case op of
        Load_Op b k \<Rightarrow>
          suspended Load_Returned (effect (load_s3_object (replaying P) b k (replay h)))
      | Save_Op b k body \<Rightarrow>
          suspended Save_Returned (effect (save_s3_object_if_absent (replaying P) b k body (replay h))))"

section \<open>The machine of a suspended operation\<close>

fun feed :: "s3_operation \<Rightarrow> s3_state \<Rightarrow> s3_answer \<Rightarrow> s3_state option" where
  "feed op (Reading a) (Got x) = Some (after_get op a x)"
| "feed (Save_Op b k body) (Writing a) (Put x) = Some (after_put b k a x)"
| "feed op st x = None"

fun feeds :: "s3_operation \<Rightarrow> s3_state \<Rightarrow> s3_answer list \<Rightarrow> s3_state option" where
  "feeds op st [] = Some st"
| "feeds op st (x # xs) = (case feed op st x of None \<Rightarrow> None | Some st' \<Rightarrow> feeds op st' xs)"

fun view :: "s3_operation \<Rightarrow> s3_state \<Rightarrow> s3_progress" where
  "view op (Reading a) = Calling (Get_Call (op_bucket op) (op_key op))"
| "view (Save_Op b k body) (Writing a) = Calling (Put_Call (put_object_if_absent b k body))"
| "view (Load_Op b k) st = Load_Returned (load_result st)"
| "view (Save_Op b k body) st = Save_Returned (save_result st)"

lemma view_ended:
  "ended st \<Longrightarrow> view op st = (case op of Load_Op b k \<Rightarrow> Load_Returned (load_result st)
     | Save_Op b k body \<Rightarrow> Save_Returned (save_result st))"
  by (cases st; cases op) auto

lemma view_running: "\<not> ended st \<Longrightarrow> fits op st \<Longrightarrow> \<exists>q. view op st = Calling q"
  by (cases st; cases op) auto

lemma feeds_snoc: "feeds op st (h @ [x]) = (case feeds op st h of None \<Rightarrow> None | Some st' \<Rightarrow> feed op st' x)"
  by (induction h arbitrary: st) (auto split: option.split)

lemma feed_Some:
  assumes "feed op st x = Some st'" and "fits op st"
  shows "\<not> ended st" "fits op st'" "calls_left st' < calls_left st"
    and "s3_step (replaying P) op st \<lparr>answers = x # h, asked = None\<rparr> = (st', \<lparr>answers = h, asked = None\<rparr>)"
proof -
  show running: "\<not> ended st"
    using assms(1) by (cases "(op, st, x)" rule: feed.cases) auto
  show step: "s3_step (replaying P) op st \<lparr>answers = x # h, asked = None\<rparr> = (st', \<lparr>answers = h, asked = None\<rparr>)"
    for P :: "('a, 'b) platform_scheme" and h
    using assms(1) by (cases "(op, st, x)" rule: feed.cases) (auto simp: replaying_def)
  from s3_step_progress [OF running assms(2), of "replaying P" "\<lparr>answers = x # h, asked = None\<rparr>"]
  show "fits op st'" "calls_left st' < calls_left st" by (simp_all add: step)
qed

lemma feeds_fits: "feeds op st h = Some st' \<Longrightarrow> fits op st \<Longrightarrow> fits op st'"
  by (induction h arbitrary: st) (auto split: option.splits dest: feed_Some(2))

lemma feeds_calls: "feeds op st h = Some st' \<Longrightarrow> fits op st \<Longrightarrow> length h + calls_left st' \<le> calls_left st"
proof (induction h arbitrary: st)
  case (Cons x h)
  then obtain u where u: "feed op st x = Some u" "feeds op u h = Some st'"
    by (auto split: option.splits)
  with Cons.IH [OF u(2)] feed_Some(2,3) [OF u(1) Cons.prems(2)] show ?case by simp
qed simp

text \<open>The machine on the scripted platform stops where its answers end.\<close>

lemma replay_exhausted:
  assumes "\<not> ended st" and "fits op st" and "calls_left st \<le> n"
  shows "\<exists>st'. s3_steps (replaying P) op n st \<lparr>answers = [], asked = None\<rparr>
    = (st', \<lparr>answers = [], asked = Some (case view op st of Calling q \<Rightarrow> q)\<rparr>)"
proof -
  from assms(1,3) obtain m where n: "n = Suc m" by (cases n) (auto simp: ended_calls_left)
  show ?thesis
  proof (cases st)
    case (Reading a)
    with n show ?thesis by (simp add: replaying_def ask_def after_get_def)
  next
    case (Writing a)
    with assms(2) obtain b k body where "op = Save_Op b k body" by (cases op) auto
    with n Writing show ?thesis by (simp add: replaying_def ask_def after_put_def)
  qed (use assms(1) in simp_all)
qed

lemma replay_steps:
  "feeds op st h = Some st' \<Longrightarrow> fits op st \<Longrightarrow> calls_left st \<le> n \<Longrightarrow>
   (if ended st' then s3_steps (replaying P) op n st \<lparr>answers = h, asked = None\<rparr>
        = (st', \<lparr>answers = [], asked = None\<rparr>)
    else \<exists>st''. s3_steps (replaying P) op n st \<lparr>answers = h, asked = None\<rparr>
        = (st'', \<lparr>answers = [], asked = Some (case view op st' of Calling q \<Rightarrow> q)\<rparr>))"
proof (induction h arbitrary: st n)
  case Nil
  then show ?case using replay_exhausted [of st op n P] by simp
next
  case (Cons x h)
  then obtain u where u: "feed op st x = Some u" "feeds op u h = Some st'"
    by (auto split: option.splits)
  note fed = feed_Some [OF u(1) Cons.prems(2)]
  from fed(3) Cons.prems(3) obtain m where n: "n = Suc m" "calls_left u \<le> m" by (cases n) auto
  from Cons.IH [OF u(2) fed(2) n(2)] show ?case
    by (simp add: n(1) fed(1) fed(4) [where P = P])
qed

lemma progress_view:
  assumes "feeds op (started op) h = Some st"
  shows "progress P op h = view op st"
proof -
  have run: "if ended st then s3_steps (replaying P) op n (started op) \<lparr>answers = h, asked = None\<rparr>
        = (st, \<lparr>answers = [], asked = None\<rparr>)
    else \<exists>st''. s3_steps (replaying P) op n (started op) \<lparr>answers = h, asked = None\<rparr>
        = (st'', \<lparr>answers = [], asked = Some (case view op st of Calling q \<Rightarrow> q)\<rparr>)"
    if "calls_left (started op) \<le> n" for n
    by (rule replay_steps [OF assms _ that]) simp
  show ?thesis
  proof (cases "ended st")
    case True
    with run [of 4] run [of 8] show ?thesis
      by (cases op) (simp_all add: progress_def replay_def load_operation_machine save_operation_machine
        suspended_def view_ended eval_nat_numeral del: s3_steps.simps(2))
  next
    case False
    moreover have "fits op st"
      using assms by (rule feeds_fits) simp
    ultimately obtain q where q: "view op st = Calling q" using view_running by blast
    with False run [of 4] run [of 8] show ?thesis
      by (cases op) (auto simp: progress_def replay_def load_operation_machine save_operation_machine
        suspended_def eval_nat_numeral simp del: s3_steps.simps(2))
  qed
qed

section \<open>Threads over one store\<close>

text \<open>
  A system: the operation of each thread with the answers it has received, and the world. A step is
  the call at which some thread is suspended, performed on the world; its answer goes to the thread.
\<close>

record 'w s3_system =
  threads :: "(s3_operation \<times> s3_answer list) list"
  store :: 'w

fun perform :: "('w, 'z) platform_scheme \<Rightarrow> s3_call \<Rightarrow> 'w \<Rightarrow> s3_answer \<times> 'w" where
  "perform P (Get_Call b k) w = apfst Got (s3_get P b k w)"
| "perform P (Put_Call rq) w = apfst Put (s3_put P rq w)"

inductive s3_system_step ::
    "('w, 'z) platform_scheme \<Rightarrow> 'w s3_system \<Rightarrow> 'w s3_system \<Rightarrow> bool" for P where
  call: "i < length (threads c) \<Longrightarrow> threads c ! i = (op, h) \<Longrightarrow> progress P op h = Calling q \<Longrightarrow>
     perform P q (store c) = (x, w) \<Longrightarrow>
     s3_system_step P c (c\<lparr>threads := (threads c)[i := (op, h @ [x])], store := w\<rparr>)"

inductive_cases s3_system_stepE: "s3_system_step P c d"

text \<open>Runs, with the number of their steps.\<close>

inductive s3_system_run ::
    "('w, 'z) platform_scheme \<Rightarrow> nat \<Rightarrow> 'w s3_system \<Rightarrow> 'w s3_system \<Rightarrow> bool" for P where
  none: "s3_system_run P 0 c c"
| step: "s3_system_run P n a b \<Longrightarrow> s3_system_step P b c \<Longrightarrow> s3_system_run P (Suc n) a c"

definition launched :: "s3_operation list \<Rightarrow> 'w \<Rightarrow> 'w s3_system" where
  "launched ops w = \<lparr>threads = map (\<lambda>op. (op, [])) ops, store = w\<rparr>"

text \<open>
  What the results of the code claim about the objects at the launch and now: content that was
  loaded is stored, an object that was not found did not exist at the launch, and a save that returned
  has its body stored.
\<close>

fun truthful ::
    "(string \<times> string \<rightharpoonup> bytes) \<Rightarrow> (string \<times> string \<rightharpoonup> bytes) \<Rightarrow> s3_operation \<Rightarrow> s3_progress \<Rightarrow> bool" where
  "truthful old objs (Load_Op b k) (Load_Returned (Inr (Some body))) \<longleftrightarrow> objs (b, k) = Some body"
| "truthful old objs (Load_Op b k) (Load_Returned (Inr None)) \<longleftrightarrow> old (b, k) = None"
| "truthful old objs (Save_Op b k body) (Save_Returned (Inr ())) \<longleftrightarrow> objs (b, k) = Some body"
| "truthful old objs op pr \<longleftrightarrow> True"

lemma truthful_grows: "truthful old objs op pr \<Longrightarrow> objs \<subseteq>\<^sub>m objs' \<Longrightarrow> truthful old objs' op pr"
  by (cases "(old, objs, op, pr)" rule: truthful.cases) (auto intro: map_le_Some)

lemma s3_step_truthful:
  assumes doc: "s3_documented P objects" and st: "\<not> ended st" "fits op st" and old: "old \<subseteq>\<^sub>m objects w"
    and step: "s3_step P op st w = (st', w')"
  shows "objects w \<subseteq>\<^sub>m objects w' \<and> truthful old (objects w') op (view op st')"
proof (cases st)
  case (Reading a)
  obtain out v where get: "s3_get P (op_bucket op) (op_key op) w = (out, v)" by force
  with doc have "objects w \<subseteq>\<^sub>m objects v"
    "\<And>body. out = Inr (Inr body) \<Longrightarrow> objects v (op_bucket op, op_key op) = Some body"
    "\<And>e. out = Inl (Service_Error e) \<Longrightarrow> no_such_key e \<Longrightarrow> objects w (op_bucket op, op_key op) = None"
    by (auto simp: s3_documented_def)
  with get Reading step show ?thesis
    by (cases op) (auto simp: after_get_def intro: map_le_None [OF old]
      split: sum.splits sdk_error.splits if_splits)
next
  case (Writing a)
  with st(2) obtain b k body where op: "op = Save_Op b k body" by (cases op) auto
  obtain out v where put: "s3_put P (put_object_if_absent b k body) w = (out, v)" by force
  from s3_conditional_put [OF doc put] put Writing op step show ?thesis
    by (auto simp: after_put_def split: sum.splits sdk_error.splits if_splits)
qed (use st in simp_all)

text \<open>The step of a system is a step of the machine.\<close>

definition stands :: "s3_operation \<Rightarrow> s3_answer list \<Rightarrow> s3_state \<Rightarrow> bool" where
  "stands op h st \<longleftrightarrow> feeds op (started op) h = Some st"

lemma stands_progress:
  assumes "stands op h st"
  shows "progress P op h = view op st" "fits op st" "length h + calls_left st \<le> calls_left (started op)"
  using progress_view feeds_fits feeds_calls assms unfolding stands_def by (metis started_fits(1))+

lemma stands_next:
  assumes "stands op h st" and "progress P op h = Calling q" and "perform P q w = (x, w')"
  shows "\<exists>st'. stands op (h @ [x]) st' \<and> \<not> ended st \<and> s3_step P op st w = (st', w')"
proof -
  note now = stands_progress [OF assms(1)]
  from assms(2) now(1) [of P] have q: "view op st = Calling q" by simp
  then have "\<not> ended st" by (auto simp: view_ended split: s3_operation.splits)
  moreover have "\<exists>st'. feed op st x = Some st' \<and> s3_step P op st w = (st', w')"
    using q now(2) assms(3)
    by (cases "(op, st)" rule: view.cases) (auto simp: apfst_def map_prod_def split: prod.splits)
  ultimately show ?thesis
    using assms(1) by (auto simp: stands_def feeds_snoc)
qed

text \<open>The invariant of a system.\<close>

definition s3_system_ok :: "('w \<Rightarrow> string \<times> string \<rightharpoonup> bytes) \<Rightarrow> 'w \<Rightarrow> 'w s3_system \<Rightarrow> bool" where
  "s3_system_ok objects w0 c \<longleftrightarrow> objects w0 \<subseteq>\<^sub>m objects (store c)
     \<and> (\<forall>(op, h) \<in> set (threads c). \<exists>st. stands op h st
          \<and> truthful (objects w0) (objects (store c)) op (view op st))"

lemma launched_ok: "s3_system_ok objects w (launched ops w)"
proof -
  have "truthful old objs op (view op (started op))" for old objs op by (cases op) auto
  then show ?thesis by (auto simp: s3_system_ok_def launched_def stands_def)
qed

lemma set_update_cases: "x \<in> set (xs[i := y]) \<Longrightarrow> x = y \<or> x \<in> set xs"
  using set_update_subset_insert [of xs i y] by blast

lemma s3_system_step_ok:
  assumes doc: "s3_documented P objects" and ok: "s3_system_ok objects w0 c" and "s3_system_step P c d"
  shows "s3_system_ok objects w0 d"
  using assms(3)
proof (rule s3_system_stepE)
  fix i op h q x w
  assume d: "d = c\<lparr>threads := (threads c)[i := (op, h @ [x])], store := w\<rparr>"
    and i: "i < length (threads c)" "threads c ! i = (op, h)"
    and call: "progress P op h = Calling q" "perform P q (store c) = (x, w)"
  from i have "(op, h) \<in> set (threads c)" by (metis nth_mem)
  with ok obtain st where st: "stands op h st" and old: "objects w0 \<subseteq>\<^sub>m objects (store c)"
    by (auto simp: s3_system_ok_def)
  from stands_next [OF st call] obtain st' where next_st: "stands op (h @ [x]) st'" "\<not> ended st"
    "s3_step P op st (store c) = (st', w)" by blast
  from s3_step_truthful [OF doc next_st(2) stands_progress(2) [OF st] old next_st(3)]
  have new: "objects (store c) \<subseteq>\<^sub>m objects w" "truthful (objects w0) (objects w) op (view op st')" by auto
  have "\<exists>st1. stands op1 h1 st1 \<and> truthful (objects w0) (objects w) op1 (view op1 st1)"
    if "(op1, h1) \<in> set (threads d)" for op1 h1
  proof -
    from that d have "(op1, h1) = (op, h @ [x]) \<or> (op1, h1) \<in> set (threads c)"
      using set_update_cases [of "(op1, h1)" "threads c" i "(op, h @ [x])"] by simp
    then show ?thesis
    proof
      assume "(op1, h1) = (op, h @ [x])"
      with next_st(1) new(2) show ?thesis by auto
    next
      assume "(op1, h1) \<in> set (threads c)"
      with ok obtain st1 where "stands op1 h1 st1" "truthful (objects w0) (objects (store c)) op1 (view op1 st1)"
        unfolding s3_system_ok_def by fast
      with truthful_grows [OF _ new(1)] show ?thesis by blast
    qed
  qed
  with new(1) old d show ?thesis
    by (auto simp: s3_system_ok_def intro: map_le_trans)
qed

lemma s3_system_run_ok:
  assumes "s3_documented P objects"
  shows "s3_system_run P n c d \<Longrightarrow> s3_system_ok objects w0 c \<Longrightarrow> s3_system_ok objects w0 d"
  by (induction rule: s3_system_run.induct) (auto intro: s3_system_step_ok [OF assms])

text \<open>The operations of a system never change.\<close>

lemma s3_system_run_operations:
  "s3_system_run P n c d \<Longrightarrow> map fst (threads d) = map fst (threads c)"
proof (induction rule: s3_system_run.induct)
  case (step n a b c)
  from step.hyps(2) have "map fst (threads c) = map fst (threads b)"
    by (rule s3_system_stepE) (simp add: map_update, metis fst_conv list_update_id nth_map)
  with step.IH show ?case by simp
qed simp

text \<open>Each step is a call, and every thread stands at a state of its machine.\<close>

definition calls_made :: "'w s3_system \<Rightarrow> nat" where
  "calls_made c = sum_list (map (length \<circ> snd) (threads c))"

lemma s3_system_step_calls:
  assumes "s3_system_step P c d" and stand: "\<forall>(op, h) \<in> set (threads c). \<exists>st. stands op h st"
  shows "calls_made d = Suc (calls_made c) \<and> (\<forall>(op, h) \<in> set (threads d). \<exists>st. stands op h st)"
  using assms(1)
proof (rule s3_system_stepE)
  fix i op h q x w
  assume d: "d = c\<lparr>threads := (threads c)[i := (op, h @ [x])], store := w\<rparr>"
    and i: "i < length (threads c)" "threads c ! i = (op, h)"
    and call: "progress P op h = Calling q" "perform P q (store c) = (x, w)"
  from i have "(op, h) \<in> set (threads c)" by (metis nth_mem)
  with stand obtain st where "stands op h st" by auto
  from stands_next [OF this call] obtain st' where "stands op (h @ [x]) st'" by blast
  then have "\<forall>(op, h) \<in> set (threads d). \<exists>st. stands op h st"
    using stand d set_update_cases [of _ "threads c" i "(op, h @ [x])"] by fastforce
  moreover have "length h \<le> calls_made c"
    using elem_le_sum_list [of i "map (length \<circ> snd) (threads c)"] i by (simp add: calls_made_def)
  then have "calls_made d = Suc (calls_made c)"
    unfolding d using i by (simp add: calls_made_def map_update sum_list_update)
  ultimately show ?thesis by blast
qed

lemma s3_system_run_calls:
  "s3_system_run P n c d \<Longrightarrow> \<forall>(op, h) \<in> set (threads c). \<exists>st. stands op h st \<Longrightarrow>
   calls_made d = n + calls_made c \<and> (\<forall>(op, h) \<in> set (threads d). \<exists>st. stands op h st)"
proof (induction rule: s3_system_run.induct)
  case (step n a b c)
  from step.IH [OF step.prems] s3_system_step_calls [OF step.hyps(2)] show ?case by auto
qed simp

fun most_calls :: "s3_operation \<Rightarrow> nat" where
  "most_calls (Load_Op b k) = 4"
| "most_calls (Save_Op b k body) = 8"

lemma stands_most_calls: "stands op h st \<Longrightarrow> length h \<le> most_calls op"
  using stands_progress(3) [of op h st] by (cases op) auto

lemma calls_made_most:
  "\<forall>(op, h) \<in> set (threads c). \<exists>st. stands op h st \<Longrightarrow>
   calls_made c \<le> sum_list (map (most_calls \<circ> fst) (threads c))"
  unfolding calls_made_def by (rule sum_list_mono) (use stands_most_calls in fastforce)

text \<open>A result of the code is never a panic.\<close>

lemma after_no_panic:
  "after_get op a x \<noteq> Failed (Panic m)" "after_put b k a y \<noteq> Failed (Panic m)"
  by (cases op; auto simp: after_get_def put_refused_def split: sum.splits sdk_error.splits)
    (auto simp: after_put_def put_failed_def split: sum.splits sdk_error.splits)

lemma stands_no_panic: "stands op h st \<Longrightarrow> st \<noteq> Failed (Panic m)"
proof (induction h arbitrary: st rule: rev_induct)
  case Nil
  then show ?case by (cases op) (auto simp: stands_def)
next
  case (snoc x h)
  then obtain u where "feed op u x = Some st"
    by (auto simp: stands_def feeds_snoc split: option.splits)
  then show ?case
    using after_no_panic by (cases "(op, u, x)" rule: feed.cases) auto
qed

lemma view_no_panic:
  assumes "fits op st" and "\<And>m. st \<noteq> Failed (Panic m)"
  shows "case view op st of Calling q \<Rightarrow> True | Load_Returned r \<Rightarrow> \<not> panics r | Save_Returned r \<Rightarrow> \<not> panics r"
proof -
  have "\<not> panics (Inl e :: 'a app_result)" if "st = Failed e" for e
    using assms(2) that by (cases e) auto
  with assms(1) show ?thesis
    by (cases "(op, st)" rule: view.cases) auto
qed

lemma suspended_moves:
  assumes "(op, h) \<in> set (threads c)" and "progress P op h = Calling q"
  shows "\<exists>d. s3_system_step P c d"
proof -
  obtain i where "i < length (threads c)" "threads c ! i = (op, h)"
    using assms(1) by (metis in_set_conv_nth)
  moreover obtain x w where "perform P q (store c) = (x, w)" by force
  ultimately show ?thesis using s3_system_step.call [of i c op h P q x w] assms(2) by blast
qed

section \<open>Properties\<close>

text \<open>
  Property C12. Concurrent operations are consistent. Let any number of loads and saves (the code of
  \<open>load_s3_object\<close> and \<open>save_s3_object_if_absent\<close>, suspended at each of its calls) run in threads
  over one S3, their calls interleaved in any order, and stop at any moment. Then no object that was
  there has changed; a save that has returned successfully has its body stored, so two saves of one
  object have both succeeded only if their bodies are equal; a load that has returned content has
  returned what is stored, and one that found nothing looked for an object that did not exist at the
  start.
\<close>

theorem concurrent_s3_operations_consistent:
  assumes "s3_documented P objects" and "s3_system_run P n (launched ops w) c"
  shows "objects w \<subseteq>\<^sub>m objects (store c)
    \<and> (\<forall>(op, h) \<in> set (threads c). truthful (objects w) (objects (store c)) op (progress P op h))
    \<and> map fst (threads c) = ops"
proof -
  have "truthful (objects w) (objects (store c)) op (progress P op h)" if "(op, h) \<in> set (threads c)" for op h
    using s3_system_run_ok [OF assms launched_ok] that stands_progress(1) [of op h _ P]
    by (fastforce simp: s3_system_ok_def)
  with s3_system_run_ok [OF assms launched_ok] s3_system_run_operations [OF assms(2)] show ?thesis
    by (auto simp: s3_system_ok_def launched_def comp_def)
qed

text \<open>
  Property C21. Every schedule ends: whatever S3 answers and whichever thread is scheduled, the threads
  together make at most four calls for each load and eight for each save; a thread that has not
  returned can always make its next call; and no result is a panic.
\<close>

theorem concurrent_s3_operations_end:
  assumes "s3_system_run P n (launched ops w) c"
  shows "n \<le> sum_list (map (\<lambda>op. case op of Load_Op b k \<Rightarrow> 4 | Save_Op b k body \<Rightarrow> 8) ops)
    \<and> (\<forall>(op, h) \<in> set (threads c). case progress P op h of
          Calling q \<Rightarrow> \<exists>d. s3_system_step P c d
        | Load_Returned r \<Rightarrow> \<not> panics r
        | Save_Returned r \<Rightarrow> \<not> panics r)"
proof -
  have "\<forall>(op, h) \<in> set (threads (launched ops w)). \<exists>st. stands op h st"
    by (auto simp: launched_def stands_def)
  from s3_system_run_calls [OF assms this] have n: "calls_made c = n"
    and st: "\<forall>(op, h) \<in> set (threads c). \<exists>st. stands op h st"
    by (simp_all add: calls_made_def launched_def comp_def)
  have most: "most_calls = (\<lambda>op. case op of Load_Op b k \<Rightarrow> 4 | Save_Op b k body \<Rightarrow> 8)"
    by (auto simp: fun_eq_iff split: s3_operation.split)
  have "n \<le> sum_list (map most_calls (map fst (threads c)))"
    using calls_made_most [OF st] n by simp
  moreover have "case progress P op h of Calling q \<Rightarrow> \<exists>d. s3_system_step P c d
      | Load_Returned r \<Rightarrow> \<not> panics r | Save_Returned r \<Rightarrow> \<not> panics r" if "(op, h) \<in> set (threads c)" for op h
  proof -
    from st that obtain u where u: "stands op h u" by auto
    from view_no_panic [OF stands_progress(2) [OF u] stands_no_panic [OF u]] show ?thesis
      using suspended_moves [OF that, of P] stands_progress(1) [OF u, of P]
      by (auto split: s3_progress.splits)
  qed
  ultimately show ?thesis
    using s3_system_run_operations [OF assms] unfolding most by (fastforce simp: launched_def comp_def)
qed

end
