(* ===== verification/Broker.thy ===== *)
theory Broker
  imports Endpoints Frames S3_Threads
begin

text \<open>
  The broker process on the parent instance, from \<open>src/src/lib.rs\<close>: \<open>serve_enclave_broker\<close>
  with the closure it runs per connection, the allow-list check \<open>validate_s3_target\<close> and the
  selection of credential providers. The accept loop with its threads is a step relation at the
  end of the theory.
\<close>

section \<open>Credential providers\<close>

definition incomplete_credentials :: "string \<Rightarrow> app_error" where
  "incomplete_credentials pfx =
     Err (''set both '' @ pfx @ ''_ACCESS_KEY_ID and '' @ pfx @ ''_SECRET_ACCESS_KEY, or neither'')"

definition explicit_kms_credentials_provider ::
    "env \<Rightarrow> string \<Rightarrow> credentials_provider option app_result" where
  "explicit_kms_credentials_provider env pfx =
     (case (optional_env env (pfx @ ''_ACCESS_KEY_ID''), optional_env env (pfx @ ''_SECRET_ACCESS_KEY'')) of
        (None, None) \<Rightarrow> Inr None
      | (Some access, Some secret) \<Rightarrow>
          Inr (Some (Static_Provider \<lparr>sdk_access_key_id = access, sdk_secret_access_key = secret,
            sdk_session_token = optional_env env (pfx @ ''_SESSION_TOKEN''), sdk_expiry = None\<rparr>))
      | _ \<Rightarrow> Inl (incomplete_credentials pfx))"

type_synonym providers = "(kms_slot \<times> credentials_provider option) list"

definition no_slot_provider :: "kms_slot \<Rightarrow> app_error" where
  "no_slot_provider sl =
     Err (''no credentials provider configured for '' @ label sl @ '' KMS; set KMS_'' @ upper_label sl
          @ ''_ACCESS_KEY_ID and KMS_'' @ upper_label sl @ ''_SECRET_ACCESS_KEY'')"

definition find_credentials_provider :: "providers \<Rightarrow> kms_slot \<Rightarrow> credentials_provider app_result" where
  "find_credentials_provider ps sl =
     ok_or (no_slot_provider sl) (Option.bind (List.find (\<lambda>(c, _). c = sl) ps) snd)"

section \<open>Requests\<close>

definition target_rejected :: "string \<Rightarrow> string \<Rightarrow> string \<Rightarrow> string \<Rightarrow> app_error" where
  "target_rejected bucket key allowed_bucket allowed_prefix =
     Err (''enclave-broker rejected '' @ s3_url bucket key @ ''; only objects below ''
          @ s3_url allowed_bucket (allowed_prefix @ ''/'') @ '' are allowed'')"

definition validate_s3_target ::
    "string \<Rightarrow> string \<Rightarrow> string \<Rightarrow> string \<Rightarrow> unit app_result" where
  "validate_s3_target bucket key allowed_bucket allowed_prefix =
     (if bucket \<noteq> allowed_bucket \<or> \<not> starts_with (allowed_prefix @ ''/'') key
      then Inl (target_rejected bucket key allowed_bucket allowed_prefix)
      else Inr ())"

definition no_slot_settings :: app_error where
  "no_slot_settings = Err ''KMS credential slot has no key settings''"

definition writes_rejected :: app_error where
  "writes_rejected = Err ''enclave-broker rejects S3 writes outside init-key mode''"

text \<open>Nanoseconds from the Unix epoch to whole seconds; nothing for a time before it.\<close>

definition epoch_seconds :: "int option \<Rightarrow> u64 option" where
  "epoch_seconds expiry =
     (case expiry of
        None \<Rightarrow> None
      | Some ns \<Rightarrow> if ns < 0 then None else Some (word_of_int (ns div 1000000000)))"

definition handle_request ::
    "('w, 'z) platform_scheme \<Rightarrow> parent_settings \<Rightarrow> providers \<Rightarrow> broker_request
     \<Rightarrow> ('w, broker_response) io" where
  "handle_request P ps provs rq =
     (case rq of
        GetAwsCredentials sl \<Rightarrow>
          bindM (liftM (find_credentials_provider provs sl)) (\<lambda>provider.
          bindM (callM (Load_Credentials sl) (provide_credentials P provider)) (\<lambda>r.
          bindM (liftM (lib_result r)) (\<lambda>c.
          bindM (liftM (ok_or no_slot_settings (List.find (\<lambda>k. slot k = sl) (kms_keys ps)))) (\<lambda>k.
          returnM (AwsCredentials
            \<lparr>cred_region = key_region k,
             access_key_id = sdk_access_key_id c,
             secret_access_key = sdk_secret_access_key c,
             session_token = sdk_session_token c,
             expires_at_epoch_seconds = epoch_seconds (sdk_expiry c)\<rparr>)))))
      | LoadObject bucket key \<Rightarrow>
          bindM (liftM (validate_s3_target bucket key (s3_bucket ps) (s3_prefix ps))) (\<lambda>_.
          bindM (load_s3_object P bucket key) (\<lambda>body. returnM (Object body)))
      | SaveObjectIfAbsent bucket key body \<Rightarrow>
          if mode ps \<noteq> InitKey then throwM writes_rejected else
          bindM (liftM (validate_s3_target bucket key (s3_bucket ps) (s3_prefix ps))) (\<lambda>_.
          bindM (save_s3_object_if_absent P bucket key body) (\<lambda>_. returnM Saved))
      | GetSettings \<Rightarrow> returnM (Settings ps))"

definition cid_rejected :: "u32 option \<Rightarrow> string" where
  "cid_rejected cid = ''request from vsock CID '' @ show_option show_u32 cid @ '' was rejected''"

text \<open>The closure of a connection up to its response.\<close>

definition answer ::
    "('w, 'z) platform_scheme \<Rightarrow> parent_settings \<Rightarrow> providers \<Rightarrow> u32 option \<Rightarrow> u32 option
     \<Rightarrow> reader \<Rightarrow> ('w, broker_response) io" where
  "answer P ps provs allowed peer input =
     bindM (attemptM (liftM (read_json_frame (request_of_json (crates P)) input))) (\<lambda>frame.
     case frame of
       Inl e \<Rightarrow> returnM (Error e)
     | Inr (rq, _) \<Rightarrow>
         if allowed \<noteq> None \<and> peer \<noteq> allowed then returnM (Error (cid_rejected peer))
         else if rq = GetSettings then returnM (Settings ps)
         else bindM (callM Build_Runtime (build_runtime P)) (\<lambda>rt.
              case rt of
                Inl e \<Rightarrow> returnM (Error e)
              | Inr _ \<Rightarrow>
                  bindM (attemptM (handle_request P ps provs rq)) (\<lambda>result.
                  case result of Inl e \<Rightarrow> returnM (Error e) | Inr resp \<Rightarrow> returnM resp)))"

text \<open>\<open>let _ = write_json_frame\<close>: a response that cannot be framed is not sent.\<close>

definition connection_thread ::
    "('w, 'z) platform_scheme \<Rightarrow> parent_settings \<Rightarrow> providers \<Rightarrow> u32 option
     \<Rightarrow> accepted_connection \<Rightarrow> ('w, unit) io" where
  "connection_thread P ps provs allowed conn =
     bindM (callM Receive (stream_input P (accepted_stream conn))) (\<lambda>input.
     bindM (answer P ps provs allowed (peer_cid conn) input) (\<lambda>resp.
     case write_json_frame (response_to_json (crates P)) resp of
       Inl _ \<Rightarrow> returnM ()
     | Inr bs \<Rightarrow> callM (Reply bs) (stream_output P (accepted_stream conn) bs)))"

section \<open>Start-up\<close>

definition no_default_credentials :: app_error where
  "no_default_credentials = Err ''AWS credential provider is not configured on enclave-broker''"

definition broker_providers ::
    "('w, 'z) platform_scheme \<Rightarrow> env \<Rightarrow> ('w, providers) io" where
  "broker_providers P env =
     bindM (callM Load_Sdk_Config (load_default_provider P)) (\<lambda>default_provider.
     bindM (liftM (ok_or no_default_credentials default_provider)) (\<lambda>default_provider.
     bindM (liftM (explicit_kms_credentials_provider env ''KMS_PRIMARY'')) (\<lambda>primary.
     bindM (liftM (explicit_kms_credentials_provider env ''KMS_BACKUP'')) (\<lambda>backup.
     returnM [(Primary, Some (case primary of Some p \<Rightarrow> p | None \<Rightarrow> default_provider)),
              (Backup, backup)]))))"

definition start_broker ::
    "('w, 'z) platform_scheme \<Rightarrow> env \<Rightarrow> endpoint \<Rightarrow> ('w, providers \<times> listener) io" where
  "start_broker P env ep =
     bindM (broker_providers P env) (\<lambda>provs.
     bindM (listen_endpoint P ep) (\<lambda>l.
     bindM (emitM (Stdout (''enclave-broker: listening on '' @ debug_endpoint (crates P) ep))) (\<lambda>_.
     returnM (provs, l))))"

section \<open>The accept loop and its threads\<close>

text \<open>
  A running broker: the process state, the connections whose thread has been spawned and has not
  finished, and the error that ended the loop. A step accepts a connection, runs the thread of
  some pending connection, or ends with an accept error.
\<close>

record 'w broker =
  proc :: "'w sys"
  pending :: "accepted_connection list"
  stopped :: "app_error option"

inductive broker_step ::
    "('w, 'z) platform_scheme \<Rightarrow> parent_settings \<Rightarrow> providers \<Rightarrow> u32 option \<Rightarrow> listener
     \<Rightarrow> 'w broker \<Rightarrow> 'w broker \<Rightarrow> bool"
  for P ps provs allowed l where
  accept_connection: "stopped b = None \<Longrightarrow> listener_accept P l (proc b) = (Inr conn, s) \<Longrightarrow>
     broker_step P ps provs allowed l b (b\<lparr>proc := s, pending := pending b @ [conn]\<rparr>)"
| run_thread: "i < length (pending b) \<Longrightarrow>
     connection_thread P ps provs allowed (pending b ! i) (proc b) = (r, s) \<Longrightarrow>
     broker_step P ps provs allowed l b
       (b\<lparr>proc := s, pending := take i (pending b) @ drop (Suc i) (pending b)\<rparr>)"
| accept_error: "stopped b = None \<Longrightarrow> listener_accept P l (proc b) = (Inl e, s) \<Longrightarrow>
     broker_step P ps provs allowed l b (b\<lparr>proc := s, stopped := Some e\<rparr>)"

inductive broker_run ::
    "('w, 'z) platform_scheme \<Rightarrow> parent_settings \<Rightarrow> providers \<Rightarrow> u32 option \<Rightarrow> listener
     \<Rightarrow> 'w broker \<Rightarrow> 'w broker \<Rightarrow> bool"
  for P ps provs allowed l where
  idle: "broker_run P ps provs allowed l b b"
| more: "broker_run P ps provs allowed l a b \<Longrightarrow> broker_step P ps provs allowed l b c \<Longrightarrow>
     broker_run P ps provs allowed l a c"

inductive_cases broker_stepE: "broker_step P ps provs allowed l b c"

section \<open>Lemmas\<close>

text \<open>
  What the broker may do at S3 under its settings: read below its prefix, and write there in
  \<open>init-key\<close> mode only, with the condition that the object does not exist.
\<close>

fun allowed_s3 :: "parent_settings \<Rightarrow> event \<Rightarrow> bool" where
  "allowed_s3 ps (S3_Get b k) \<longleftrightarrow> b = s3_bucket ps \<and> starts_with (s3_prefix ps @ ''/'') k"
| "allowed_s3 ps (S3_Put rq) \<longleftrightarrow>
     mode ps = InitKey \<and> put_bucket rq = s3_bucket ps
     \<and> starts_with (s3_prefix ps @ ''/'') (put_key rq) \<and> if_none_match rq = Some ''*''"
| "allowed_s3 ps _ \<longleftrightarrow> True"

lemma validate_s3_target_Inr [simp]:
  "validate_s3_target b k ab ap = Inr x \<longleftrightarrow> b = ab \<and> starts_with (ap @ ''/'') k"
  by (auto simp: validate_s3_target_def)

lemma confined_load_s3_object:
  assumes "A (S3_Get b k)" and "\<And>ev. silent ev \<Longrightarrow> A ev" and "\<And>n. A (Sleep n)"
  shows "confined A (load_s3_object P b k)"
proof -
  have "confined A (load_attempts P b k as)" for as
    by (induction as)
      (auto intro!: confined_intros simp: assms sleep_before_s3_retry_def split: sdk_error.split)
  then show ?thesis by (simp add: load_s3_object_def)
qed

lemma confined_save_s3_object:
  assumes "A (S3_Put (put_object_if_absent b k body))" and "A (S3_Get b k)" and "\<And>ev. silent ev \<Longrightarrow> A ev"
    and "\<And>n. A (Sleep n)"
  shows "confined A (save_s3_object_if_absent P b k body)"
proof -
  have "confined A (save_attempts P b k body as)" for as
    by (induction as)
      (auto intro!: confined_intros confined_load_s3_object simp: assms sleep_before_s3_retry_def
        split: sdk_error.split)
  then show ?thesis by (simp add: save_s3_object_if_absent_def)
qed

lemma confined_liftM_bind:
  "(\<And>x. r = Inr x \<Longrightarrow> confined A (k x)) \<Longrightarrow> confined A (bindM (liftM r) k)"
  by (cases r) (auto simp: confined_def emits_def io_simps)

lemma silent_allowed: "silent ev \<Longrightarrow> allowed_s3 ps ev"
  by (cases ev) auto

lemma confined_handle_request: "confined (allowed_s3 ps) (handle_request P ps provs rq)"
  unfolding handle_request_def
  by (cases rq)
    (auto intro!: confined_liftM_bind confined_intros confined_load_s3_object
      confined_save_s3_object simp: silent_allowed)

lemma confined_answer: "confined (allowed_s3 ps) (answer P ps provs allowed peer input)"
  unfolding answer_def
  by (auto intro!: confined_intros confined_handle_request split: prod.split)

lemma confined_connection_thread:
  "confined (allowed_s3 ps) (connection_thread P ps provs allowed conn)"
  unfolding connection_thread_def
  by (auto intro!: confined_intros confined_answer)

lemma confined_listener_accept: "confined (allowed_s3 ps) (listener_accept P l)"
  unfolding listener_accept_def vsock_listener_accept_def accept_vsock_def Let_def
  by (cases l) (auto intro!: confined_intros split: prod.split vsock_listener.split)

lemma broker_step_allowed:
  "broker_step P ps provs allowed l b c \<Longrightarrow> list_all (allowed_s3 ps) (trace (proc b)) \<Longrightarrow>
   list_all (allowed_s3 ps) (trace (proc c))"
  by (erule broker_stepE)
    (auto dest!: confinedD [OF confined_connection_thread] confinedD [OF confined_listener_accept, where ps1 = ps])

lemma panic_free_load_s3_object [panic_free_intros]: "panic_free (load_s3_object P b k)"
  using emitsD [OF load_s3_object_schedule] unfolding panic_free_def by (metis prod.collapse)

lemma panic_free_save_s3_object [panic_free_intros]:
  "panic_free (save_s3_object_if_absent P b k body)"
  using emitsD [OF save_s3_object_schedule] unfolding panic_free_def by (metis prod.collapse)

lemma broker_errors_no_panic [simp]:
  "\<not> panics (find_credentials_provider provs sl)"
  "\<not> panics (validate_s3_target b k ab ap)"
  "writes_rejected \<noteq> Panic msg"
  "no_slot_settings \<noteq> Panic msg"
  by (auto simp: find_credentials_provider_def no_slot_provider_def validate_s3_target_def
      target_rejected_def writes_rejected_def no_slot_settings_def)

lemma panic_free_handle_request [panic_free_intros]: "panic_free (handle_request P ps provs rq)"
  unfolding handle_request_def
  by (cases rq) (auto intro!: panic_free_intros)

lemma broker_run_allowed:
  "broker_run P ps provs allowed l a b \<Longrightarrow> list_all (allowed_s3 ps) (trace (proc a)) \<Longrightarrow>
   list_all (allowed_s3 ps) (trace (proc b))"
  by (induction rule: broker_run.induct) (auto dest: broker_step_allowed)

text \<open>The answer to a request that has been read.\<close>

lemma answer_read:
  assumes "read_json_frame (request_of_json (crates P)) input = Inr (rq, rest)"
  shows "answer P ps provs allowed peer input s =
    (if allowed \<noteq> None \<and> peer \<noteq> allowed then (Inr (Error (cid_rejected peer)), s)
     else if rq = GetSettings then (Inr (Settings ps), s)
     else bindM (callM Build_Runtime (build_runtime P)) (\<lambda>rt.
            case rt of
              Inl e \<Rightarrow> returnM (Error e)
            | Inr _ \<Rightarrow>
                bindM (attemptM (handle_request P ps provs rq)) (\<lambda>result.
                case result of Inl e \<Rightarrow> returnM (Error e) | Inr resp \<Rightarrow> returnM resp)) s)"
  by (simp add: answer_def bindM_def attemptM_def liftM_def assms io_simps)

lemma answer_unread:
  assumes "read_json_frame (request_of_json (crates P)) input = Inl (Err e)"
  shows "answer P ps provs allowed peer input s = (Inr (Error e), s)"
  by (simp add: answer_def bindM_def attemptM_def liftM_def assms io_simps)

lemma find_first:
  "List.find p xs = Some x \<Longrightarrow> p x \<and> (\<exists>before after. xs = before @ x # after \<and> (\<forall>y \<in> set before. \<not> p y))"
proof (induction xs)
  case (Cons y ys)
  show ?case
  proof (cases "p y")
    case True
    with Cons.prems have "y # ys = [] @ x # ys" "p x" by simp_all
    then show ?thesis by fastforce
  next
    case False
    with Cons obtain before after where "p x" "ys = before @ x # after" "\<forall>y \<in> set before. \<not> p y" by auto
    with False show ?thesis by (intro conjI exI [of _ "y # before"] exI [of _ after]) simp_all
  qed
qed simp

text \<open>The providers of a started broker, slot by slot.\<close>

lemma explicit_provider_Inr:
  "explicit_kms_credentials_provider env pfx = Inr x \<longleftrightarrow>
     (case (optional_env env (pfx @ ''_ACCESS_KEY_ID''), optional_env env (pfx @ ''_SECRET_ACCESS_KEY'')) of
        (Some access, Some secret) \<Rightarrow> x = Some (Static_Provider \<lparr>sdk_access_key_id = access,
          sdk_secret_access_key = secret, sdk_session_token = optional_env env (pfx @ ''_SESSION_TOKEN''),
          sdk_expiry = None\<rparr>)
      | (None, None) \<Rightarrow> x = None
      | _ \<Rightarrow> False)"
  by (auto simp: explicit_kms_credentials_provider_def split: option.splits)

lemma broker_providers_slot:
  assumes "broker_providers P env s0 = (Inr provs, s1)" and "find_credentials_provider provs sl = Inr provider"
  shows "case (optional_env env ((case sl of Primary \<Rightarrow> ''KMS_PRIMARY'' | Backup \<Rightarrow> ''KMS_BACKUP'') @ ''_ACCESS_KEY_ID''),
      optional_env env ((case sl of Primary \<Rightarrow> ''KMS_PRIMARY'' | Backup \<Rightarrow> ''KMS_BACKUP'') @ ''_SECRET_ACCESS_KEY'')) of
         (Some access, Some secret) \<Rightarrow> provider = Static_Provider \<lparr>sdk_access_key_id = access,
           sdk_secret_access_key = secret, sdk_session_token =
             optional_env env ((case sl of Primary \<Rightarrow> ''KMS_PRIMARY'' | Backup \<Rightarrow> ''KMS_BACKUP'') @ ''_SESSION_TOKEN''),
           sdk_expiry = None\<rparr>
       | (None, None) \<Rightarrow> sl = Primary \<and> fst (load_default_provider P (world s0)) = Some provider
       | _ \<Rightarrow> False"
proof -
  from assms(1) obtain d primary backup where d: "fst (load_default_provider P (world s0)) = Some d"
    and explicit: "explicit_kms_credentials_provider env ''KMS_PRIMARY'' = Inr primary"
      "explicit_kms_credentials_provider env ''KMS_BACKUP'' = Inr backup"
    and provs: "provs = [(Primary, Some (case primary of Some p \<Rightarrow> p | None \<Rightarrow> d)), (Backup, backup)]"
    by (auto simp: broker_providers_def callM_run elim!: bindM_InrE split: prod.splits)
  show ?thesis
  proof (cases sl)
    case Primary
    with assms(2) provs explicit(1) d show ?thesis
      unfolding explicit_provider_Inr
      by (auto simp: find_credentials_provider_def split: option.splits)
  next
    case Backup
    with assms(2) provs explicit(2) d show ?thesis
      unfolding explicit_provider_Inr
      by (auto simp: find_credentials_provider_def split: option.splits)
  qed
qed

lemma epoch_seconds_bounds:
  "case expiry of
     None \<Rightarrow> epoch_seconds expiry = None
   | Some ns \<Rightarrow>
       if ns < 0 then epoch_seconds expiry = None
       else \<exists>e. epoch_seconds expiry = Some e
         \<and> (ns < 2 ^ 64 * 10 ^ 9 \<longrightarrow> uint e * 10 ^ 9 \<le> ns \<and> ns < (uint e + 1) * 10 ^ 9)"
proof (cases expiry)
  case (Some ns)
  have "uint (word_of_int (ns div 1000000000) :: u64) = ns div 1000000000"
    if "0 \<le> ns" "ns < 2 ^ 64 * 10 ^ 9"
  proof -
    from that have "0 \<le> ns div 1000000000" "ns div 1000000000 < 2 ^ 64" by auto
    then show ?thesis by (simp add: uint_word_of_int)
  qed
  moreover have "ns div 1000000000 * 1000000000 \<le> ns" "ns < ns div 1000000000 * 1000000000 + 1000000000"
    by linarith+
  ultimately show ?thesis
    using Some by (simp add: epoch_seconds_def distrib_right)
qed (simp add: epoch_seconds_def)

section \<open>Properties\<close>

text \<open>
  Property C16. With a configured enclave CID, a connection from any other peer (a TCP peer has no
  CID) is answered with an error before anything happens: no credentials, no settings and no S3
  access, and the state of the process is unchanged. A connection from that CID is treated as if no
  CID were configured.
\<close>

theorem foreign_cid_rejected:
  "answer P ps provs (Some cid) peer input s =
     (if peer = Some cid then answer P ps provs None peer input s
      else (Inr (Error (case read_json_frame (request_of_json (crates P)) input of
                   Inl e \<Rightarrow> (case e of Err msg \<Rightarrow> msg | Panic msg \<Rightarrow> msg)
                 | Inr _ \<Rightarrow> cid_rejected peer)), s))"
proof (cases "read_json_frame (request_of_json (crates P)) input")
  case (Inl e)
  then obtain msg where "e = Err msg"
    by (cases e) (simp_all add: frames_never_panic)
  with Inl show ?thesis by (simp add: answer_unread)
next
  case (Inr x)
  obtain rq rest where x: "x = (rq, rest)" by (cases x)
  show ?thesis
    by (simp add: answer_read [OF Inr [unfolded x]] Inr)
qed

text \<open>
  Property C6. Over any run of the broker (any interleaving of accepting connections and running
  their threads, any requests), every S3 access stays inside the configured bucket and below the
  configured prefix, and objects are written only if the broker was started in \<open>init-key\<close> mode,
  with the condition that they do not exist.
\<close>

theorem broker_s3_confined:
  assumes "broker_run P ps provs allowed l a b" and "trace (proc a) = []"
  shows "list_all (allowed_s3 ps) (trace (proc b))"
  using broker_run_allowed [OF assms(1)] assms(2) by simp

text \<open>
  Property C24. Credentials are never mixed up between slots. A credentials response of a broker that
  was started in environment \<open>env\<close> holds what the provider of the requested slot returned: the
  static credentials of the variables of that slot if they are set, and otherwise, for the primary
  slot only, the default provider. The region is that of the settings' first key of that slot; the
  expiry is in whole seconds, rounded down, and absent if it lies before the epoch.
\<close>

theorem credentials_of_slot:
  assumes "broker_providers P env s0 = (Inr provs, s1)"
    and "handle_request P ps provs (GetAwsCredentials sl) s = (Inr resp, t)"
  shows "\<exists>provider c w before k after expires.
    (let pfx = (case sl of Primary \<Rightarrow> ''KMS_PRIMARY'' | Backup \<Rightarrow> ''KMS_BACKUP'') in
       case (optional_env env (pfx @ ''_ACCESS_KEY_ID''), optional_env env (pfx @ ''_SECRET_ACCESS_KEY'')) of
         (Some access, Some secret) \<Rightarrow> provider = Static_Provider \<lparr>sdk_access_key_id = access,
           sdk_secret_access_key = secret, sdk_session_token = optional_env env (pfx @ ''_SESSION_TOKEN''),
           sdk_expiry = None\<rparr>
       | (None, None) \<Rightarrow> sl = Primary \<and> fst (load_default_provider P (world s0)) = Some provider
       | _ \<Rightarrow> False)
    \<and> provide_credentials P provider (world s) = (Inr c, w)
    \<and> t = \<lparr>world = w, trace = trace s @ [Load_Credentials sl]\<rparr>
    \<and> kms_keys ps = before @ k # after \<and> slot k = sl \<and> sl \<notin> slot ` set before
    \<and> resp = AwsCredentials \<lparr>cred_region = key_region k, access_key_id = sdk_access_key_id c,
        secret_access_key = sdk_secret_access_key c, session_token = sdk_session_token c,
        expires_at_epoch_seconds = expires\<rparr>
    \<and> (case sdk_expiry c of
         None \<Rightarrow> expires = None
       | Some ns \<Rightarrow>
           if ns < 0 then expires = None
           else \<exists>e. expires = Some e
             \<and> (ns < 2 ^ 64 * 10 ^ 9 \<longrightarrow> uint e * 10 ^ 9 \<le> ns \<and> ns < (uint e + 1) * 10 ^ 9))"
proof -
  from assms(2) obtain provider c k w where found: "find_credentials_provider provs sl = Inr provider"
    and call: "provide_credentials P provider (world s) = (Inr c, w)"
    and k: "List.find (\<lambda>k. slot k = sl) (kms_keys ps) = Some k"
    and t: "t = \<lparr>world = w, trace = trace s @ [Load_Credentials sl]\<rparr>"
    and resp: "resp = AwsCredentials \<lparr>cred_region = key_region k, access_key_id = sdk_access_key_id c,
        secret_access_key = sdk_secret_access_key c, session_token = sdk_session_token c,
        expires_at_epoch_seconds = epoch_seconds (sdk_expiry c)\<rparr>"
    by (auto simp: handle_request_def callM_def elim!: bindM_InrE split: prod.splits)
  obtain before after where "kms_keys ps = before @ k # after" "slot k = sl" "\<forall>y \<in> set before. slot y \<noteq> sl"
    using find_first [OF k] by blast
  then have "kms_keys ps = before @ k # after" "slot k = sl" "sl \<notin> slot ` set before" by auto
  with broker_providers_slot [OF assms(1) found] call t resp epoch_seconds_bounds [of "sdk_expiry c"]
  show ?thesis unfolding Let_def by blast
qed

end
