(* ===== verification/Broker_Loop.thy ===== *)
theory Broker_Loop
  imports Broker
begin

text \<open>
  \<open>serve_enclave_broker\<close> of \<open>src/src/lib.rs\<close> as one function: start-up followed by the
  endless accept loop. The loop is a partial function into \<open>option\<close>: \<^const>\<open>None\<close> means that
  it runs forever. Each accepted connection is handed to a new thread. Which pending threads run before
  the next accept, and in which order, is decided by a scheduler, an argument of the definitions; the
  threads that are pending when the loop ends die with the process. The second part types the protocol:
  which response belongs to which request.
\<close>

section \<open>The loop\<close>

text \<open>
  \<open>spawn\<close> is what happens to the process, and to the pending threads, between an accept and the
  next one.
\<close>

type_synonym 'w threaded = "accepted_connection list \<times> 'w sys"

type_synonym 'w scheduler = "accepted_connection list \<Rightarrow> 'w sys \<Rightarrow> nat list"

partial_function (option) accept_loop ::
    "('w, 'z) platform_scheme \<Rightarrow> listener \<Rightarrow> (accepted_connection \<Rightarrow> 'w threaded \<Rightarrow> 'w threaded)
     \<Rightarrow> 'w threaded \<Rightarrow> (app_error \<times> 'w sys) option" where
  "accept_loop P l spawn c =
     (case listener_accept P l (snd c) of
        (Inl e, t) \<Rightarrow> Some (e, t)
      | (Inr conn, t) \<Rightarrow> accept_loop P l spawn (spawn conn (fst c, t)))"

text \<open>Running threads, each given by its position among those still pending.\<close>

fun run_threads ::
    "('w, 'z) platform_scheme \<Rightarrow> parent_settings \<Rightarrow> providers \<Rightarrow> u32 option \<Rightarrow> nat list
     \<Rightarrow> 'w threaded \<Rightarrow> 'w threaded" where
  "run_threads P ps provs allowed [] c = c"
| "run_threads P ps provs allowed (i # is) (conns, s) =
     (if i < length conns
      then run_threads P ps provs allowed is
        (take i conns @ drop (Suc i) conns, snd (connection_thread P ps provs allowed (conns ! i) s))
      else run_threads P ps provs allowed is (conns, s))"

definition spawn_thread ::
    "('w, 'z) platform_scheme \<Rightarrow> 'w scheduler \<Rightarrow> parent_settings \<Rightarrow> providers \<Rightarrow> u32 option
     \<Rightarrow> accepted_connection \<Rightarrow> 'w threaded \<Rightarrow> 'w threaded" where
  "spawn_thread P sched ps provs allowed conn c =
     (let conns = fst c @ [conn]
      in run_threads P ps provs allowed (sched conns (snd c)) (conns, snd c))"

definition serve_enclave_broker ::
    "('w, 'z) platform_scheme \<Rightarrow> 'w scheduler \<Rightarrow> env \<Rightarrow> endpoint \<Rightarrow> parent_settings \<Rightarrow> u32 option
     \<Rightarrow> 'w sys \<Rightarrow> (unit app_result \<times> 'w sys) option" where
  "serve_enclave_broker P sched env ep ps allowed s =
     (case start_broker P env ep s of
        (Inl e, t) \<Rightarrow> Some (Inl e, t)
      | (Inr (provs, l), t) \<Rightarrow>
          map_option (apfst Inl) (accept_loop P l (spawn_thread P sched ps provs allowed) ([], t)))"

section \<open>When the loop ends\<close>

text \<open>The process after \<open>n\<close> successful accepts, if they all succeed.\<close>

fun after_accepts ::
    "('w, 'z) platform_scheme \<Rightarrow> listener \<Rightarrow> (accepted_connection \<Rightarrow> 'w threaded \<Rightarrow> 'w threaded) \<Rightarrow> nat
     \<Rightarrow> 'w threaded \<Rightarrow> 'w threaded option" where
  "after_accepts P l spawn 0 c = Some c"
| "after_accepts P l spawn (Suc n) c =
     (case listener_accept P l (snd c) of
        (Inl e, t) \<Rightarrow> None
      | (Inr conn, t) \<Rightarrow> after_accepts P l spawn n (spawn conn (fst c, t)))"

lemma accept_loop_after:
  "after_accepts P l spawn n c = Some u \<Longrightarrow> accept_loop P l spawn c = accept_loop P l spawn u"
proof (induction n arbitrary: c)
  case (Suc n)
  then obtain conn t where "listener_accept P l (snd c) = (Inr conn, t)"
    "after_accepts P l spawn n (spawn conn (fst c, t)) = Some u"
    by (auto split: prod.splits sum.splits)
  with Suc.IH show ?case by (subst accept_loop.simps) simp
qed simp

lemma accept_loop_Some:
  assumes "accept_loop P l spawn c = Some y"
  shows "\<exists>n u. after_accepts P l spawn n c = Some u \<and> listener_accept P l (snd u) = (Inl (fst y), snd y)"
proof -
  have "case (((P, l), spawn), c) of (((P, l), spawn), c) \<Rightarrow>
      \<exists>n u. after_accepts P l spawn n c = Some u \<and> listener_accept P l (snd u) = (Inl (fst y), snd y)"
  proof (rule accept_loop.raw_induct [OF _ assms])
    fix loop :: "('w, 'z) platform_scheme \<Rightarrow> listener \<Rightarrow> (accepted_connection \<Rightarrow> 'w threaded \<Rightarrow> 'w threaded)
      \<Rightarrow> 'w threaded \<Rightarrow> (app_error \<times> 'w sys) option"
      and P :: "('w, 'z) platform_scheme" and l
      and spawn :: "accepted_connection \<Rightarrow> 'w threaded \<Rightarrow> 'w threaded" and c and y
    assume IH: "\<And>l' spawn' c' b y'. loop l' spawn' c' b = Some y' \<Longrightarrow> case (((l', spawn'), c'), b) of
        (((P, l), spawn), c) \<Rightarrow> \<exists>n u. after_accepts P l spawn n c = Some u
          \<and> listener_accept P l (snd u) = (Inl (fst y'), snd y')"
      and eq: "(case listener_accept P l (snd c) of (Inl e, t) \<Rightarrow> Some (e, t)
        | (Inr conn, t) \<Rightarrow> loop P l spawn (spawn conn (fst c, t))) = Some y"
    show "case (((P, l), spawn), c) of (((P, l), spawn), c) \<Rightarrow>
        \<exists>n u. after_accepts P l spawn n c = Some u \<and> listener_accept P l (snd u) = (Inl (fst y), snd y)"
    proof (cases "listener_accept P l (snd c)")
      case (Pair r t)
      show ?thesis
      proof (cases r)
        case (Inl e)
        with Pair eq show ?thesis unfolding prod.case by (intro exI [of _ 0] exI [of _ c]) auto
      next
        case (Inr conn)
        with Pair eq IH [of P l spawn "spawn conn (fst c, t)" y] obtain n u where
          "after_accepts P l spawn n (spawn conn (fst c, t)) = Some u"
          "listener_accept P l (snd u) = (Inl (fst y), snd y)"
          by auto
        with Pair Inr show ?thesis unfolding prod.case by (intro exI [of _ "Suc n"] exI [of _ u]) simp
      qed
    qed
  qed
  then show ?thesis by simp
qed

lemma accept_loop_iff:
  "accept_loop P l spawn c = Some (e, t) \<longleftrightarrow>
   (\<exists>n u. after_accepts P l spawn n c = Some u \<and> listener_accept P l (snd u) = (Inl e, t))"
proof
  assume "\<exists>n u. after_accepts P l spawn n c = Some u \<and> listener_accept P l (snd u) = (Inl e, t)"
  then obtain n u where "after_accepts P l spawn n c = Some u" "listener_accept P l (snd u) = (Inl e, t)" by blast
  then show "accept_loop P l spawn c = Some (e, t)"
    by (simp add: accept_loop_after) (subst accept_loop.simps, simp)
next
  assume "accept_loop P l spawn c = Some (e, t)"
  from accept_loop_Some [OF this]
  show "\<exists>n u. after_accepts P l spawn n c = Some u \<and> listener_accept P l (snd u) = (Inl e, t)" by simp
qed

text \<open>A loop that has returned is a run of the step relation, whatever the scheduler.\<close>

lemma broker_run_trans:
  "broker_run P ps provs allowed l b c \<Longrightarrow> broker_run P ps provs allowed l a b \<Longrightarrow>
   broker_run P ps provs allowed l a c"
  by (induction rule: broker_run.induct) (auto intro: broker_run.more)

definition serving :: "'w threaded \<Rightarrow> app_error option \<Rightarrow> 'w broker" where
  "serving c e = \<lparr>proc = snd c, pending = fst c, stopped = e\<rparr>"

lemma serving_run_threads:
  "broker_run P ps provs allowed l (serving c None) (serving (run_threads P ps provs allowed is c) None)"
proof (induction "is" c rule: run_threads.induct [of _ P ps provs allowed])
  case (1 P ps provs allowed c)
  then show ?case by (simp add: broker_run.idle)
next
  case (2 P ps provs allowed i "is" conns s)
  show ?case
  proof (cases "i < length conns")
    case True
    obtain r u where "connection_thread P ps provs allowed (conns ! i) s = (r, u)" by force
    with True have "broker_step P ps provs allowed l (serving (conns, s) None)
        (serving (take i conns @ drop (Suc i) conns, u) None)"
      using broker_step.run_thread [of i "serving (conns, s) None" P ps provs allowed r u l]
      by (simp add: serving_def)
    then have "broker_run P ps provs allowed l (serving (conns, s) None)
        (serving (take i conns @ drop (Suc i) conns, u) None)"
      by (blast intro: broker_run.intros)
    with 2(1) [OF True] True \<open>connection_thread P ps provs allowed (conns ! i) s = (r, u)\<close> show ?thesis
      by (auto intro: broker_run_trans)
  qed (use 2(2) in simp)
qed

lemma serving_accept:
  assumes "listener_accept P l (snd c) = (Inr conn, t)"
  shows "broker_run P ps provs allowed l (serving c None)
    (serving (spawn_thread P sched ps provs allowed conn (fst c, t)) None)"
proof -
  have "broker_step P ps provs allowed l (serving c None) (serving (fst c @ [conn], t) None)"
    using broker_step.accept_connection [of "serving c None" P l conn t] assms by (simp add: serving_def)
  then have "broker_run P ps provs allowed l (serving c None) (serving (fst c @ [conn], t) None)"
    by (blast intro: broker_run.intros)
  from broker_run_trans [OF serving_run_threads this] show ?thesis
    by (simp add: spawn_thread_def Let_def)
qed

lemma accepts_run:
  "after_accepts P l (spawn_thread P sched ps provs allowed) n c = Some u \<Longrightarrow>
   broker_run P ps provs allowed l (serving c None) (serving u None)"
proof (induction n arbitrary: c)
  case 0
  then show ?case by (simp add: broker_run.idle)
next
  case (Suc n)
  then obtain conn t where acc: "listener_accept P l (snd c) = (Inr conn, t)"
    and rest: "after_accepts P l (spawn_thread P sched ps provs allowed) n
      (spawn_thread P sched ps provs allowed conn (fst c, t)) = Some u"
    by (auto split: prod.splits sum.splits)
  show ?case
    by (rule broker_run_trans [OF Suc.IH [OF rest] serving_accept [OF acc]])
qed

lemma accept_loop_run:
  assumes "accept_loop P l (spawn_thread P sched ps provs allowed) c = Some (e, t)"
  shows "\<exists>conns. broker_run P ps provs allowed l (serving c None) (serving (conns, t) (Some e))"
proof -
  from assms obtain n u where n: "after_accepts P l (spawn_thread P sched ps provs allowed) n c = Some u"
    and acc: "listener_accept P l (snd u) = (Inl e, t)"
    by (auto simp: accept_loop_iff)
  have "broker_step P ps provs allowed l (serving u None) (serving (fst u, t) (Some e))"
    using broker_step.accept_error [of "serving u None" P l e t] acc by (simp add: serving_def)
  with accepts_run [OF n] show ?thesis by (blast intro: broker_run.more)
qed

section \<open>Types of responses\<close>

text \<open>The responses that belong to a request.\<close>

fun response_fits :: "broker_request \<Rightarrow> broker_response \<Rightarrow> bool" where
  "response_fits GetSettings (Settings ps) = True"
| "response_fits (GetAwsCredentials sl) (AwsCredentials c) = True"
| "response_fits (LoadObject b k) (Object body) = True"
| "response_fits (SaveObjectIfAbsent b k body) Saved = True"
| "response_fits _ _ = False"

lemma handle_request_typed:
  "handle_request P ps provs rq s = (Inr resp, t) \<Longrightarrow> response_fits rq resp"
  by (cases rq) (auto simp: handle_request_def elim!: bindM_InrE split: if_splits)

lemma answer_typed:
  "case read_json_frame (request_of_json (crates P)) input of
     Inl _ \<Rightarrow> (\<exists>msg. fst (answer P ps provs allowed peer input s) = Inr (Error msg))
   | Inr (rq, _) \<Rightarrow> (\<exists>resp. fst (answer P ps provs allowed peer input s) = Inr resp
       \<and> (response_fits rq resp \<or> (\<exists>msg. resp = Error msg)))"
proof (cases "read_json_frame (request_of_json (crates P)) input")
  case (Inl e)
  then obtain msg where "e = Err msg"
    by (cases e) (simp_all add: frames_never_panic)
  with Inl show ?thesis by (simp add: answer_unread)
next
  case (Inr x)
  obtain rq rest where x: "x = (rq, rest)" by (cases x)
  have "\<exists>resp. fst (bindM (attemptM (handle_request P ps provs rq)) (\<lambda>result.
      case result of Inl e \<Rightarrow> returnM (Error e) | Inr resp \<Rightarrow> returnM resp) u) = Inr resp
      \<and> (response_fits rq resp \<or> (\<exists>msg. resp = Error msg))" for u
    using attemptM_total [OF panic_free_handle_request, of P ps provs rq u] handle_request_typed [of P ps provs rq u]
    by (auto simp: io_simps attemptM_def split: sum.splits prod.splits app_error.splits)
  then show ?thesis
    using Inr x unfolding answer_read [OF Inr [unfolded x]]
    by (auto simp: io_simps split: sum.splits)
qed

section \<open>Properties\<close>

text \<open>
  Property C20. The broker serves until an accept fails, whatever the scheduler of its threads. It
  returns exactly if its start-up fails, or if after some number of accepted connections, each handed
  to its thread, the next accept fails; it then returns that error. In all other cases it never
  returns: no request, whatever it contains and whatever its thread does, ends the loop.
\<close>

theorem broker_serves_until_accept_fails:
  "serve_enclave_broker P sched env ep ps allowed s = Some (r, t) \<longleftrightarrow>
     (\<exists>e. r = Inl e \<and> (start_broker P env ep s = (Inl e, t)
        \<or> (\<exists>provs l u n v. start_broker P env ep s = (Inr (provs, l), u)
             \<and> after_accepts P l (spawn_thread P sched ps provs allowed) n ([], u) = Some v
             \<and> listener_accept P l (snd v) = (Inl e, t))))"
proof (cases "start_broker P env ep s")
  case (Pair r' u)
  then show ?thesis
    by (cases r') (auto simp: serve_enclave_broker_def accept_loop_iff split: prod.splits)
qed

text \<open>
  Property C14. Responses are typed by their requests: whatever the peer sends and the services
  answer, a request that can be read gets the response of its own kind or an \<open>Error\<close>, and bytes
  that cannot be read get an \<open>Error\<close>.
\<close>

theorem answers_well_typed:
  "case read_json_frame (request_of_json (crates P)) input of
     Inl _ \<Rightarrow> (\<exists>msg. fst (answer P ps provs allowed peer input s) = Inr (Error msg))
   | Inr (rq, _) \<Rightarrow> (\<exists>resp. fst (answer P ps provs allowed peer input s) = Inr resp
       \<and> (response_fits rq resp \<or> (\<exists>msg. resp = Error msg)))"
  by (rule answer_typed)

end
