(* ===== verification/Broker_Client.thy ===== *)
theory Broker_Client
  imports Endpoints Frames
begin

text \<open>
  The enclave's side of the broker protocol: \<open>request_broker\<close> and its typed wrappers from
  \<open>src/src/lib.rs\<close>, and \<open>BrokerS3Client\<close> from \<open>src/src/key_material.rs\<close>. Nothing
  is assumed about the peer: the bytes it answers with are arbitrary.
\<close>

section \<open>Requests\<close>

definition request_broker ::
    "('w, 'z) platform_scheme \<Rightarrow> endpoint \<Rightarrow> broker_request \<Rightarrow> ('w, broker_response) io" where
  "request_broker P ep rq =
     bindM (connect_endpoint P ep) (\<lambda>st.
     bindM (liftM (write_json_frame (request_to_json (crates P)) rq)) (\<lambda>frame.
     bindM (callM (Send ep rq) (exchange P st frame)) (\<lambda>received.
     bindM (liftM (lib_result received)) (\<lambda>input.
     bindM (liftM (read_json_frame (response_of_json (crates P)) input)) (\<lambda>(resp, _).
     case resp of
       Error message \<Rightarrow> throwM (Err message)
     | _ \<Rightarrow> returnM resp)))))"

definition unexpected_response :: "libs \<Rightarrow> broker_response \<Rightarrow> app_error" where
  "unexpected_response L resp =
     Err (''unexpected enclave-broker response: '' @ debug_response L resp)"

definition request_broker_settings ::
    "('w, 'z) platform_scheme \<Rightarrow> endpoint \<Rightarrow> ('w, parent_settings) io" where
  "request_broker_settings P ep =
     bindM (request_broker P ep GetSettings) (\<lambda>resp.
     case resp of
       Settings ps \<Rightarrow> returnM ps
     | _ \<Rightarrow> throwM (unexpected_response (crates P) resp))"

definition request_broker_credentials ::
    "('w, 'z) platform_scheme \<Rightarrow> endpoint \<Rightarrow> kms_slot \<Rightarrow> ('w, aws_credentials) io" where
  "request_broker_credentials P ep sl =
     bindM (request_broker P ep (GetAwsCredentials sl)) (\<lambda>resp.
     case resp of
       AwsCredentials c \<Rightarrow> returnM c
     | _ \<Rightarrow> throwM (unexpected_response (crates P) resp))"

section \<open>The S3 client over the broker\<close>

definition load_object ::
    "('w, 'z) platform_scheme \<Rightarrow> endpoint \<Rightarrow> string \<Rightarrow> string \<Rightarrow> ('w, bytes option) io" where
  "load_object P ep bucket key =
     bindM (request_broker P ep (LoadObject bucket key)) (\<lambda>resp.
     case resp of
       Object body \<Rightarrow> returnM body
     | _ \<Rightarrow> throwM (unexpected_response (crates P) resp))"

definition save_object_if_absent ::
    "('w, 'z) platform_scheme \<Rightarrow> endpoint \<Rightarrow> string \<Rightarrow> string \<Rightarrow> bytes \<Rightarrow> ('w, unit) io" where
  "save_object_if_absent P ep bucket key body =
     bindM (request_broker P ep (SaveObjectIfAbsent bucket key body)) (\<lambda>resp.
     case resp of
       Saved \<Rightarrow> returnM ()
     | _ \<Rightarrow> throwM (unexpected_response (crates P) resp))"

section \<open>Events of a request\<close>

text \<open>
  A request makes connection calls, then sends its one frame at most once; without that frame it
  fails.
\<close>

definition requests_of :: "event list \<Rightarrow> broker_request list" where
  "requests_of evs = concat (map (\<lambda>ev. case ev of Send _ rq \<Rightarrow> [rq] | _ \<Rightarrow> []) evs)"

lemma requests_of_simps [simp]:
  "requests_of [] = []"
  "requests_of (Send ep rq # evs) = rq # requests_of evs"
  "requests_of (evs @ evs') = requests_of evs @ requests_of evs'"
  "connecting ev \<Longrightarrow> requests_of (ev # evs) = requests_of evs"
  by (auto simp: requests_of_def elim: connecting.elims)

lemma requests_of_connecting: "list_all connecting evs \<Longrightarrow> requests_of evs = []"
  by (induction evs) auto

definition requesting :: "endpoint \<Rightarrow> broker_request \<Rightarrow> event \<Rightarrow> bool" where
  "requesting ep rq ev \<longleftrightarrow> connecting ev \<or> ev = Send ep rq"

lemma emits_request_broker:
  "emits (request_broker P ep rq)
     (\<lambda>evs r. list_all (requesting ep rq) evs
        \<and> (requests_of evs = [rq] \<or> requests_of evs = [] \<and> \<not> is_ok r) \<and> \<not> panics r)"
proof -
  have resp: "emits (case resp of Error m \<Rightarrow> throwM (Err m) | _ \<Rightarrow> returnM resp)
      (\<lambda>evs r. evs = [] \<and> \<not> panics r)" for resp
    by (cases resp) (auto intro!: emits_returnM emits_throwM)
  have connect: "emits (connect_endpoint P ep) (\<lambda>evs r. list_all connecting evs \<and> \<not> panics r)"
    using confined_connect_endpoint [of connecting P ep] panic_free_connect_endpoint [of P ep]
    unfolding confined_def emits_def panic_free_def by (metis fst_conv)
  have connecting_evs: "list_all (requesting ep rq) evs \<and> requests_of evs = []"
    if "list_all connecting evs" for evs
    using that by (auto simp: requesting_def requests_of_connecting elim: list.pred_mono_strong)
  show ?thesis
    unfolding request_broker_def
  proof (rule emits_bindM [OF connect])
    fix evs st
    assume "list_all connecting evs \<and> \<not> panics (Inr st :: stream app_result)"
    then have evs: "list_all (requesting ep rq) evs" "requests_of evs = []"
      using connecting_evs by blast+
    have sent: "requesting ep rq (Send ep rq)"
      by (simp add: requesting_def)
    show "emits (bindM (liftM (write_json_frame (request_to_json (crates P)) rq)) (\<lambda>frame.
        bindM (callM (Send ep rq) (exchange P st frame)) (\<lambda>received.
        bindM (liftM (lib_result received)) (\<lambda>input.
        bindM (liftM (read_json_frame (response_of_json (crates P)) input)) (\<lambda>(resp, _).
        case resp of Error m \<Rightarrow> throwM (Err m) | _ \<Rightarrow> returnM resp)))))
      (\<lambda>evs' r. list_all (requesting ep rq) (evs @ evs')
        \<and> (requests_of (evs @ evs') = [rq] \<or> requests_of (evs @ evs') = [] \<and> \<not> is_ok r) \<and> \<not> panics r)"
      by (intro emits_liftM_bind emits_callM_bind)
        (auto simp: evs sent split: prod.split intro!: emits_mono [OF resp])
  qed (auto dest: connecting_evs)
qed

lemma confined_request_broker [confined_intros]:
  assumes "\<And>ev. requesting ep rq ev \<Longrightarrow> A ev"
  shows "confined A (request_broker P ep rq)"
  unfolding confined_def
  by (rule emits_mono [OF emits_request_broker]) (auto elim!: list.pred_mono_strong intro: assms)

lemma panic_free_request_broker [panic_free_intros]: "panic_free (request_broker P ep rq)"
  using emits_request_broker [of P ep rq]
  unfolding emits_def panic_free_def by (metis surjective_pairing)

text \<open>The four typed wrappers send the request they are named after and nothing else.\<close>

lemma emits_typed_request:
  assumes "\<And>resp. emits (k resp) (\<lambda>evs r. evs = [] \<and> \<not> panics r)"
  shows "emits (bindM (request_broker P ep rq) k)
    (\<lambda>evs r. list_all (requesting ep rq) evs
        \<and> (requests_of evs = [rq] \<or> requests_of evs = [] \<and> \<not> is_ok r) \<and> \<not> panics r)"
  by (rule emits_bindM [OF emits_request_broker]) (auto intro!: emits_mono [OF assms])

lemma emits_load_object:
  "emits (load_object P ep b k)
    (\<lambda>evs r. list_all (requesting ep (LoadObject b k)) evs
        \<and> (requests_of evs = [LoadObject b k] \<or> requests_of evs = [] \<and> \<not> is_ok r) \<and> \<not> panics r)"
  unfolding load_object_def
  by (rule emits_typed_request)
    (auto intro!: emits_returnM emits_throwM simp: unexpected_response_def split: broker_response.split)

lemma emits_save_object_if_absent:
  "emits (save_object_if_absent P ep b k body)
    (\<lambda>evs r. list_all (requesting ep (SaveObjectIfAbsent b k body)) evs
        \<and> (requests_of evs = [SaveObjectIfAbsent b k body] \<or> requests_of evs = [] \<and> \<not> is_ok r)
        \<and> \<not> panics r)"
  unfolding save_object_if_absent_def
  by (rule emits_typed_request)
    (auto intro!: emits_returnM emits_throwM simp: unexpected_response_def split: broker_response.split)

lemma emits_request_broker_credentials:
  "emits (request_broker_credentials P ep sl)
    (\<lambda>evs r. list_all (requesting ep (GetAwsCredentials sl)) evs
        \<and> (requests_of evs = [GetAwsCredentials sl] \<or> requests_of evs = [] \<and> \<not> is_ok r) \<and> \<not> panics r)"
  unfolding request_broker_credentials_def
  by (rule emits_typed_request)
    (auto intro!: emits_returnM emits_throwM simp: unexpected_response_def split: broker_response.split)

lemma emits_request_broker_settings:
  "emits (request_broker_settings P ep)
    (\<lambda>evs r. list_all (requesting ep GetSettings) evs
        \<and> (requests_of evs = [GetSettings] \<or> requests_of evs = [] \<and> \<not> is_ok r) \<and> \<not> panics r)"
  unfolding request_broker_settings_def
  by (rule emits_typed_request)
    (auto intro!: emits_returnM emits_throwM simp: unexpected_response_def split: broker_response.split)

section \<open>Property\<close>

text \<open>
  Property C35. Secrets do not reach an error text or a log: two credential responses that agree on
  region, expiry and on whether there is a session token have the same \<open>Debug\<close> output, so the
  error for an unexpected response (the only place that formats one) is the same whatever the key
  identifier, the secret key and the token are.
\<close>

theorem credentials_redacted:
  "unexpected_response L (AwsCredentials
      \<lparr>cred_region = r, access_key_id = a, secret_access_key = s, session_token = Some t,
       expires_at_epoch_seconds = x\<rparr>) =
   unexpected_response L (AwsCredentials
      \<lparr>cred_region = r, access_key_id = a', secret_access_key = s', session_token = Some t',
       expires_at_epoch_seconds = x\<rparr>)
   \<and> unexpected_response L (AwsCredentials
      \<lparr>cred_region = r, access_key_id = a, secret_access_key = s, session_token = None,
       expires_at_epoch_seconds = x\<rparr>) =
   unexpected_response L (AwsCredentials
      \<lparr>cred_region = r, access_key_id = a', secret_access_key = s', session_token = None,
       expires_at_epoch_seconds = x\<rparr>)"
  by (simp add: unexpected_response_def debug_credentials_def)

end
