(* ===== verification/Key_Crypto.thy ===== *)
theory Key_Crypto
  imports Settings_Env
begin

text \<open>
  The pure helpers around the key material, from \<open>src/src/lib.rs\<close> and
  \<open>src/src/key_material.rs\<close>: AES-GCM with the key size chosen by length, base64 and
  fixed-length decoding, digests as text, and the names derived from a key ARN.
\<close>

section \<open>AES-GCM\<close>

definition unsupported_key_length :: "nat \<Rightarrow> app_error" where
  "unsupported_key_length n =
     Err (''unsupported plaintext data key length '' @ show_nat n @ ''; expected 16 or 32 bytes'')"

definition encrypt_private_key :: "libs \<Rightarrow> bytes \<Rightarrow> bytes \<Rightarrow> bytes \<Rightarrow> bytes app_result" where
  "encrypt_private_key L data_key nonce private_key =
     (if length data_key = 16 then lib_result (aes128_encrypt L data_key nonce private_key)
      else if length data_key = 32 then lib_result (aes256_encrypt L data_key nonce private_key)
      else Inl (unsupported_key_length (length data_key)))"

definition decrypt_private_key :: "libs \<Rightarrow> bytes \<Rightarrow> bytes \<Rightarrow> bytes \<Rightarrow> bytes app_result" where
  "decrypt_private_key L data_key nonce encrypted_private_key =
     (if length data_key = 16
      then lib_result (aes128_decrypt L data_key nonce encrypted_private_key)
      else if length data_key = 32
      then lib_result (aes256_decrypt L data_key nonce encrypted_private_key)
      else Inl (unsupported_key_length (length data_key)))"

definition unsupported_data_key_length :: "nat \<Rightarrow> app_error" where
  "unsupported_data_key_length n =
     Err (''unsupported plaintext data key length '' @ show_nat n
          @ ''; use KMS_KEY_SPEC=AES_128/AES_256 or KMS_NUMBER_OF_BYTES=16/32'')"

definition validate_data_key_len :: "bytes \<Rightarrow> unit app_result" where
  "validate_data_key_len data_key =
     (if length data_key = 16 \<or> length data_key = 32 then Inr ()
      else Inl (unsupported_data_key_length (length data_key)))"

section \<open>Decoding\<close>

definition invalid_base64 :: "string \<Rightarrow> string \<Rightarrow> app_error" where
  "invalid_base64 name e = Err (name @ '' is not valid base64: '' @ e)"

definition decode_base64 :: "libs \<Rightarrow> string \<Rightarrow> string \<Rightarrow> bytes app_result" where
  "decode_base64 L name v = map_err (invalid_base64 name) (base64_decode L v)"

definition wrong_length :: "string \<Rightarrow> nat \<Rightarrow> nat \<Rightarrow> app_error" where
  "wrong_length name n m =
     Err (name @ '' must be '' @ show_nat n @ '' bytes, got '' @ show_nat m)"

definition fixed_bytes :: "nat \<Rightarrow> string \<Rightarrow> bytes \<Rightarrow> bytes app_result" where
  "fixed_bytes n name bs =
     (if length bs = n then Inr bs else Inl (wrong_length name n (length bs)))"

definition decode_fixed_base64 :: "libs \<Rightarrow> nat \<Rightarrow> string \<Rightarrow> string \<Rightarrow> bytes app_result" where
  "decode_fixed_base64 L n name v = bind_result (decode_base64 L name v) (fixed_bytes n name)"

section \<open>Digests\<close>

definition sha256_hex :: "libs \<Rightarrow> bytes \<Rightarrow> string" where
  "sha256_hex L bs = hex_of (sha256 L bs)"

definition sha256_mismatch :: "string \<Rightarrow> string \<Rightarrow> string \<Rightarrow> app_error" where
  "sha256_mismatch name expected actual =
     Err (name @ '' SHA-256 mismatch: expected '' @ expected @ '', got '' @ actual)"

definition verify_sha256 :: "libs \<Rightarrow> string \<Rightarrow> bytes \<Rightarrow> string \<Rightarrow> unit app_result" where
  "verify_sha256 L name body expected =
     (let actual = sha256_hex L body
      in if actual \<noteq> expected then Inl (sha256_mismatch name expected actual) else Inr ())"

section \<open>Names derived from a key ARN\<close>

definition no_key_id :: "string \<Rightarrow> app_error" where
  "no_key_id arn = Err (''KMS key ARN must contain a non-empty key ID: '' @ arn)"

definition unsafe_key_id :: "string \<Rightarrow> app_error" where
  "unsafe_key_id arn = Err (''KMS key ARN contains an unsafe key ID: '' @ arn)"

text \<open>A byte of a multi-byte character is neither alphanumeric nor a hyphen, as the character.\<close>

definition safe_char :: "char \<Rightarrow> bool" where
  "safe_char c =
     (let n = (of_char c :: nat)
      in (48 \<le> n \<and> n \<le> 57) \<or> (65 \<le> n \<and> n \<le> 90) \<or> (97 \<le> n \<and> n \<le> 122) \<or> c = CHR ''-'')"

definition kms_key_display_id :: "string \<Rightarrow> string app_result" where
  "kms_key_display_id arn =
     (case split_once '':key/'' arn of
        None \<Rightarrow> Inl (no_key_id arn)
      | Some (_, key_id) \<Rightarrow>
          if key_id = [] then Inl (no_key_id arn)
          else if \<not> list_all safe_char key_id then Inl (unsafe_key_id arn)
          else Inr (rev (take 8 (rev key_id))))"

text \<open>\<open>&arn_hash[..12]\<close> panics on a shorter string.\<close>

definition slice_to :: "nat \<Rightarrow> string \<Rightarrow> string app_result" where
  "slice_to n s =
     (if n \<le> length s then Inr (take n s) else Inl (Panic ''byte index out of range''))"

definition kms_key_storage_id :: "libs \<Rightarrow> string \<Rightarrow> string app_result" where
  "kms_key_storage_id L arn =
     bind_result (kms_key_display_id arn) (\<lambda>display_id.
     bind_result (slice_to 12 (sha256_hex L (as_bytes arn))) (\<lambda>h.
     Inr (display_id @ ''-'' @ h)))"

definition join_key :: "string \<Rightarrow> string \<Rightarrow> string" where
  "join_key pfx relative = pfx @ ''/'' @ relative"

section \<open>Lemmas\<close>

lemma length_sha256_hex: "libs_ok L \<Longrightarrow> length (sha256_hex L bs) = 64"
  by (simp add: sha256_hex_def libs_sha256)

lemma sha256_hex_eq: "sha256_hex L a = sha256_hex L b \<longleftrightarrow> sha256 L a = sha256 L b"
  by (simp add: sha256_hex_def)

lemma verify_sha256_Inr [simp]: "verify_sha256 L name body h = Inr x \<longleftrightarrow> sha256_hex L body = h"
  by (simp add: verify_sha256_def Let_def)

lemma fixed_bytes_Inr [simp]: "fixed_bytes n name bs = Inr x \<longleftrightarrow> length bs = n \<and> x = bs"
  by (auto simp: fixed_bytes_def)

lemma validate_data_key_len_Inr [simp]:
  "validate_data_key_len k = Inr x \<longleftrightarrow> length k = 16 \<or> length k = 32"
  by (simp add: validate_data_key_len_def)

lemma decode_base64_Inr [simp]: "decode_base64 L name v = Inr b \<longleftrightarrow> base64_decode L v = Inr b"
  by (simp add: decode_base64_def)

lemma crypto_no_panic [simp]:
  "\<not> panics (encrypt_private_key L dk n pk)"
  "\<not> panics (decrypt_private_key L dk n c)"
  "\<not> panics (validate_data_key_len dk)"
  "\<not> panics (decode_base64 L name v)"
  "\<not> panics (fixed_bytes k name bs)"
  "\<not> panics (decode_fixed_base64 L k name v)"
  "\<not> panics (verify_sha256 L name body h)"
  "\<not> panics (kms_key_display_id arn)"
proof -
  show fb: "\<not> panics (fixed_bytes k name bs)" for k name bs
    by (simp add: fixed_bytes_def wrong_length_def)
  show db: "\<not> panics (decode_base64 L name v)" for v
    by (cases "base64_decode L v") (simp_all add: decode_base64_def invalid_base64_def)
  show "\<not> panics (decode_fixed_base64 L k name v)"
    by (simp add: decode_fixed_base64_def fb db)
qed (auto simp: encrypt_private_key_def decrypt_private_key_def unsupported_key_length_def
  validate_data_key_len_def unsupported_data_key_length_def verify_sha256_def sha256_mismatch_def
  Let_def kms_key_display_id_def no_key_id_def unsafe_key_id_def split: option.splits)

lemma kms_key_storage_id_no_panic: "libs_ok L \<Longrightarrow> \<not> panics (kms_key_storage_id L arn)"
  by (simp add: kms_key_storage_id_def slice_to_def length_sha256_hex)

lemma hex_digit_safe: "d < 16 \<Longrightarrow> safe_char (hex_digit d)"
  by (auto simp: safe_char_def hex_digit_def Let_def)

lemma hex_of_safe: "c \<in> set (hex_of bs) \<Longrightarrow> safe_char c"
proof -
  have "unat (b :: byte) div 16 < 16" for b
    using unsigned_less [where ?'a = nat, of b] by (simp add: less_mult_imp_div_less)
  then show "c \<in> set (hex_of bs) \<Longrightarrow> safe_char c"
    by (auto simp: hex_of_def hex_byte_def intro: hex_digit_safe)
qed

lemma take_hex_of: "take (2 * n) (hex_of bs) = hex_of (take n bs)"
proof (induction bs arbitrary: n)
  case (Cons b bs)
  then show ?case by (cases n) (simp_all add: hex_of_def hex_byte_def)
qed (simp add: hex_of_def)

lemma kms_key_display_id_Inr:
  "kms_key_display_id arn = Inr d \<Longrightarrow>
     length d \<le> 8 \<and> d \<noteq> [] \<and> list_all safe_char d \<and> suffix d arn"
proof -
  assume "kms_key_display_id arn = Inr d"
  then obtain a k where k: "split_once '':key/'' arn = Some (a, k)" "k \<noteq> []" "list_all safe_char k"
    and d: "d = rev (take 8 (rev k))"
    by (auto simp: kms_key_display_id_def split: option.splits if_splits)
  then have drop: "d = drop (length k - 8) k"
    by (simp add: take_rev)
  then have "suffix d k" "set d \<subseteq> set k"
    by (simp_all add: suffix_drop set_drop_subset)
  have "arn = a @ '':key/'' @ k"
    by (rule split_once_Some [OF k(1)])
  then have "suffix k arn"
    unfolding suffix_def by (metis append_assoc)
  with \<open>suffix d k\<close> have "suffix d arn"
    by (rule suffix_order.trans)
  moreover have "length d \<le> 8" "d \<noteq> []"
    using k(2) by (cases k; simp add: drop)+
  moreover have "list_all safe_char d"
    using k(3) \<open>set d \<subseteq> set k\<close> by (auto simp: list_all_iff)
  ultimately show ?thesis by blast
qed

lemma decrypt_encrypt_private_key:
  assumes "libs_ok L" and "encrypt_private_key L data_key nonce x = Inr c"
  shows "decrypt_private_key L data_key nonce c = Inr x \<and> (length data_key = 16 \<or> length data_key = 32)"
  using assms(2) libs_aes128 [OF assms(1)] libs_aes256 [OF assms(1)]
  by (auto simp: encrypt_private_key_def decrypt_private_key_def split: if_splits)

section \<open>Properties\<close>

text \<open>
  Property C29. Decrypting what was encrypted under the same data key and nonce gives the private key
  back, for both key sizes, and encryption succeeds under keys of 16 or 32 bytes only.
\<close>

theorem private_key_roundtrip:
  assumes "libs_ok L" and "encrypt_private_key L data_key nonce private_key = Inr c"
  shows "decrypt_private_key L data_key nonce c = Inr private_key
    \<and> (length data_key = 16 \<or> length data_key = 32)"
  by (rule decrypt_encrypt_private_key [OF assms])

text \<open>
  Property C30. The storage name of a key is safe and distinguishing: it consists of at most eight
  trailing characters of the ARN, a hyphen and twelve hexadecimal digits, of letters, digits and
  hyphens only (so it adds no path component), and two ARNs share it only if they share those
  trailing characters and the first six bytes of their SHA-256 digests. Computing it never panics.
\<close>

theorem storage_id_safe_and_distinct:
  assumes "libs_ok L"
    and "kms_key_storage_id L arn = Inr sid"
    and "kms_key_storage_id L arn' = Inr sid"
  shows "list_all safe_char sid \<and> 14 \<le> length sid \<and> length sid \<le> 21
    \<and> kms_key_display_id arn = kms_key_display_id arn'
    \<and> take 6 (sha256 L (as_bytes arn)) = take 6 (sha256 L (as_bytes arn'))"
proof -
  have shape: "\<exists>d. kms_key_display_id a = Inr d
      \<and> sid = d @ ''-'' @ hex_of (take 6 (sha256 L (as_bytes a)))"
    if "kms_key_storage_id L a = Inr sid" for a
    using that length_sha256_hex [OF assms(1), of "as_bytes a"] take_hex_of [of 6 "sha256 L (as_bytes a)"]
    by (auto simp: kms_key_storage_id_def slice_to_def sha256_hex_def)
  from shape [OF assms(2)] obtain d where d: "kms_key_display_id arn = Inr d"
    "sid = d @ ''-'' @ hex_of (take 6 (sha256 L (as_bytes arn)))" by blast
  from shape [OF assms(3)] obtain d' where d': "kms_key_display_id arn' = Inr d'"
    "sid = d' @ ''-'' @ hex_of (take 6 (sha256 L (as_bytes arn')))" by blast
  have len: "length (hex_of (take 6 (sha256 L a))) = 12" for a
    using libs_sha256 [OF assms(1), of a] by simp
  define h h' where "h = hex_of (take 6 (sha256 L (as_bytes arn)))"
    and "h' = hex_of (take 6 (sha256 L (as_bytes arn')))"
  have "d @ (''-'' @ h) = d' @ (''-'' @ h')" "length (''-'' @ h) = length (''-'' @ h')"
    using d(2) d'(2) len by (simp_all add: h_def h'_def)
  then have "d = d' \<and> ''-'' @ h = ''-'' @ h'"
    using append_eq_append_conv by blast
  then have "d = d'" and eq: "take 6 (sha256 L (as_bytes arn)) = take 6 (sha256 L (as_bytes arn'))"
    by (simp_all add: h_def h'_def)
  moreover have "safe_char (CHR ''-'')"
    by (simp add: safe_char_def)
  moreover have "length d \<le> 8" "d \<noteq> []" "list_all safe_char d"
    using kms_key_display_id_Inr [OF d(1)] by auto
  ultimately show ?thesis
    using d(1) d'(1) d(2) len [of "as_bytes arn"] hex_of_safe [of _ "take 6 (sha256 L (as_bytes arn))"]
    by (cases d) (auto simp: list_all_iff simp del: length_hex_of)
qed

end
