(* ===== verification/World_Laws.thy ===== *)
theory World_Laws
  imports Broker_Client Key_Crypto
begin

text \<open>
  Reasoning about what operations do to the world: \<open>moves R m\<close> says that every run of \<open>m\<close>
  goes from a world to a related one, for a preorder \<open>R\<close> such as the growth of an object store,
  and \<open>calls_keep P R\<close> that each call of the enclave process does.
\<close>

section \<open>Runs and a preorder of worlds\<close>

named_theorems moves_intros \<open>composition rules for the effect of operations on the world\<close>

definition moves :: "('w \<Rightarrow> 'w \<Rightarrow> bool) \<Rightarrow> ('w, 'a) io \<Rightarrow> bool" where
  "moves R m \<longleftrightarrow> (\<forall>s r t. m s = (r, t) \<longrightarrow> R (world s) (world t))"

definition preorder_on_worlds :: "('w \<Rightarrow> 'w \<Rightarrow> bool) \<Rightarrow> bool" where
  "preorder_on_worlds R \<longleftrightarrow> reflp R \<and> transp R"

lemma movesD: "moves R m \<Longrightarrow> m s = (r, t) \<Longrightarrow> R (world s) (world t)"
  unfolding moves_def by blast

lemma preorder_refl [simp]: "preorder_on_worlds R \<Longrightarrow> R w w"
  by (simp add: preorder_on_worlds_def reflpD)

lemma preorder_trans: "preorder_on_worlds R \<Longrightarrow> R u v \<Longrightarrow> R v w \<Longrightarrow> R u w"
  by (auto simp: preorder_on_worlds_def dest: transpD)

lemma moves_returnM [moves_intros]: "preorder_on_worlds R \<Longrightarrow> moves R (returnM x)"
  by (simp add: moves_def)

lemma moves_throwM [moves_intros]: "preorder_on_worlds R \<Longrightarrow> moves R (throwM e)"
  by (simp add: moves_def)

lemma moves_liftM [moves_intros]: "preorder_on_worlds R \<Longrightarrow> moves R (liftM r)"
  by (simp add: moves_def liftM_def)

lemma moves_callM [moves_intros]: "(\<And>w. R w (snd (f w))) \<Longrightarrow> moves R (callM ev f)"
  by (simp add: moves_def callM_run)

lemma moves_emitM [moves_intros]: "preorder_on_worlds R \<Longrightarrow> moves R (emitM ev)"
  by (simp add: moves_def)

lemma moves_bindM [moves_intros]:
  assumes "preorder_on_worlds R" and "moves R m" and "\<And>x. moves R (k x)"
  shows "moves R (bindM m k)"
  unfolding moves_def
proof (intro allI impI)
  fix s r t
  assume run: "bindM m k s = (r, t)"
  obtain r1 u where m: "m s = (r1, u)" by force
  note first = movesD [OF assms(2) m]
  show "R (world s) (world t)"
  proof (cases r1)
    case (Inl e)
    with run m first show ?thesis by (simp add: bindM_def)
  next
    case (Inr x)
    with run m have "k x u = (r, t)" by (simp add: bindM_def)
    from preorder_trans [OF assms(1) first movesD [OF assms(3) this]] show ?thesis .
  qed
qed

lemma moves_attemptM [moves_intros]: "moves R m \<Longrightarrow> moves R (attemptM m)"
  unfolding moves_def attemptM_def by (fastforce split: prod.splits sum.splits app_error.splits)

lemma moves_if [moves_intros]: "moves R m \<Longrightarrow> moves R n \<Longrightarrow> moves R (if b then m else n)"
  by simp

lemma moves_whenM [moves_intros]:
  "preorder_on_worlds R \<Longrightarrow> moves R m \<Longrightarrow> moves R (whenM b m)"
  by (simp add: whenM_def moves_returnM)

section \<open>The calls of the enclave process\<close>

definition calls_keep :: "('w, 'z) platform_scheme \<Rightarrow> ('w \<Rightarrow> 'w \<Rightarrow> bool) \<Rightarrow> bool" where
  "calls_keep P R \<longleftrightarrow>
     preorder_on_worlds R
     \<and> (\<forall>a w. R w (snd (tcp_connect P a w)))
     \<and> (\<forall>d ty pr w. R w (snd (sys_socket P d ty pr w)))
     \<and> (\<forall>fd a n w. R w (snd (sys_connect P fd a n w)))
     \<and> (\<forall>fd w. R w (snd (sys_close P fd w)))
     \<and> (\<forall>st bs w. R w (snd (exchange P st bs w)))
     \<and> (\<forall>c rq w. R w (snd (kms_generate P c rq w)))
     \<and> (\<forall>c rq w. R w (snd (kms_decrypt P c rq w)))
     \<and> (\<forall>c k n w. R w (snd (nkms_generate P c k n w)))
     \<and> (\<forall>c b x w. R w (snd (nkms_decrypt P c b x w)))
     \<and> (\<forall>n w. R w (snd (random_bytes P n w)))"

lemma calls_keepD:
  assumes "calls_keep P R"
  shows calls_keep_preorder: "preorder_on_worlds R"
    and calls_keep_tcp_connect: "R w (snd (tcp_connect P a w))"
    and calls_keep_socket: "R w (snd (sys_socket P d ty pr w))"
    and calls_keep_connect: "R w (snd (sys_connect P fd addr len w))"
    and calls_keep_close: "R w (snd (sys_close P fd w))"
    and calls_keep_exchange: "R w (snd (exchange P st bs w))"
    and calls_keep_generate: "R w (snd (kms_generate P cr rq w))"
    and calls_keep_decrypt: "R w (snd (kms_decrypt P cr rq w))"
    and calls_keep_nitro_generate: "R w (snd (nkms_generate P nc k n w))"
    and calls_keep_nitro_decrypt: "R w (snd (nkms_decrypt P nc bs x w))"
    and calls_keep_random: "R w (snd (random_bytes P m w))"
  using assms by (simp_all add: calls_keep_def)

lemma moves_close_with_error [moves_intros]:
  assumes "preorder_on_worlds R" and "\<And>w. R w (snd (sys_close P fd w))"
  shows "moves R (close_with_error P fd)"
  using assms(2) by (auto simp: moves_def close_with_error_def io_simps)

lemma moves_os_error [moves_intros]: "preorder_on_worlds R \<Longrightarrow> moves R (os_error P)"
  by (simp add: moves_def os_error_def)

lemma moves_connect_endpoint:
  assumes "calls_keep P R"
  shows "moves R (connect_endpoint P ep)"
  unfolding connect_endpoint_defs Let_def
  by (cases ep) (auto intro!: moves_intros simp: calls_keepD [OF assms])

lemma moves_response_case:
  assumes "preorder_on_worlds R"
  shows "moves R (case resp of Error m \<Rightarrow> throwM (Err m) | _ \<Rightarrow> returnM resp)"
  by (cases resp) (auto intro!: moves_intros assms)

lemma moves_request_broker:
  assumes "calls_keep P R"
  shows "moves R (request_broker P ep rq)"
  unfolding request_broker_def
  by (auto intro!: moves_intros moves_connect_endpoint moves_response_case split: prod.split
    simp: calls_keepD [OF assms] assms)

lemma moves_request_broker_credentials:
  assumes "calls_keep P R"
  shows "moves R (request_broker_credentials P ep sl)"
  unfolding request_broker_credentials_def
  by (intro moves_intros moves_request_broker calls_keep_preorder [OF assms] assms)
    (auto split: broker_response.split intro!: moves_intros calls_keep_preorder [OF assms])

lemma moves_load_object:
  assumes "calls_keep P R"
  shows "moves R (load_object P ep b k)"
  unfolding load_object_def
  by (intro moves_intros moves_request_broker calls_keep_preorder [OF assms] assms)
    (auto split: broker_response.split intro!: moves_intros calls_keep_preorder [OF assms])

lemma moves_save_object_if_absent:
  assumes "calls_keep P R"
  shows "moves R (save_object_if_absent P ep b k body)"
  unfolding save_object_if_absent_def
  by (intro moves_intros moves_request_broker calls_keep_preorder [OF assms] assms)
    (auto split: broker_response.split intro!: moves_intros calls_keep_preorder [OF assms])

section \<open>Maps that grow\<close>

definition grows :: "('w \<Rightarrow> 'k \<rightharpoonup> 'v) \<Rightarrow> 'w \<Rightarrow> 'w \<Rightarrow> bool" where
  "grows m w w' \<longleftrightarrow> m w \<subseteq>\<^sub>m m w'"

lemma preorder_grows [simp]: "preorder_on_worlds (grows m)"
  unfolding preorder_on_worlds_def grows_def
  by (blast intro: reflpI transpI map_le_refl map_le_trans)

lemma grows_Some: "grows m w w' \<Longrightarrow> m w x = Some y \<Longrightarrow> m w' x = Some y"
  by (metis domI grows_def map_le_def)

lemma grows_trans: "grows m u v \<Longrightarrow> grows m v w \<Longrightarrow> grows m u w"
  by (auto simp: grows_def intro: map_le_trans)

lemma preorder_conj:
  "preorder_on_worlds R \<Longrightarrow> preorder_on_worlds S \<Longrightarrow> preorder_on_worlds (\<lambda>w w'. R w w' \<and> S w w')"
  unfolding preorder_on_worlds_def reflp_def transp_def by blast

lemma calls_keep_conj:
  assumes "calls_keep P R" and "calls_keep P S"
  shows "calls_keep P (\<lambda>w w'. R w w' \<and> S w w')"
  unfolding calls_keep_def
  by (simp add: preorder_conj calls_keepD [OF assms(1)] calls_keepD [OF assms(2)])

end
