(* ===== verification/Kms_Clients.thy ===== *)
theory Kms_Clients
  imports World_Laws
begin

text \<open>
  The two ways of reaching AWS KMS: the AWS SDK (\<open>call_generate_data_key\<close> and
  \<open>call_decrypt_data_key\<close> of \<open>src/src/key_material.rs\<close>) and the native Nitro shim
  (\<open>src/src/nitro_kms.rs\<close>), and the enum \<open>KmsDataKeyClient\<close> that chooses between them.
  Every use first fetches the credentials of the key's slot from the broker.
\<close>

section \<open>The AWS SDK client\<close>

text \<open>
  The configuration of the SDK client: the credentials and the region of the slot, without an
  expiry.
\<close>

definition local_kms_client :: "aws_credentials \<Rightarrow> aws_credentials" where
  "local_kms_client c = c\<lparr>expires_at_epoch_seconds := None\<rparr>"

definition new_request :: sdk_request where
  "new_request = \<lparr>sdk_key_id = None, sdk_ciphertext = None, sdk_spec = None, sdk_bytes = None,
     sdk_context = None, sdk_tokens = [], sdk_dry_run = None\<rparr>"

fun if_let :: "'a option \<Rightarrow> ('a \<Rightarrow> 'b \<Rightarrow> 'b) \<Rightarrow> 'b \<Rightarrow> 'b" where
  "if_let None f rq = rq"
| "if_let (Some x) f rq = f x rq"

text \<open>The builder steps in their order.\<close>

definition generate_request :: "kms_request \<Rightarrow> sdk_request" where
  "generate_request rs =
     (let rq = new_request\<lparr>sdk_key_id := Some (kms_key_id rs)\<rparr>;
          rq = if_let (spec rs) (\<lambda>x rq. rq\<lparr>sdk_spec := Some x\<rparr>) rq;
          rq = if_let (request_bytes rs) (\<lambda>x rq. rq\<lparr>sdk_bytes := Some x\<rparr>) rq;
          rq = if_let (request_context rs) (\<lambda>x rq. rq\<lparr>sdk_context := Some x\<rparr>) rq;
          rq = fold (\<lambda>t rq. rq\<lparr>sdk_tokens := sdk_tokens rq @ [t]\<rparr>) (request_tokens rs) rq
      in if_let (request_dry_run rs) (\<lambda>x rq. rq\<lparr>sdk_dry_run := Some x\<rparr>) rq)"

definition decrypt_request :: "kms_request \<Rightarrow> bytes \<Rightarrow> sdk_request" where
  "decrypt_request rs encrypted_key =
     (let rq = new_request\<lparr>sdk_ciphertext := Some encrypted_key\<rparr>\<lparr>sdk_key_id := Some (kms_key_id rs)\<rparr>;
          rq = if_let (request_context rs) (\<lambda>x rq. rq\<lparr>sdk_context := Some x\<rparr>) rq;
          rq = fold (\<lambda>t rq. rq\<lparr>sdk_tokens := sdk_tokens rq @ [t]\<rparr>) (request_tokens rs) rq
      in if_let (request_dry_run rs) (\<lambda>x rq. rq\<lparr>sdk_dry_run := Some x\<rparr>) rq)"

definition no_plaintext :: app_error where
  "no_plaintext = Err ''KMS GenerateDataKey response did not include plaintext data key''"

definition no_encrypted_key :: app_error where
  "no_encrypted_key = Err ''KMS GenerateDataKey response did not include encrypted data key''"

definition no_decrypted_key :: app_error where
  "no_decrypted_key = Err ''KMS Decrypt response did not include plaintext data key''"

definition call_generate_data_key ::
    "('w, 'z) platform_scheme \<Rightarrow> aws_credentials \<Rightarrow> kms_request \<Rightarrow> ('w, generated_data_key) io" where
  "call_generate_data_key P client rs =
     bindM (callM (Kms_Generate client (generate_request rs))
             (kms_generate P client (generate_request rs))) (\<lambda>sent.
     bindM (liftM (lib_result sent)) (\<lambda>output.
     bindM (liftM (ok_or no_plaintext (output_plaintext output))) (\<lambda>plaintext.
     bindM (liftM (ok_or no_encrypted_key (output_ciphertext output))) (\<lambda>encrypted.
     returnM \<lparr>plaintext_data_key = plaintext, encrypted_data_key = encrypted,
       generated_key_id =
         (case output_key_id output of Some k \<Rightarrow> k | None \<Rightarrow> kms_key_id rs)\<rparr>))))"

definition call_decrypt_data_key ::
    "('w, 'z) platform_scheme \<Rightarrow> aws_credentials \<Rightarrow> kms_request \<Rightarrow> bytes \<Rightarrow> ('w, bytes) io" where
  "call_decrypt_data_key P client rs encrypted_key =
     bindM (callM (Kms_Decrypt client (decrypt_request rs encrypted_key))
             (kms_decrypt P client (decrypt_request rs encrypted_key))) (\<lambda>sent.
     bindM (liftM (lib_result sent)) (\<lambda>output.
     liftM (ok_or no_decrypted_key output)))"

section \<open>The Nitro client\<close>

definition grant_tokens_unsupported :: app_error where
  "grant_tokens_unsupported =
     Err ''KMS_GRANT_TOKENS is not supported by the Nitro C SDK high-level data-key API''"

definition dry_run_unsupported :: app_error where
  "dry_run_unsupported =
     Err ''KMS_DRY_RUN=true is not supported when RUNNING_IN_ENCLAVE=true''"

definition validate_common_options :: "parent_settings \<Rightarrow> unit app_result" where
  "validate_common_options ps =
     (if grant_tokens ps \<noteq> [] then Inl grant_tokens_unsupported
      else if dry_run ps = Some True then Inl dry_run_unsupported
      else Inr ())"

definition context_unsupported :: app_error where
  "context_unsupported =
     Err (''KMS_ENCRYPTION_CONTEXT is not supported for GenerateDataKey by the Nitro C SDK ''
          @ ''high-level API'')"

definition unsupported_key_bits :: app_error where
  "unsupported_key_bits = Err ''Nitro KMS data key must be AES_128/AES_256 or 16/32 bytes''"

definition data_key_bits :: "parent_settings \<Rightarrow> u32 app_result" where
  "data_key_bits ps =
     (if (key_spec ps, number_of_bytes ps) = (Some ''AES_128'', None)
         \<or> (key_spec ps, number_of_bytes ps) = (None, Some 16) then Inr 128
      else if (key_spec ps, number_of_bytes ps) = (Some ''AES_256'', None)
         \<or> (key_spec ps, number_of_bytes ps) = (None, Some 32) then Inr 256
      else Inl unsupported_key_bits)"

definition nul_byte :: "string \<Rightarrow> app_error" where
  "nul_byte name = Err (name @ '' contains a NUL byte'')"

definition c_string :: "string \<Rightarrow> string \<Rightarrow> string app_result" where
  "c_string name v = (if CHR 0x00 \<in> set v then Inl (nul_byte name) else Inr v)"

definition native_error :: "string \<Rightarrow> app_error" where
  "native_error message =
     (if message = [] then Err ''Nitro KMS C SDK call failed'' else Err message)"

definition take_native_buffer :: "native_buffer \<Rightarrow> ('w, bytes) io" where
  "take_native_buffer b =
     (let bs = (case buffer_data b of
                  None \<Rightarrow> []
                | Some mem \<Rightarrow> if buffer_len b = 0 then [] else take (buffer_len b) mem)
      in bindM (emitM Nitro_Free) (\<lambda>_. returnM bs))"

text \<open>The C strings both calls make of the credentials, in the order of the code.\<close>

definition native_arguments :: "u32 \<Rightarrow> u32 \<Rightarrow> aws_credentials \<Rightarrow> native_client app_result" where
  "native_arguments cid port c =
     bind_result (c_string ''AWS region'' (cred_region c)) (\<lambda>region.
     bind_result (c_string ''AWS access key ID'' (access_key_id c)) (\<lambda>access.
     bind_result (c_string ''AWS secret access key'' (secret_access_key c)) (\<lambda>secret.
     bind_result (c_string ''AWS session token''
         (case session_token c of Some t \<Rightarrow> t | None \<Rightarrow> [])) (\<lambda>token.
     Inr \<lparr>native_region = region, native_cid = cid, native_port = port,
          native_access_key = access, native_secret_key = secret, native_token = token\<rparr>))))"

definition nitro_generate_data_key ::
    "('w, 'z) platform_scheme \<Rightarrow> u32 \<Rightarrow> u32 \<Rightarrow> parent_settings \<Rightarrow> aws_credentials \<Rightarrow> string
     \<Rightarrow> ('w, generated_data_key) io" where
  "nitro_generate_data_key P cid port ps c key_id =
     bindM (liftM (validate_common_options ps)) (\<lambda>_.
     if encryption_context ps \<noteq> None then throwM context_unsupported else
     bindM (liftM (data_key_bits ps)) (\<lambda>bits.
     bindM (liftM (native_arguments cid port c)) (\<lambda>client.
     bindM (liftM (c_string ''KMS key ID'' key_id)) (\<lambda>key_id_c.
     bindM (callM (Nitro_Generate client key_id_c bits) (nkms_generate P client key_id_c bits)) (\<lambda>out.
     if native_rc out \<noteq> 0 then throwM (native_error (native_error_text out)) else
     bindM (take_native_buffer (native_plaintext out)) (\<lambda>plaintext.
     bindM (take_native_buffer (native_ciphertext out)) (\<lambda>encrypted.
     returnM \<lparr>plaintext_data_key = plaintext, encrypted_data_key = encrypted,
       generated_key_id = key_id\<rparr>)))))))"

definition context_argument :: "libs \<Rightarrow> string_map option \<Rightarrow> string option app_result" where
  "context_argument L ctx =
     bind_result (transpose_result (map_option (\<lambda>m. lib_result (context_to_json L m)) ctx)) (\<lambda>json.
     transpose_result (map_option (c_string ''KMS encryption context'') json))"

definition nitro_decrypt_data_key ::
    "('w, 'z) platform_scheme \<Rightarrow> u32 \<Rightarrow> u32 \<Rightarrow> parent_settings \<Rightarrow> aws_credentials \<Rightarrow> bytes
     \<Rightarrow> ('w, bytes) io" where
  "nitro_decrypt_data_key P cid port ps c encrypted_key =
     bindM (liftM (validate_common_options ps)) (\<lambda>_.
     bindM (liftM (native_arguments cid port c)) (\<lambda>client.
     bindM (liftM (context_argument (crates P) (encryption_context ps))) (\<lambda>ctx.
     bindM (callM (Nitro_Decrypt client encrypted_key ctx)
             (nkms_decrypt P client encrypted_key ctx)) (\<lambda>out.
     if native_rc out \<noteq> 0 then throwM (native_error (native_error_text out)) else
     take_native_buffer (native_plaintext out)))))"

section \<open>KmsDataKeyClient\<close>

datatype kms_client = Local endpoint | Nitro u32 u32 endpoint

definition invalid_kms_mode :: "string \<Rightarrow> app_error" where
  "invalid_kms_mode other =
     Err (''unsupported legacy KMS_MODE '' @ [CHR 0x27] @ other @ [CHR 0x27]
          @ '', expected local-aws or nitro'')"

definition invalid_parent_cid :: app_error where
  "invalid_parent_cid = Err ''NITRO_PARENT_CID must be a u32''"

definition invalid_proxy_port :: app_error where
  "invalid_proxy_port = Err ''NITRO_KMS_PROXY_PORT must be a u32''"

definition nitro_not_built :: app_error where
  "nitro_not_built =
     Err (''RUNNING_IN_ENCLAVE=true requires building decrypt-server-tee with ''
          @ ''--features nitro-enclave'')"

definition running_in_enclave :: "env \<Rightarrow> bool app_result" where
  "running_in_enclave env =
     (case optional_env env ''RUNNING_IN_ENCLAVE'' of
        Some v \<Rightarrow> parse_bool ''RUNNING_IN_ENCLAVE'' v
      | None \<Rightarrow>
          (case optional_env env ''KMS_MODE'' of
             None \<Rightarrow> Inr False
           | Some m \<Rightarrow>
               if m = ''nitro'' then Inr True
               else if m = ''local-aws'' then Inr False
               else Inl (invalid_kms_mode m)))"

definition u32_env :: "env \<Rightarrow> string \<Rightarrow> app_error \<Rightarrow> u32 \<Rightarrow> u32 app_result" where
  "u32_env env name e d =
     (case optional_env env name of
        None \<Rightarrow> Inr d
      | Some v \<Rightarrow> ok_or e (parse_u32 v))"

definition kms_client_from_env :: "('w, 'z) platform_scheme \<Rightarrow> env \<Rightarrow> endpoint \<Rightarrow> kms_client app_result" where
  "kms_client_from_env P env broker_endpoint =
     bind_result (running_in_enclave env) (\<lambda>enclave.
     if \<not> enclave then Inr (Local broker_endpoint)
     else if nitro_enclave P
     then bind_result (u32_env env ''NITRO_PARENT_CID'' invalid_parent_cid default_parent_cid) (\<lambda>cid.
          bind_result (u32_env env ''NITRO_KMS_PROXY_PORT'' invalid_proxy_port
              default_nitro_kms_proxy_port) (\<lambda>port.
          Inr (Nitro cid port broker_endpoint)))
     else Inl nitro_not_built)"

definition generate_data_key ::
    "('w, 'z) platform_scheme \<Rightarrow> kms_client \<Rightarrow> parent_settings \<Rightarrow> kms_key_settings
     \<Rightarrow> ('w, generated_data_key) io" where
  "generate_data_key P client ps key =
     bindM (case client of
              Local broker_endpoint \<Rightarrow> request_broker_credentials P broker_endpoint (slot key)
            | Nitro _ _ broker_endpoint \<Rightarrow> request_broker_credentials P broker_endpoint (slot key))
       (\<lambda>c.
     case client of
       Local _ \<Rightarrow>
         (let sdk_client = local_kms_client c in
         bindM (liftM (kms_request_settings ps (key_arn key))) (\<lambda>rs.
         call_generate_data_key P sdk_client rs))
     | Nitro cid port _ \<Rightarrow> nitro_generate_data_key P cid port ps c (key_arn key))"

definition decrypt_data_key ::
    "('w, 'z) platform_scheme \<Rightarrow> kms_client \<Rightarrow> parent_settings \<Rightarrow> kms_key_settings \<Rightarrow> bytes
     \<Rightarrow> ('w, bytes) io" where
  "decrypt_data_key P client ps key encrypted_key =
     bindM (case client of
              Local broker_endpoint \<Rightarrow> request_broker_credentials P broker_endpoint (slot key)
            | Nitro _ _ broker_endpoint \<Rightarrow> request_broker_credentials P broker_endpoint (slot key))
       (\<lambda>c.
     case client of
       Local _ \<Rightarrow>
         (let sdk_client = local_kms_client c in
         bindM (liftM (kms_request_settings ps (key_arn key))) (\<lambda>rs.
         call_decrypt_data_key P sdk_client rs encrypted_key))
     | Nitro cid port _ \<Rightarrow> nitro_decrypt_data_key P cid port ps c encrypted_key)"

section \<open>The contract of a data-key client\<close>

text \<open>
  What the key material needs of a data-key service, as an interface: the plaintext a decryption
  returns is the one that was generated with the ciphertext under that key. \<open>wrapped\<close> is the
  service's own record of the ciphertexts it has issued, each under the ARN of its key; a decryption
  may always fail.
\<close>

locale data_key_service =
  fixes generate :: "parent_settings \<Rightarrow> kms_key_settings \<Rightarrow> ('w, generated_data_key) io"
    and decrypt :: "parent_settings \<Rightarrow> kms_key_settings \<Rightarrow> bytes \<Rightarrow> ('w, bytes) io"
    and wrapped :: "'w \<Rightarrow> string \<times> bytes \<rightharpoonup> bytes"
    and ok :: bool
  assumes generate_grows: "ok \<Longrightarrow> moves (grows wrapped) (generate ps key)"
    and generate_wraps: "ok \<Longrightarrow> generate ps key s = (Inr g, t) \<Longrightarrow>
      wrapped (world t) (key_arn key, encrypted_data_key g) = Some (plaintext_data_key g)"
    and decrypt_grows: "ok \<Longrightarrow> moves (grows wrapped) (decrypt ps key c)"
    and decrypt_honest: "ok \<Longrightarrow> decrypt ps key c s = (Inr p', t) \<Longrightarrow>
      wrapped (world s) (key_arn key, c) = Some p \<Longrightarrow> p' = p"
begin

lemma unwrap_generated:
  assumes ok and "generate ps key s = (Inr g, t)"
    and "grows wrapped (world t) (world u)"
    and "decrypt ps' key' (encrypted_data_key g) u = (Inr p, v)" and "key_arn key' = key_arn key"
  shows "p = plaintext_data_key g"
  using decrypt_honest [OF assms(1,4)] grows_Some [OF assms(3) generate_wraps [OF assms(1,2)]] assms(5)
  by simp

text \<open>Hence what was encrypted under the generated key can be decrypted under the recovered one.\<close>

lemma unwrapped_key_decrypts:
  assumes "libs_ok L" and ok and "generate ps key s = (Inr g, t)"
    and "encrypt_private_key L (plaintext_data_key g) nonce x = Inr e"
    and "grows wrapped (world t) (world u)"
    and "decrypt ps' key' (encrypted_data_key g) u = (Inr p, v)" and "key_arn key' = key_arn key"
  shows "decrypt_private_key L p nonce e = Inr x \<and> (length p = 16 \<or> length p = 32)"
  using decrypt_encrypt_private_key [OF assms(1,4)] unwrap_generated [OF assms(2,3,5,6,7)] by simp

end

section \<open>Lemmas\<close>

definition native_bytes :: "native_buffer \<Rightarrow> bytes" where
  "native_bytes b =
     (case buffer_data b of
        None \<Rightarrow> []
      | Some mem \<Rightarrow> if buffer_len b = 0 then [] else take (buffer_len b) mem)"

lemma c_string_Inr [simp]: "c_string name v = Inr x \<longleftrightarrow> CHR 0x00 \<notin> set v \<and> x = v"
  by (auto simp: c_string_def)

lemma take_native_buffer_run:
  "take_native_buffer b s = (Inr (native_bytes b), s\<lparr>trace := trace s @ [Nitro_Free]\<rparr>)"
  by (simp add: take_native_buffer_def native_bytes_def io_simps Let_def)

text \<open>
  The documented behaviour of KMS on both ways: a generated ciphertext is recorded under its key with
  its plaintext, records never change, and decrypting a ciphertext that is recorded under the key of
  the request returns its plaintext if it returns anything. The native call names no key (KMS finds it
  in the ciphertext).
\<close>

definition kms_documented :: "('w, 'z) platform_scheme \<Rightarrow> ('w \<Rightarrow> string \<times> bytes \<rightharpoonup> bytes) \<Rightarrow> bool" where
  "kms_documented P wrapped \<longleftrightarrow>
     calls_keep P (grows wrapped)
     \<and> (\<forall>c rq w out w' p e a. kms_generate P c rq w = (Inr out, w') \<and> output_plaintext out = Some p
          \<and> output_ciphertext out = Some e \<and> sdk_key_id rq = Some a \<longrightarrow> wrapped w' (a, e) = Some p)
     \<and> (\<forall>c rq w p' w' e p a. kms_decrypt P c rq w = (Inr (Some p'), w') \<and> sdk_ciphertext rq = Some e
          \<and> sdk_key_id rq = Some a \<and> wrapped w (a, e) = Some p \<longrightarrow> p' = p)
     \<and> (\<forall>c k n w out w'. nkms_generate P c k n w = (out, w') \<and> native_rc out = 0 \<longrightarrow>
          wrapped w' (k, native_bytes (native_ciphertext out)) = Some (native_bytes (native_plaintext out)))
     \<and> (\<forall>c e x w out w' p a. nkms_decrypt P c e x w = (out, w') \<and> native_rc out = 0
          \<and> wrapped w (a, e) = Some p \<longrightarrow> native_bytes (native_plaintext out) = p)"

lemma kms_documented_keep: "kms_documented P wrapped \<Longrightarrow> calls_keep P (grows wrapped)"
  by (simp add: kms_documented_def)

lemma moves_take_native_buffer [moves_intros]:
  "preorder_on_worlds R \<Longrightarrow> moves R (take_native_buffer b)"
  by (simp add: moves_def take_native_buffer_run)

lemma moves_generate_data_key:
  assumes "calls_keep P R"
  shows "moves R (generate_data_key P client ps key)"
  unfolding generate_data_key_def call_generate_data_key_def nitro_generate_data_key_def Let_def
  by (cases client) (auto intro!: moves_intros moves_request_broker_credentials
    simp: calls_keepD [OF assms] assms)

lemma moves_decrypt_data_key:
  assumes "calls_keep P R"
  shows "moves R (decrypt_data_key P client ps key e)"
  unfolding decrypt_data_key_def call_decrypt_data_key_def nitro_decrypt_data_key_def Let_def
  by (cases client) (auto intro!: moves_intros moves_request_broker_credentials
    simp: calls_keepD [OF assms] assms)

text \<open>The builder steps put every setting in its field and nothing else.\<close>

lemma fold_tokens:
  "fold (\<lambda>t rq. rq\<lparr>sdk_tokens := sdk_tokens rq @ [t]\<rparr>) ts rq = rq\<lparr>sdk_tokens := sdk_tokens rq @ ts\<rparr>"
  by (induction ts arbitrary: rq) simp_all

lemma generate_request_eq:
  "generate_request rs = \<lparr>sdk_key_id = Some (kms_key_id rs), sdk_ciphertext = None,
     sdk_spec = spec rs, sdk_bytes = request_bytes rs, sdk_context = request_context rs,
     sdk_tokens = request_tokens rs, sdk_dry_run = request_dry_run rs\<rparr>"
  by (cases "spec rs"; cases "request_bytes rs"; cases "request_context rs"; cases "request_dry_run rs")
    (simp_all add: generate_request_def new_request_def fold_tokens)

lemma decrypt_request_eq:
  "decrypt_request rs e = \<lparr>sdk_key_id = Some (kms_key_id rs), sdk_ciphertext = Some e,
     sdk_spec = None, sdk_bytes = None, sdk_context = request_context rs,
     sdk_tokens = request_tokens rs, sdk_dry_run = request_dry_run rs\<rparr>"
  by (cases "request_context rs"; cases "request_dry_run rs")
    (simp_all add: decrypt_request_def new_request_def fold_tokens)

lemma generate_data_key_wraps:
  assumes "kms_documented P wrapped" and "generate_data_key P client ps key s = (Inr g, t)"
  shows "wrapped (world t) (key_arn key, encrypted_data_key g) = Some (plaintext_data_key g)"
proof (cases client)
  case (Local ep)
  with assms(2) obtain c u rs where "call_generate_data_key P c rs u = (Inr g, t)"
      and "kms_request_settings ps (key_arn key) = Inr rs"
    by (auto simp: generate_data_key_def Let_def elim!: bindM_InrE)
  then show ?thesis
    using assms(1) by (fastforce simp: call_generate_data_key_def kms_documented_def callM_def
        generate_request_eq kms_request_settings_key_id elim!: bindM_InrE split: prod.splits)
next
  case (Nitro cid port ep)
  with assms(2) obtain c u where "nitro_generate_data_key P cid port ps c (key_arn key) u = (Inr g, t)"
    by (auto simp: generate_data_key_def elim!: bindM_InrE)
  then show ?thesis
    using assms(1) by (auto simp: nitro_generate_data_key_def kms_documented_def callM_def
        take_native_buffer_run elim!: bindM_InrE split: prod.splits if_splits)
qed

lemma decrypt_data_key_honest:
  assumes "kms_documented P wrapped" and "decrypt_data_key P client ps key e s = (Inr p', t)"
    and "wrapped (world s) (key_arn key, e) = Some p"
  shows "p' = p"
proof -
  have known: "wrapped (world u) (key_arn key, e) = Some p"
    if "request_broker_credentials P ep (slot key) s = (Inr c, u)" for ep c u
    using grows_Some [OF movesD [OF moves_request_broker_credentials [OF
        kms_documented_keep [OF assms(1)]] that] assms(3)] .
  show ?thesis
  proof (cases client)
    case (Local ep)
    with assms(2) obtain c u rs where "request_broker_credentials P ep (slot key) s = (Inr c, u)"
      and "call_decrypt_data_key P (local_kms_client c) rs e u = (Inr p', t)"
      and "kms_request_settings ps (key_arn key) = Inr rs"
      by (auto simp: decrypt_data_key_def Let_def elim!: bindM_InrE)
    then show ?thesis
      using assms(1) known by (fastforce simp: call_decrypt_data_key_def kms_documented_def callM_def
          decrypt_request_eq kms_request_settings_key_id elim!: bindM_InrE split: prod.splits)
  next
    case (Nitro cid port ep)
    with assms(2) obtain c u where "request_broker_credentials P ep (slot key) s = (Inr c, u)"
      and "nitro_decrypt_data_key P cid port ps c e u = (Inr p', t)"
      by (auto simp: decrypt_data_key_def elim!: bindM_InrE)
    then show ?thesis
      using assms(1) known by (fastforce simp: nitro_decrypt_data_key_def kms_documented_def callM_def
          take_native_buffer_run elim!: bindM_InrE split: prod.splits if_splits)
  qed
qed

interpretation kms: data_key_service "generate_data_key P client" "decrypt_data_key P client" wrapped
    "kms_documented P wrapped" for P :: "('w, 'z) platform_scheme" and client wrapped
  by unfold_locales
    (auto intro: moves_generate_data_key moves_decrypt_data_key kms_documented_keep
      generate_data_key_wraps decrypt_data_key_honest)

section \<open>Events of a data-key operation\<close>

fun client_broker :: "kms_client \<Rightarrow> endpoint" where
  "client_broker (Local ep) = ep"
| "client_broker (Nitro _ _ ep) = ep"

text \<open>What the Nitro client supports for data-key generation.\<close>

definition nitro_supports :: "parent_settings \<Rightarrow> u32 \<Rightarrow> bool" where
  "nitro_supports ps bits \<longleftrightarrow>
     grant_tokens ps = [] \<and> dry_run ps \<noteq> Some True \<and> encryption_context ps = None
     \<and> data_key_bits ps = Inr bits"

text \<open>
  The KMS calls after the credentials have arrived: none and an error, one SDK call that names the
  key, or one native call for the key, whose two buffers are freed exactly if it succeeds.
\<close>

definition generate_calls ::
    "kms_client \<Rightarrow> parent_settings \<Rightarrow> string \<Rightarrow> event list \<Rightarrow> bool \<Rightarrow> bool" where
  "generate_calls client ps arn calls success =
     (if calls = [] then success = False
      else (case client of
        Local _ \<Rightarrow> (\<exists>c rs. kms_request_settings ps arn = Inr rs
          \<and> calls = [Kms_Generate (local_kms_client c) (generate_request rs)])
      | Nitro cid port _ \<Rightarrow> (\<exists>c cl bits. native_arguments cid port c = Inr cl
          \<and> nitro_supports ps bits
          \<and> calls = Nitro_Generate cl arn bits # (if success then [Nitro_Free, Nitro_Free] else []))))"

definition decrypt_calls ::
    "kms_client \<Rightarrow> parent_settings \<Rightarrow> string \<Rightarrow> bytes \<Rightarrow> event list \<Rightarrow> bool \<Rightarrow> bool" where
  "decrypt_calls client ps arn e calls success =
     (if calls = [] then success = False
      else (case client of
        Local _ \<Rightarrow> (\<exists>c rs. kms_request_settings ps arn = Inr rs
          \<and> calls = [Kms_Decrypt (local_kms_client c) (decrypt_request rs e)])
      | Nitro cid port _ \<Rightarrow> (\<exists>c cl x. native_arguments cid port c = Inr cl
          \<and> grant_tokens ps = [] \<and> dry_run ps \<noteq> Some True
          \<and> calls = Nitro_Decrypt cl e x # (if success then [Nitro_Free] else []))))"

text \<open>The whole operation: the credentials of the key's slot first, then those calls.\<close>

definition key_operation ::
    "endpoint \<Rightarrow> kms_slot \<Rightarrow> (event list \<Rightarrow> bool \<Rightarrow> bool) \<Rightarrow> event list \<Rightarrow> 'a app_result \<Rightarrow> bool" where
  "key_operation ep sl kms_calls evs r \<longleftrightarrow>
     (\<exists>conn calls. evs = conn @ calls
        \<and> list_all (requesting ep (GetAwsCredentials sl)) conn
        \<and> (requests_of conn = [GetAwsCredentials sl] \<or> requests_of conn = [] \<and> calls = [])
        \<and> kms_calls calls (is_ok r)
        \<and> \<not> panics r)"

lemma app_error_no_panic [simp]:
  "validate_common_options ps \<noteq> Inl (Panic msg)"
  "data_key_bits ps \<noteq> Inl (Panic msg)"
  "c_string name v \<noteq> Inl (Panic msg)"
  "native_error v \<noteq> Panic msg"
  "kms_request_settings ps arn \<noteq> Inl (Panic msg)"
  "native_arguments cid port c \<noteq> Inl (Panic msg)"
  "context_argument L ctx \<noteq> Inl (Panic msg)"
  by (auto simp: validate_common_options_def grant_tokens_unsupported_def dry_run_unsupported_def
      data_key_bits_def unsupported_key_bits_def c_string_def nul_byte_def native_error_def
      kms_request_settings_def parse_key_spec_def invalid_key_spec_def native_arguments_def
      context_argument_def split: option.splits if_splits
      elim!: bind_result.elims transpose_result.elims)

lemma emits_after_credentials:
  assumes "\<And>c. emits (k c) (\<lambda>evs r. kms_calls evs (is_ok r) \<and> \<not> panics r)"
    and "kms_calls [] False"
  shows "emits (bindM (request_broker_credentials P ep sl) k) (key_operation ep sl kms_calls)"
proof (rule emits_bindM [OF emits_request_broker_credentials])
  fix evs and e :: app_error
  assume "list_all (requesting ep (GetAwsCredentials sl)) evs
    \<and> (requests_of evs = [GetAwsCredentials sl]
       \<or> requests_of evs = [] \<and> \<not> is_ok (Inl e :: aws_credentials app_result))
    \<and> \<not> panics (Inl e :: aws_credentials app_result)"
  with assms(2) show "key_operation ep sl kms_calls evs (Inl e)"
    unfolding key_operation_def by (intro exI [of _ evs] exI [of _ "[]"]) auto
next
  fix evs c
  assume "list_all (requesting ep (GetAwsCredentials sl)) evs
    \<and> (requests_of evs = [GetAwsCredentials sl] \<or> requests_of evs = [] \<and> \<not> is_ok (Inr c :: aws_credentials app_result))
    \<and> \<not> panics (Inr c :: aws_credentials app_result)"
  then show "emits (k c) (\<lambda>evs' r. key_operation ep sl kms_calls (evs @ evs') r)"
    by (intro emits_mono [OF assms(1)]) (auto simp: key_operation_def)
qed

lemma emits_take_native_buffer_bind:
  "emits (k (native_bytes b)) (\<lambda>evs r. Q (Nitro_Free # evs) r) \<Longrightarrow>
   emits (bindM (take_native_buffer b) k) Q"
  unfolding take_native_buffer_def Let_def bindM_assoc emitM_def native_bytes_def [symmetric]
  by (rule emits_callM_bind) simp

lemma emits_take_native_buffer:
  "Q [Nitro_Free] (Inr (native_bytes b)) \<Longrightarrow> emits (take_native_buffer b) Q"
  by (auto simp: emits_def take_native_buffer_run)

lemma emits_generate_data_key:
  "emits (generate_data_key P client ps key)
     (key_operation (client_broker client) (slot key) (generate_calls client ps (key_arn key)))"
proof (cases client)
  case (Local ep)
  have "emits (bindM (liftM (kms_request_settings ps (key_arn key))) (call_generate_data_key P (local_kms_client c)))
      (\<lambda>evs r. generate_calls client ps (key_arn key) evs (is_ok r) \<and> \<not> panics r)" for c
    unfolding call_generate_data_key_def
    by (intro emits_liftM_bind emits_callM_bind emits_returnM)
      (auto simp: generate_calls_def Local no_plaintext_def no_encrypted_key_def)
  then show ?thesis
    unfolding generate_data_key_def Let_def by (simp add: Local emits_after_credentials generate_calls_def)
next
  case (Nitro cid port ep)
  have "emits (nitro_generate_data_key P cid port ps c (key_arn key))
      (\<lambda>evs r. generate_calls client ps (key_arn key) evs (is_ok r) \<and> \<not> panics r)" for c
    unfolding nitro_generate_data_key_def
    by (intro emits_liftM_bind)
      (auto simp: generate_calls_def Nitro nitro_supports_def validate_common_options_def
        context_unsupported_def grant_tokens_unsupported_def dry_run_unsupported_def
        split: if_splits
        intro!: emits_liftM_bind emits_callM_bind emits_throwM emits_take_native_buffer_bind emits_returnM)
  then show ?thesis
    unfolding generate_data_key_def by (simp add: Nitro emits_after_credentials generate_calls_def)
qed

lemma emits_decrypt_data_key:
  "emits (decrypt_data_key P client ps key e)
     (key_operation (client_broker client) (slot key) (decrypt_calls client ps (key_arn key) e))"
proof (cases client)
  case (Local ep)
  have "emits (bindM (liftM (kms_request_settings ps (key_arn key)))
        (\<lambda>rs. call_decrypt_data_key P (local_kms_client c) rs e))
      (\<lambda>evs r. decrypt_calls client ps (key_arn key) e evs (is_ok r) \<and> \<not> panics r)" for c
    unfolding call_decrypt_data_key_def
    by (intro emits_liftM_bind emits_callM_bind emits_liftM)
      (auto simp: decrypt_calls_def Local no_decrypted_key_def)
  then show ?thesis
    unfolding decrypt_data_key_def Let_def by (simp add: Local emits_after_credentials decrypt_calls_def)
next
  case (Nitro cid port ep)
  have "emits (nitro_decrypt_data_key P cid port ps c e)
      (\<lambda>evs r. decrypt_calls client ps (key_arn key) e evs (is_ok r) \<and> \<not> panics r)" for c
    unfolding nitro_decrypt_data_key_def
    by (intro emits_liftM_bind)
      (auto simp: decrypt_calls_def Nitro validate_common_options_def grant_tokens_unsupported_def
        dry_run_unsupported_def split: if_splits
        intro!: emits_callM_bind emits_throwM emits_take_native_buffer)
  then show ?thesis
    unfolding decrypt_data_key_def by (simp add: Nitro emits_after_credentials decrypt_calls_def)
qed

section \<open>Properties\<close>

text \<open>
  Property C23. Generating or unwrapping a data key, on either client and whatever the peers answer:
  first the credentials of the key's own slot are requested from the client's broker, once; only after
  they arrived is KMS called, at most once. The SDK call is built from the settings for that key; a
  native call is made only for options the native API supports (and generation for that key), and its
  buffers are freed exactly if it succeeds. No run panics.
\<close>

theorem data_key_operation_schedule:
  "emits (generate_data_key P client ps key)
     (key_operation (client_broker client) (slot key) (generate_calls client ps (key_arn key)))
   \<and> emits (decrypt_data_key P client ps key e)
     (key_operation (client_broker client) (slot key) (decrypt_calls client ps (key_arn key) e))"
  by (simp add: emits_generate_data_key emits_decrypt_data_key)

text \<open>
  Property C37. The requests the SDK builders assemble carry every setting in its field: the key, the
  data-key size, the encryption context, all grant tokens in order and the dry-run switch for
  \<open>GenerateDataKey\<close>; the key, the ciphertext, and the same context, tokens and switch (and no
  size) for \<open>Decrypt\<close>.
\<close>

theorem sdk_requests_exact:
  "generate_request rs = \<lparr>sdk_key_id = Some (kms_key_id rs), sdk_ciphertext = None,
     sdk_spec = spec rs, sdk_bytes = request_bytes rs, sdk_context = request_context rs,
     sdk_tokens = request_tokens rs, sdk_dry_run = request_dry_run rs\<rparr>
   \<and> decrypt_request rs e = \<lparr>sdk_key_id = Some (kms_key_id rs), sdk_ciphertext = Some e,
     sdk_spec = None, sdk_bytes = None, sdk_context = request_context rs,
     sdk_tokens = request_tokens rs, sdk_dry_run = request_dry_run rs\<rparr>"
  by (simp add: generate_request_eq decrypt_request_eq)

text \<open>
  Property C38. A configured \<open>KMS_NUMBER_OF_BYTES\<close> can never be used: the settings then also
  hold the default \<open>AES_256\<close> key specification, so the SDK request carries both sizes (which KMS
  refuses) and the Nitro client refuses the settings itself.
\<close>

theorem number_of_bytes_conflicts:
  assumes "from_env env = Inr ps" and "number_of_bytes ps = Some n"
  shows "key_spec ps = Some ''AES_256''
    \<and> data_key_bits ps = Inl unsupported_key_bits
    \<and> map_sum id generate_request (kms_request_settings ps arn) = Inr
        \<lparr>sdk_key_id = Some arn, sdk_ciphertext = None, sdk_spec = Some Aes256, sdk_bytes = Some n,
         sdk_context = encryption_context ps, sdk_tokens = grant_tokens ps, sdk_dry_run = dry_run ps\<rparr>"
proof -
  from from_env_Inr [OF assms(1)] assms(2) have ks: "key_spec ps = Some ''AES_256''"
    by auto
  with assms(2) show ?thesis
    by (simp add: data_key_bits_def kms_request_settings_def parse_key_spec_def generate_request_eq)
qed

definition number_of_bytes_env :: env where
  "number_of_bytes_env =
     [''KMS_NUMBER_OF_BYTES'' \<mapsto> ''16'',
      ''KMS_PRIMARY_KEY_ARN'' \<mapsto> ''arn:aws:kms:us-east-1:111122223333:key/a'',
      ''KMS_BACKUP_KEY_ARN'' \<mapsto> ''arn:aws:kms:us-east-1:444455556666:key/b'',
      ''S3_BUCKET'' \<mapsto> ''bucket'']"

lemma number_of_bytes_env_values:
  "optional_env number_of_bytes_env ''KMS_KEY_SPEC'' = None"
  "optional_env number_of_bytes_env ''KEY_SPEC'' = None"
  "optional_env number_of_bytes_env ''KMS_NUMBER_OF_BYTES'' = Some ''16''"
  "optional_env number_of_bytes_env ''S3_PREFIX'' = None"
  "optional_env number_of_bytes_env ''DECRYPT_SERVER_TEE_MODE'' = None"
  "optional_env number_of_bytes_env ''KMS_ENCRYPTION_CONTEXT'' = None"
  "optional_env number_of_bytes_env ''KMS_GRANT_TOKENS'' = None"
  "optional_env number_of_bytes_env ''KMS_DRY_RUN'' = None"
  "required_env number_of_bytes_env ''S3_BUCKET'' = Inr ''bucket''"
  "required_env number_of_bytes_env ''KMS_PRIMARY_KEY_ARN'' = Inr ''arn:aws:kms:us-east-1:111122223333:key/a''"
  "required_env number_of_bytes_env ''KMS_BACKUP_KEY_ARN'' = Inr ''arn:aws:kms:us-east-1:444455556666:key/b''"
  "kms_region_from_arn ''arn:aws:kms:us-east-1:111122223333:key/a'' = Inr ''us-east-1''"
  "kms_region_from_arn ''arn:aws:kms:us-east-1:444455556666:key/b'' = Inr ''us-east-1''"
  "normalize_s3_prefix default_s3_prefix = Inr ''kms-keypair''"
  by code_simp+

lemma parse_16: "parse_number_of_bytes ''16'' = Inr 16"
  by (simp add: parse_number_of_bytes_def parse_i32_def parse_nat_def digit_value_def starts_with_def)

theorem number_of_bytes_conflicts_witness:
  "\<exists>ps. from_env number_of_bytes_env = Inr ps \<and> number_of_bytes ps = Some 16
     \<and> data_key_bits ps = Inl unsupported_key_bits"
proof -
  obtain ps where ps: "from_env number_of_bytes_env = Inr ps" "number_of_bytes ps = Some 16"
    by (simp add: from_env_def number_of_bytes_env_values parse_16)
  from number_of_bytes_conflicts [OF this] ps show ?thesis by blast
qed

text \<open>
  Property C40. Which KMS client is used follows exactly from the environment. The local SDK client is
  used if \<open>RUNNING_IN_ENCLAVE\<close> says no, or is not set and \<open>KMS_MODE\<close> is absent or
  \<open>local-aws\<close>. The Nitro client is used if \<open>RUNNING_IN_ENCLAVE\<close> says yes, or is not set and
  \<open>KMS_MODE\<close> is \<open>nitro\<close>, and the build has the feature; its CID and port are those of
  the environment, or 3 and 8000. In all other cases there is no client, and an enclave never falls
  back to the local one.
\<close>

theorem kms_client_iff:
  "(kms_client_from_env P env ep = Inr (Local ep') \<longleftrightarrow>
      ep' = ep
      \<and> (case optional_env env ''RUNNING_IN_ENCLAVE'' of
           Some v \<Rightarrow> v \<in> {''false'', ''0'', ''no'', ''n''}
         | None \<Rightarrow> optional_env env ''KMS_MODE'' \<in> {None, Some ''local-aws''}))
   \<and> (kms_client_from_env P env ep = Inr (Nitro cid port ep') \<longleftrightarrow>
      ep' = ep \<and> nitro_enclave P
      \<and> (case optional_env env ''RUNNING_IN_ENCLAVE'' of
           Some v \<Rightarrow> v \<in> {''true'', ''1'', ''yes'', ''y''}
         | None \<Rightarrow> optional_env env ''KMS_MODE'' = Some ''nitro'')
      \<and> (case optional_env env ''NITRO_PARENT_CID'' of None \<Rightarrow> cid = 3 | Some v \<Rightarrow> parse_u32 v = Some cid)
      \<and> (case optional_env env ''NITRO_KMS_PROXY_PORT'' of None \<Rightarrow> port = 8000 | Some v \<Rightarrow> parse_u32 v = Some port))"
proof -
  have inside: "running_in_enclave env = Inr False \<longleftrightarrow>
      (case optional_env env ''RUNNING_IN_ENCLAVE'' of
         Some v \<Rightarrow> v \<in> {''false'', ''0'', ''no'', ''n''}
       | None \<Rightarrow> optional_env env ''KMS_MODE'' \<in> {None, Some ''local-aws''})"
    "running_in_enclave env = Inr True \<longleftrightarrow>
      (case optional_env env ''RUNNING_IN_ENCLAVE'' of
         Some v \<Rightarrow> v \<in> {''true'', ''1'', ''yes'', ''y''}
       | None \<Rightarrow> optional_env env ''KMS_MODE'' = Some ''nitro'')"
    by (auto simp: running_in_enclave_def parse_bool_def split: option.split)
  have numbers: "u32_env env name e d = Inr n \<longleftrightarrow>
      (case optional_env env name of None \<Rightarrow> n = d | Some v \<Rightarrow> parse_u32 v = Some n)" for name e d n
    by (auto simp: u32_env_def split: option.split)
  have "kms_client_from_env P env ep = Inr (Local ep') \<longleftrightarrow> ep' = ep \<and> running_in_enclave env = Inr False"
    by (cases "running_in_enclave env") (auto simp: kms_client_from_env_def)
  moreover have "kms_client_from_env P env ep = Inr (Nitro cid port ep') \<longleftrightarrow>
      ep' = ep \<and> nitro_enclave P \<and> running_in_enclave env = Inr True
      \<and> u32_env env ''NITRO_PARENT_CID'' invalid_parent_cid default_parent_cid = Inr cid
      \<and> u32_env env ''NITRO_KMS_PROXY_PORT'' invalid_proxy_port default_nitro_kms_proxy_port = Inr port"
    by (cases "running_in_enclave env") (auto simp: kms_client_from_env_def)
  ultimately show ?thesis
    unfolding inside numbers default_parent_cid_def default_nitro_kms_proxy_port_def by blast
qed

end
