(* ===== verification/Key_Material.thy ===== *)
theory Key_Material
  imports Kms_Clients S3_Objects
begin

text \<open>
  The key material of the enclave, from \<open>src/src/key_material.rs\<close>: initialisation
  (\<open>initialize_key_material\<close>), restoring (\<open>restore_key_material\<close>,
  \<open>restore_from_package\<close>), the validation of what is read back, and \<open>run_decrypt_server_tee\<close>.
\<close>

section \<open>Validation\<close>

definition two_keys_required :: app_error where
  "two_keys_required = Err ''exactly two KMS keys are required''"

definition keys_must_differ :: app_error where
  "keys_must_differ = Err ''primary and backup KMS key ARNs must be different''"

definition regions_must_agree :: app_error where
  "regions_must_agree =
     Err (''primary and backup KMS keys must be in the same region because the enclave uses one ''
          @ ''KMS vsock-proxy endpoint'')"

definition warning_rule :: string where
  "warning_rule = replicate 64 (CHR ''!'')"

definition warn_same_account :: "('w, unit) io" where
  "warn_same_account =
     bindM (emitM (Stderr warning_rule)) (\<lambda>_.
     bindM (emitM (Stderr ''WARNING: primary and backup KMS keys belong to the SAME AWS account'')) (\<lambda>_.
     bindM (emitM (Stderr ''WARNING: recovery still works, but account-level isolation is NOT provided'')) (\<lambda>_.
     emitM (Stderr warning_rule))))"

definition validate_kms_configuration :: "parent_settings \<Rightarrow> ('w, unit) io" where
  "validate_kms_configuration ps =
     (if length (kms_keys ps) \<noteq> 2 then throwM two_keys_required
      else if key_arn (kms_keys ps ! 0) = key_arn (kms_keys ps ! 1) then throwM keys_must_differ
      else
      bindM (liftM (kms_account_from_arn (key_arn (kms_keys ps ! 0)))) (\<lambda>a.
      bindM (liftM (kms_account_from_arn (key_arn (kms_keys ps ! 1)))) (\<lambda>b.
      bindM (whenM (a = b) warn_same_account) (\<lambda>_.
      if key_region (kms_keys ps ! 0) \<noteq> key_region (kms_keys ps ! 1) then throwM regions_must_agree
      else returnM ()))))"

definition manifest_version_unsupported :: "u32 \<Rightarrow> app_error" where
  "manifest_version_unsupported v = Err (''unsupported key manifest version '' @ show_u32 v)"

definition policy_unsupported :: "string \<Rightarrow> app_error" where
  "policy_unsupported p = Err (''unsupported recovery policy '' @ p)"

definition manifest_algorithm_unsupported :: app_error where
  "manifest_algorithm_unsupported =
     Err ''unsupported private key algorithm or encryption in manifest''"

definition two_objects_required :: app_error where
  "two_objects_required = Err ''key manifest must contain exactly two recovery objects''"

definition validate_manifest :: "key_manifest \<Rightarrow> unit app_result" where
  "validate_manifest m =
     (if manifest_version m \<noteq> key_material_version
      then Inl (manifest_version_unsupported (manifest_version m))
      else if recovery_policy m \<noteq> ''any-one'' then Inl (policy_unsupported (recovery_policy m))
      else if manifest_algorithm m \<noteq> private_key_algorithm
              \<or> manifest_encryption m \<noteq> private_key_encryption
      then Inl manifest_algorithm_unsupported
      else if length (recovery_objects m) \<noteq> 2 then Inl two_objects_required
      else Inr ())"

definition document_unsupported :: app_error where
  "document_unsupported = Err ''unsupported public key document''"

definition fingerprint_mismatch :: app_error where
  "fingerprint_mismatch = Err ''public key fingerprint does not match the manifest''"

definition validate_public_document ::
    "libs \<Rightarrow> public_key_document \<Rightarrow> key_manifest \<Rightarrow> bytes app_result" where
  "validate_public_document L d m =
     (if document_version d \<noteq> key_material_version \<or> algorithm d \<noteq> private_key_algorithm
      then Inl document_unsupported
      else
      bind_result (decode_fixed_base64 L 32 ''public_key_base64'' (public_key_base64 d)) (\<lambda>pk.
      let f = sha256_hex L pk
      in if f \<noteq> fingerprint_sha256 d \<or> f \<noteq> key_fingerprint m then Inl fingerprint_mismatch
         else Inr pk))"

definition object_disappeared :: "string \<Rightarrow> app_error" where
  "object_disappeared key = Err (''uploaded object disappeared before verification: '' @ key)"

definition verify_uploaded_object ::
    "('w, 'z) platform_scheme \<Rightarrow> endpoint \<Rightarrow> string \<Rightarrow> string \<Rightarrow> string \<Rightarrow> ('w, unit) io" where
  "verify_uploaded_object P s3 bucket key expected_hash =
     bindM (load_object P s3 bucket key) (\<lambda>loaded.
     bindM (liftM (ok_or (object_disappeared key) loaded)) (\<lambda>body.
     liftM (verify_sha256 (crates P) ''uploaded object'' body expected_hash)))"

section \<open>Restoring from one package\<close>

definition package_version_unsupported :: "u32 \<Rightarrow> app_error" where
  "package_version_unsupported v = Err (''unsupported recovery package version '' @ show_u32 v)"

definition private_key_mismatch :: app_error where
  "private_key_mismatch = Err ''restored private key does not match the stored public key''"

definition restore_from_package ::
    "('w, 'z) platform_scheme \<Rightarrow> kms_client \<Rightarrow> parent_settings \<Rightarrow> kms_key_settings
     \<Rightarrow> recovery_package \<Rightarrow> bytes \<Rightarrow> ('w, unit) io" where
  "restore_from_package P client ps key package expected_public_key =
     (if package_version package \<noteq> key_material_version
      then throwM (package_version_unsupported (package_version package))
      else
      bindM (liftM (decode_base64 (crates P) ''encrypted_data_key_base64''
          (encrypted_data_key_base64 package))) (\<lambda>data_key.
      bindM (liftM (decode_base64 (crates P) ''encrypted_private_key_base64''
          (encrypted_private_key_base64 package))) (\<lambda>encrypted_private_key.
      bindM (liftM (decode_fixed_base64 (crates P) aes_gcm_nonce_length ''private_key_nonce_base64''
          (private_key_nonce_base64 package))) (\<lambda>nonce.
      bindM (decrypt_data_key P client ps key data_key) (\<lambda>plaintext.
      bindM (liftM (validate_data_key_len plaintext)) (\<lambda>_.
      bindM (liftM (decrypt_private_key (crates P) plaintext nonce encrypted_private_key)) (\<lambda>decrypted.
      bindM (liftM (fixed_bytes ed25519_private_key_length ''private key'' decrypted)) (\<lambda>private_key.
      (let actual_public_key = verifying_key (crates P) private_key
       in if actual_public_key \<noteq> expected_public_key then throwM private_key_mismatch
          else returnM ())))))))))"

section \<open>Initialisation\<close>

definition manifest_exists :: "string \<Rightarrow> string \<Rightarrow> app_error" where
  "manifest_exists bucket key =
     Err (''key manifest already exists at '' @ s3_url bucket key
          @ ''; refusing to generate or overwrite key material'')"

definition unexpected_key_id :: "string \<Rightarrow> string \<Rightarrow> app_error" where
  "unexpected_key_id got expected =
     Err (''KMS GenerateDataKey returned unexpected key ID '' @ got @ ''; expected '' @ expected)"

definition package_name :: "string \<Rightarrow> string \<Rightarrow> string \<Rightarrow> string" where
  "package_name storage_id display_id package_hash =
     ''kms-key-'' @ storage_id @ ''/encrypted_private_key_by_kms-key-'' @ display_id
     @ ''_sha256-'' @ package_hash @ ''.json''"

text \<open>
  The body of the loop over the keys: a data key, the package sealed under it, its upload and
  verification, and a trial restore.
\<close>

definition initialize_key ::
    "('w, 'z) platform_scheme \<Rightarrow> endpoint \<Rightarrow> kms_client \<Rightarrow> parent_settings \<Rightarrow> bytes \<Rightarrow> bytes
     \<Rightarrow> kms_key_settings \<Rightarrow> ('w, recovery_object_reference) io" where
  "initialize_key P s3 client ps private_key public key =
     bindM (emitM (Stdout (''initialization: generating data key with '' @ key_arn key))) (\<lambda>_.
     bindM (generate_data_key P client ps key) (\<lambda>generated.
     if generated_key_id generated \<noteq> key_arn key
     then throwM (unexpected_key_id (generated_key_id generated) (key_arn key)) else
     bindM (liftM (validate_data_key_len (plaintext_data_key generated))) (\<lambda>_.
     bindM (callM (Draw aes_gcm_nonce_length) (random_bytes P aes_gcm_nonce_length)) (\<lambda>nonce.
     bindM (liftM (encrypt_private_key (crates P) (plaintext_data_key generated) nonce private_key))
       (\<lambda>encrypted_private_key.
     (let package = \<lparr>package_version = key_material_version,
            encrypted_data_key_base64 = base64_encode (crates P) (encrypted_data_key generated),
            private_key_nonce_base64 = base64_encode (crates P) nonce,
            encrypted_private_key_base64 = base64_encode (crates P) encrypted_private_key\<rparr> in
     bindM (liftM (lib_result (package_to_json (crates P) package))) (\<lambda>package_body.
     (let package_hash = sha256_hex (crates P) package_body in
     bindM (liftM (kms_key_storage_id (crates P) (key_arn key))) (\<lambda>storage_id.
     bindM (liftM (kms_key_display_id (key_arn key))) (\<lambda>display_id.
     (let package_object_key =
            join_key (s3_prefix ps) (package_name storage_id display_id package_hash) in
     bindM (save_object_if_absent P s3 (s3_bucket ps) package_object_key package_body) (\<lambda>_.
     bindM (verify_uploaded_object P s3 (s3_bucket ps) package_object_key package_hash) (\<lambda>_.
     bindM (restore_from_package P client ps key package public) (\<lambda>_.
     returnM \<lparr>recovery_kms_key_arn = key_arn key, recovery_object_key = package_object_key,
       recovery_sha256 = package_hash\<rparr>))))))))))))))"

fun initialize_keys ::
    "('w, 'z) platform_scheme \<Rightarrow> endpoint \<Rightarrow> kms_client \<Rightarrow> parent_settings \<Rightarrow> bytes \<Rightarrow> bytes
     \<Rightarrow> kms_key_settings list \<Rightarrow> ('w, recovery_object_reference list) io" where
  "initialize_keys P s3 client ps private_key public [] = returnM []"
| "initialize_keys P s3 client ps private_key public (key # keys) =
     bindM (initialize_key P s3 client ps private_key public key) (\<lambda>ref.
     bindM (initialize_keys P s3 client ps private_key public keys) (\<lambda>refs.
     returnM (ref # refs)))"

definition initialize_key_material ::
    "('w, 'z) platform_scheme \<Rightarrow> endpoint \<Rightarrow> kms_client \<Rightarrow> parent_settings
     \<Rightarrow> ('w, restored_key_pair) io" where
  "initialize_key_material P s3 client ps =
     (let manifest_key = join_key (s3_prefix ps) manifest_file_name in
     bindM (emitM (Stdout (''initialization: checking '' @ s3_url (s3_bucket ps) manifest_key))) (\<lambda>_.
     bindM (load_object P s3 (s3_bucket ps) manifest_key) (\<lambda>existing.
     if existing \<noteq> None then throwM (manifest_exists (s3_bucket ps) manifest_key) else
     bindM (callM (Draw ed25519_private_key_length) (random_bytes P ed25519_private_key_length))
       (\<lambda>private_key.
     (let public = verifying_key (crates P) private_key;
          fp = sha256_hex (crates P) public;
          document = \<lparr>document_version = key_material_version, algorithm = private_key_algorithm,
            public_key_base64 = base64_encode (crates P) public, fingerprint_sha256 = fp\<rparr> in
     bindM (liftM (lib_result (document_to_json (crates P) document))) (\<lambda>public_body.
     (let public_hash = sha256_hex (crates P) public_body;
          public_object_key = join_key (s3_prefix ps) (''public_key_sha256-'' @ fp @ ''.json'') in
     bindM (initialize_keys P s3 client ps private_key public (kms_keys ps)) (\<lambda>refs.
     bindM (save_object_if_absent P s3 (s3_bucket ps) public_object_key public_body) (\<lambda>_.
     bindM (verify_uploaded_object P s3 (s3_bucket ps) public_object_key public_hash) (\<lambda>_.
     (let manifest = \<lparr>manifest_version = key_material_version, recovery_policy = ''any-one'',
            key_fingerprint = fp, manifest_algorithm = private_key_algorithm,
            manifest_encryption = private_key_encryption,
            manifest_public_key = \<lparr>object_key = public_object_key, object_sha256 = public_hash\<rparr>,
            recovery_objects = refs\<rparr> in
     bindM (liftM (lib_result (manifest_to_json (crates P) manifest))) (\<lambda>manifest_body.
     bindM (save_object_if_absent P s3 (s3_bucket ps) manifest_key manifest_body) (\<lambda>_.
     bindM (emitM (Stdout (''initialization: committed '' @ s3_url (s3_bucket ps) manifest_key))) (\<lambda>_.
     returnM \<lparr>public_key = public, fingerprint = fp, restored_kms_key_arn = []\<rparr>))))))))))))))"

section \<open>Restoring\<close>

definition manifest_missing :: "string \<Rightarrow> string \<Rightarrow> app_error" where
  "manifest_missing bucket key =
     Err (''key manifest does not exist at '' @ s3_url bucket key
          @ ''; refusing to generate a replacement'')"

definition public_object_missing :: "string \<Rightarrow> app_error" where
  "public_object_missing key = Err (''public key object is missing: '' @ key)"

definition recovery_object_missing :: "string \<Rightarrow> app_error" where
  "recovery_object_missing key = Err (''recovery object is missing: '' @ key)"

definition restore_attempt ::
    "('w, 'z) platform_scheme \<Rightarrow> endpoint \<Rightarrow> kms_client \<Rightarrow> parent_settings \<Rightarrow> bytes
     \<Rightarrow> kms_key_settings \<Rightarrow> recovery_object_reference \<Rightarrow> ('w, unit) io" where
  "restore_attempt P s3 client ps expected_public_key key reference =
     bindM (load_object P s3 (s3_bucket ps) (recovery_object_key reference)) (\<lambda>loaded.
     bindM (liftM (ok_or (recovery_object_missing (recovery_object_key reference)) loaded)) (\<lambda>body.
     bindM (liftM (verify_sha256 (crates P) ''recovery object'' body (recovery_sha256 reference))) (\<lambda>_.
     bindM (liftM (lib_result (package_of_json (crates P) body))) (\<lambda>package.
     restore_from_package P client ps key package expected_public_key))))"

definition none_restored :: "string list \<Rightarrow> app_error" where
  "none_restored failures =
     Err (''none of the configured KMS keys could restore the private key: ''
          @ join ''; '' failures)"

text \<open>The loop over the keys, with the failures so far.\<close>

fun restore_loop ::
    "('w, 'z) platform_scheme \<Rightarrow> endpoint \<Rightarrow> kms_client \<Rightarrow> parent_settings \<Rightarrow> key_manifest \<Rightarrow> bytes
     \<Rightarrow> kms_key_settings list \<Rightarrow> string list \<Rightarrow> ('w, restored_key_pair) io" where
  "restore_loop P s3 client ps m expected_public_key [] failures = throwM (none_restored failures)"
| "restore_loop P s3 client ps m expected_public_key (key # keys) failures =
     (case List.find (\<lambda>ref. recovery_kms_key_arn ref = key_arn key) (recovery_objects m) of
        None \<Rightarrow> restore_loop P s3 client ps m expected_public_key keys
          (failures @ [key_arn key @ '': no recovery object in manifest''])
      | Some ref \<Rightarrow>
          bindM (emitM (Stdout (''restore: trying '' @ key_arn key))) (\<lambda>_.
          bindM (attemptM (restore_attempt P s3 client ps expected_public_key key ref)) (\<lambda>attempt.
          case attempt of
            Inr _ \<Rightarrow>
              bindM (emitM (Stdout (''restore: succeeded with '' @ key_arn key))) (\<lambda>_.
              returnM \<lparr>public_key = expected_public_key, fingerprint = key_fingerprint m,
                restored_kms_key_arn = key_arn key\<rparr>)
          | Inl e \<Rightarrow>
              bindM (emitM (Stdout (''restore: failed with '' @ key_arn key @ '': '' @ e))) (\<lambda>_.
              restore_loop P s3 client ps m expected_public_key keys
                (failures @ [key_arn key @ '': '' @ e])))))"

definition restore_key_material ::
    "('w, 'z) platform_scheme \<Rightarrow> endpoint \<Rightarrow> kms_client \<Rightarrow> parent_settings
     \<Rightarrow> ('w, restored_key_pair) io" where
  "restore_key_material P s3 client ps =
     (let manifest_key = join_key (s3_prefix ps) manifest_file_name in
     bindM (emitM (Stdout (''startup: loading '' @ s3_url (s3_bucket ps) manifest_key))) (\<lambda>_.
     bindM (load_object P s3 (s3_bucket ps) manifest_key) (\<lambda>loaded.
     bindM (liftM (ok_or (manifest_missing (s3_bucket ps) manifest_key) loaded)) (\<lambda>manifest_body.
     bindM (liftM (lib_result (manifest_of_json (crates P) manifest_body))) (\<lambda>m.
     bindM (liftM (validate_manifest m)) (\<lambda>_.
     bindM (load_object P s3 (s3_bucket ps) (object_key (manifest_public_key m))) (\<lambda>loaded_public.
     bindM (liftM (ok_or (public_object_missing (object_key (manifest_public_key m))) loaded_public))
       (\<lambda>public_body.
     bindM (liftM (verify_sha256 (crates P) ''public key object'' public_body
         (object_sha256 (manifest_public_key m)))) (\<lambda>_.
     bindM (liftM (lib_result (document_of_json (crates P) public_body))) (\<lambda>d.
     bindM (liftM (validate_public_document (crates P) d m)) (\<lambda>expected_public_key.
     restore_loop P s3 client ps m expected_public_key (kms_keys ps) [])))))))))))"

section \<open>run\_decrypt\_server\_tee\<close>

definition run_decrypt_server_tee ::
    "('w, 'z) platform_scheme \<Rightarrow> env \<Rightarrow> parent_settings \<Rightarrow> endpoint \<Rightarrow> ('w, unit) io" where
  "run_decrypt_server_tee P env ps broker_endpoint =
     bindM (validate_kms_configuration ps) (\<lambda>_.
     (let s3 = broker_endpoint in
     bindM (liftM (kms_client_from_env P env broker_endpoint)) (\<lambda>client.
     bindM (emitM (Stdout ''config: loaded from enclave-broker'')) (\<lambda>_.
     bindM (emitM (Stdout (''config: s3_bucket='' @ s3_bucket ps))) (\<lambda>_.
     bindM (emitM (Stdout (''config: s3_prefix='' @ s3_prefix ps))) (\<lambda>_.
     case mode ps of
       InitKey \<Rightarrow>
         bindM (initialize_key_material P s3 client ps) (\<lambda>initialized.
         bindM (emitM (Stdout ''mode: init-key'')) (\<lambda>_.
         bindM (emitM (Stdout (''public_key_base64: ''
             @ base64_encode (crates P) (public_key initialized)))) (\<lambda>_.
         emitM (Stdout (''public_key_fingerprint_sha256: '' @ fingerprint initialized)))))
     | Serve \<Rightarrow>
         bindM (restore_key_material P s3 client ps) (\<lambda>restored.
         bindM (emitM (Stdout ''mode: restore'')) (\<lambda>_.
         bindM (emitM (Stdout (''kms_recovery_key_arn: '' @ restored_kms_key_arn restored))) (\<lambda>_.
         bindM (emitM (Stdout (''public_key_base64: ''
             @ base64_encode (crates P) (public_key restored)))) (\<lambda>_.
         emitM (Stdout (''public_key_fingerprint_sha256: '' @ fingerprint restored))))))))))))"

end
