(* ===== verification/Key_Schedule.thy ===== *)
theory Key_Schedule
  imports Key_Material
begin

text \<open>
  The order of the externally visible steps of initialisation and restoring: requests to the broker,
  data-key operations at KMS and random draws. Nothing is assumed about the peers.
\<close>

section \<open>Steps\<close>

datatype step = Request broker_request | Generate "string option" | Unwrap | Drawn nat

fun step_of :: "event \<Rightarrow> step list" where
  "step_of (Send _ rq) = [Request rq]"
| "step_of (Kms_Generate _ rq) = [Generate (sdk_key_id rq)]"
| "step_of (Nitro_Generate _ k _) = [Generate (Some k)]"
| "step_of (Kms_Decrypt _ _) = [Unwrap]"
| "step_of (Nitro_Decrypt _ _ _) = [Unwrap]"
| "step_of (Draw n) = [Drawn n]"
| "step_of _ = []"

definition steps_of :: "event list \<Rightarrow> step list" where
  "steps_of evs = concat (map step_of evs)"

lemma steps_of_simps [simp]:
  "steps_of [] = []"
  "steps_of (ev # evs) = step_of ev @ steps_of evs"
  "steps_of (evs @ evs') = steps_of evs @ steps_of evs'"
  by (simp_all add: steps_of_def)

lemma steps_of_requesting:
  "list_all (requesting ep rq) evs \<Longrightarrow> steps_of evs = map Request (requests_of evs)"
proof (induction evs)
  case (Cons ev evs)
  then show ?case
    by (cases ev) (auto simp: requesting_def requests_of_def)
qed simp

section \<open>Operations that follow a script\<close>

text \<open>
  \<open>follows m Q E\<close>: a successful run with result \<open>x\<close> takes steps in \<open>Q x\<close>, a failing
  one steps in \<open>E\<close>, and no run panics.
\<close>

fun ends ::
    "('a \<Rightarrow> step list \<Rightarrow> bool) \<Rightarrow> (step list \<Rightarrow> bool) \<Rightarrow> step list \<Rightarrow> 'a app_result \<Rightarrow> bool" where
  "ends Q E l (Inr x) = Q x l"
| "ends Q E l (Inl e) = (E l \<and> \<not> panics (Inl e :: 'a app_result))"

definition follows ::
    "('w, 'a) io \<Rightarrow> ('a \<Rightarrow> step list \<Rightarrow> bool) \<Rightarrow> (step list \<Rightarrow> bool) \<Rightarrow> bool" where
  "follows m Q E \<longleftrightarrow> emits m (\<lambda>evs r. ends Q E (steps_of evs) r)"

lemma ends_mono:
  "ends Q E l r \<Longrightarrow> (\<And>x. Q x l \<Longrightarrow> Q' x l') \<Longrightarrow> (E l \<Longrightarrow> E' l') \<Longrightarrow> ends Q' E' l' r"
  by (cases r) auto

lemma follows_mono:
  "follows m Q E \<Longrightarrow> (\<And>x l. Q x l \<Longrightarrow> Q' x l) \<Longrightarrow> (\<And>l. E l \<Longrightarrow> E' l) \<Longrightarrow> follows m Q' E'"
  unfolding follows_def by (erule emits_mono) (erule ends_mono, blast+)

lemma follows_bindM:
  assumes "follows m Q E" and "\<And>l. E l \<Longrightarrow> E' l"
    and "\<And>x l. Q x l \<Longrightarrow> follows (k x) (\<lambda>y l'. Q' y (l @ l')) (\<lambda>l'. E' (l @ l'))"
  shows "follows (bindM m k) Q' E'"
  unfolding follows_def
proof (rule emits_bindM [OF assms(1) [unfolded follows_def]])
  fix evs x
  assume "ends Q E (steps_of evs) (Inr x)"
  then have "follows (k x) (\<lambda>y l'. Q' y (steps_of evs @ l')) (\<lambda>l'. E' (steps_of evs @ l'))"
    by (auto intro: assms(3))
  then show "emits (k x) (\<lambda>evs' r. ends Q' E' (steps_of (evs @ evs')) r)"
    unfolding follows_def by (rule emits_mono) (erule ends_mono, simp_all)
qed (auto intro: assms(2))

lemma follows_returnM: "Q x [] \<Longrightarrow> follows (returnM x) Q E"
  by (simp add: follows_def emits_returnM)

lemma follows_throwM: "E [] \<Longrightarrow> (\<And>msg. e \<noteq> Panic msg) \<Longrightarrow> follows (throwM e) Q E"
  by (simp add: follows_def emits_throwM)

lemma follows_liftM_bind:
  "\<not> panics r \<Longrightarrow> E [] \<Longrightarrow> (\<And>x. r = Inr x \<Longrightarrow> follows (k x) Q E) \<Longrightarrow> follows (bindM (liftM r) k) Q E"
  unfolding follows_def by (rule emits_liftM_bind) auto

lemma follows_liftM: "\<not> panics r \<Longrightarrow> E [] \<Longrightarrow> (\<And>x. r = Inr x \<Longrightarrow> Q x []) \<Longrightarrow> follows (liftM r) Q E"
  unfolding follows_def by (rule emits_liftM) (cases r; auto)

lemma follows_callM_bind:
  assumes "\<And>x. follows (k x) (\<lambda>y l. Q y (step_of ev @ l)) (\<lambda>l. E (step_of ev @ l))"
  shows "follows (bindM (callM ev f) k) Q E"
  unfolding follows_def
  by (rule emits_callM_bind, rule emits_mono [OF assms [unfolded follows_def]])
    (erule ends_mono, simp_all)

lemma follows_emitM_bind:
  "step_of ev = [] \<Longrightarrow> follows (k ()) Q E \<Longrightarrow> follows (bindM (emitM ev) k) Q E"
  unfolding emitM_def by (rule follows_callM_bind) simp

lemma follows_emitM: "step_of ev = [] \<Longrightarrow> Q () [] \<Longrightarrow> follows (emitM ev) Q E"
  unfolding follows_def by (rule emits_emitM) simp

section \<open>The building blocks\<close>

lemma prefix_single: "prefix l [x] \<longleftrightarrow> l = [] \<or> l = [x]"
  by (cases l) auto

lemma follows_request:
  assumes "emits m (\<lambda>evs r. list_all (requesting ep rq) evs
        \<and> (requests_of evs = [rq] \<or> requests_of evs = [] \<and> \<not> is_ok r) \<and> \<not> panics r)"
  shows "follows m (\<lambda>x l. l = [Request rq]) (\<lambda>l. prefix l [Request rq])"
  unfolding follows_def
proof (rule emits_mono [OF assms])
  fix evs and r :: "'b app_result"
  show "ends (\<lambda>x l. l = [Request rq]) (\<lambda>l. prefix l [Request rq]) (steps_of evs) r"
    if "list_all (requesting ep rq) evs
        \<and> (requests_of evs = [rq] \<or> requests_of evs = [] \<and> \<not> is_ok r) \<and> \<not> panics r"
    using that by (cases r) (auto simp: steps_of_requesting prefix_single)
qed

lemmas follows_load_object = follows_request [OF emits_load_object]
lemmas follows_save_object = follows_request [OF emits_save_object_if_absent]

lemma follows_key_operation:
  assumes "emits m (key_operation ep sl kms_calls)"
    and "\<And>calls. kms_calls calls True \<Longrightarrow> steps_of calls = [x]"
    and "\<And>calls. kms_calls calls False \<Longrightarrow> steps_of calls = [x] \<or> steps_of calls = []"
    and "\<not> kms_calls [] True"
  shows "follows m (\<lambda>y l. l = [Request (GetAwsCredentials sl), x])
    (\<lambda>l. prefix l [Request (GetAwsCredentials sl), x])"
  unfolding follows_def
proof (rule emits_mono [OF assms(1)])
  fix evs and r :: "'b app_result"
  assume "key_operation ep sl kms_calls evs r"
  then obtain conn calls where run: "evs = conn @ calls"
    "list_all (requesting ep (GetAwsCredentials sl)) conn"
    "requests_of conn = [GetAwsCredentials sl] \<or> requests_of conn = [] \<and> calls = []"
    "kms_calls calls (is_ok r)" "\<not> panics r"
    by (auto simp: key_operation_def)
  note calls = run(4)
  show "ends (\<lambda>y l. l = [Request (GetAwsCredentials sl), x])
      (\<lambda>l. prefix l [Request (GetAwsCredentials sl), x]) (steps_of evs) r"
  proof (cases r)
    case (Inl e)
    with calls assms(3) [of calls] have "steps_of calls = [x] \<or> steps_of calls = []" by simp
    with run Inl show ?thesis by (auto simp: steps_of_requesting prefix_single)
  next
    case (Inr y)
    with calls assms(2) [of calls] assms(4) have "steps_of calls = [x]" "calls \<noteq> []" by auto
    with run Inr show ?thesis by (auto simp: steps_of_requesting)
  qed
qed

lemma follows_generate_data_key:
  "follows (generate_data_key P client ps key)
     (\<lambda>g l. l = [Request (GetAwsCredentials (slot key)), Generate (Some (key_arn key))])
     (\<lambda>l. prefix l [Request (GetAwsCredentials (slot key)), Generate (Some (key_arn key))])"
  by (rule follows_key_operation [OF emits_generate_data_key])
    (auto simp: generate_calls_def generate_request_eq kms_request_settings_key_id
      split: if_splits kms_client.splits)

lemma follows_decrypt_data_key:
  "follows (decrypt_data_key P client ps key e)
     (\<lambda>g l. l = [Request (GetAwsCredentials (slot key)), Unwrap])
     (\<lambda>l. prefix l [Request (GetAwsCredentials (slot key)), Unwrap])"
  by (rule follows_key_operation [OF emits_decrypt_data_key])
    (auto simp: decrypt_calls_def split: if_splits kms_client.splits)

lemma follows_restore_from_package:
  "follows (restore_from_package P client ps key package public)
     (\<lambda>g l. l = [Request (GetAwsCredentials (slot key)), Unwrap])
     (\<lambda>l. prefix l [Request (GetAwsCredentials (slot key)), Unwrap])"
  unfolding restore_from_package_def
  by (auto intro!: follows_throwM follows_liftM_bind follows_bindM [OF follows_decrypt_data_key]
      follows_returnM simp: Let_def package_version_unsupported_def private_key_mismatch_def)

lemma follows_verify_uploaded_object:
  "follows (verify_uploaded_object P s3 b k h)
     (\<lambda>g l. l = [Request (LoadObject b k)]) (\<lambda>l. prefix l [Request (LoadObject b k)])"
  unfolding verify_uploaded_object_def
  by (auto intro!: follows_bindM [OF follows_load_object] follows_liftM_bind follows_liftM
      simp: object_disappeared_def)

section \<open>Initialisation\<close>

text \<open>The steps for one key, whose package is stored as \<open>k\<close> with content \<open>body\<close>.\<close>

definition key_steps :: "parent_settings \<Rightarrow> kms_key_settings \<Rightarrow> string \<times> bytes \<Rightarrow> step list" where
  "key_steps ps key pkg =
     [Request (GetAwsCredentials (slot key)), Generate (Some (key_arn key)),
      Drawn aes_gcm_nonce_length,
      Request (SaveObjectIfAbsent (s3_bucket ps) (fst pkg) (snd pkg)),
      Request (LoadObject (s3_bucket ps) (fst pkg)),
      Request (GetAwsCredentials (slot key)), Unwrap]"

definition manifest_key :: "parent_settings \<Rightarrow> string" where
  "manifest_key ps = join_key (s3_prefix ps) manifest_file_name"

definition is_package_key :: "parent_settings \<Rightarrow> string \<Rightarrow> bool" where
  "is_package_key ps k \<longleftrightarrow> starts_with (join_key (s3_prefix ps) ''kms-key-'') k"

definition is_public_key :: "parent_settings \<Rightarrow> string \<Rightarrow> bool" where
  "is_public_key ps k \<longleftrightarrow> starts_with (join_key (s3_prefix ps) ''public_key_sha256-'') k"

lemma manifest_key_differs:
  "\<not> is_package_key ps (manifest_key ps)" "\<not> is_public_key ps (manifest_key ps)"
  by (simp_all add: is_package_key_def is_public_key_def manifest_key_def starts_with_iff join_key_def
      manifest_file_name_def)

text \<open>All steps of a complete initialisation.\<close>

definition init_steps ::
    "parent_settings \<Rightarrow> (string \<times> bytes) list \<Rightarrow> string \<times> bytes \<Rightarrow> bytes \<Rightarrow> step list" where
  "init_steps ps pkgs pub man =
     [Request (LoadObject (s3_bucket ps) (manifest_key ps)), Drawn ed25519_private_key_length]
     @ concat (map2 (key_steps ps) (kms_keys ps) pkgs)
     @ [Request (SaveObjectIfAbsent (s3_bucket ps) (fst pub) (snd pub)),
        Request (LoadObject (s3_bucket ps) (fst pub)),
        Request (SaveObjectIfAbsent (s3_bucket ps) (manifest_key ps) man)]"

lemma follows_initialize_key:
  assumes "libs_ok (crates P)"
  shows "follows (initialize_key P s3 client ps private_key public key)
     (\<lambda>ref l. \<exists>pkg. is_package_key ps (fst pkg) \<and> l = key_steps ps key pkg
        \<and> recovery_object_key ref = fst pkg \<and> recovery_kms_key_arn ref = key_arn key)
     (\<lambda>l. \<exists>pkg. is_package_key ps (fst pkg) \<and> prefix l (key_steps ps key pkg))"
proof -
  have some: "\<exists>k. is_package_key ps k"
    by (auto simp: is_package_key_def starts_with_iff)
  then have start: "\<exists>k body. is_package_key ps k \<and> prefix l (key_steps ps key (k, body))"
    if "prefix l [Request (GetAwsCredentials (slot key)), Generate (Some (key_arn key)), Drawn aes_gcm_nonce_length]" for l
    using that by (auto simp: key_steps_def prefix_Cons)
  have name: "is_package_key ps (join_key (s3_prefix ps) (package_name a b c))" for a b c
    by (simp add: is_package_key_def package_name_def join_key_def starts_with_iff)
  show ?thesis
    unfolding initialize_key_def Let_def
    apply (rule follows_emitM_bind, simp)
    apply (rule follows_bindM [OF follows_generate_data_key])
    subgoal using start by (fastforce simp: prefix_Cons)
    apply (split if_split, intro conjI impI)
    subgoal by (rule follows_throwM) (use start in \<open>auto simp: unexpected_key_id_def\<close>)
    apply (rule follows_liftM_bind, simp)
    subgoal using start by (simp add: prefix_Cons)
    apply (rule follows_callM_bind)
    apply (rule follows_liftM_bind, simp)
    subgoal using start by (simp add: prefix_Cons)
    apply (rule follows_liftM_bind, simp)
    subgoal using start by (simp add: prefix_Cons)
    apply (rule follows_liftM_bind, simp add: kms_key_storage_id_no_panic [OF assms])
    subgoal using start by (simp add: prefix_Cons)
    apply (rule follows_liftM_bind, simp)
    subgoal using start by (simp add: prefix_Cons)
    subgoal for x l xa xb body sid did
      apply (rule follows_bindM [OF follows_save_object])
      subgoal using name by (fastforce simp: key_steps_def prefix_Cons)
      apply (rule follows_bindM [OF follows_verify_uploaded_object])
      subgoal using name by (fastforce simp: key_steps_def prefix_Cons)
      apply (rule follows_bindM [OF follows_restore_from_package])
      subgoal using name by (fastforce simp: key_steps_def prefix_Cons)
      apply (rule follows_returnM)
      using name by (fastforce simp: key_steps_def)
    done
qed

lemma package_key_exists: "\<exists>k. is_package_key ps k"
  by (auto simp: is_package_key_def starts_with_iff)

definition loop_steps :: "parent_settings \<Rightarrow> kms_key_settings list \<Rightarrow> (string \<times> bytes) list \<Rightarrow> step list" where
  "loop_steps ps keys pkgs = concat (map2 (key_steps ps) keys pkgs)"

definition package_list :: "parent_settings \<Rightarrow> kms_key_settings list \<Rightarrow> (string \<times> bytes) list \<Rightarrow> bool" where
  "package_list ps keys pkgs \<longleftrightarrow>
     length pkgs = length keys \<and> list_all (\<lambda>pkg. is_package_key ps (fst pkg)) pkgs"

lemma package_list_exists: "\<exists>pkgs. package_list ps keys pkgs"
proof -
  obtain k where "is_package_key ps k" using package_key_exists by blast
  then have "package_list ps keys (replicate (length keys) (k, []))"
    by (simp add: package_list_def list_all_length)
  then show ?thesis by blast
qed

lemma package_list_Cons:
  "is_package_key ps (fst pkg) \<Longrightarrow> package_list ps keys pkgs \<Longrightarrow> package_list ps (key # keys) (pkg # pkgs)"
  by (simp add: package_list_def)

lemma loop_steps_Cons: "loop_steps ps (key # keys) (pkg # pkgs) = key_steps ps key pkg @ loop_steps ps keys pkgs"
  by (simp add: loop_steps_def)

lemma follows_initialize_keys:
  assumes "libs_ok (crates P)"
  shows "follows (initialize_keys P s3 client ps private_key public keys)
     (\<lambda>refs l. \<exists>pkgs. package_list ps keys pkgs \<and> l = loop_steps ps keys pkgs
        \<and> map recovery_object_key refs = map fst pkgs \<and> map recovery_kms_key_arn refs = map key_arn keys)
     (\<lambda>l. \<exists>pkgs. package_list ps keys pkgs \<and> prefix l (loop_steps ps keys pkgs))"
proof (induction keys)
  case Nil
  show ?case by (auto intro!: follows_returnM simp: package_list_def loop_steps_def)
next
  case (Cons key keys)
  show ?case
    unfolding initialize_keys.simps
  proof (rule follows_bindM [OF follows_initialize_key [OF assms]])
    fix l
    assume "\<exists>pkg. is_package_key ps (fst pkg) \<and> prefix l (key_steps ps key pkg)"
    then obtain pkg where pkg: "is_package_key ps (fst pkg)" "prefix l (key_steps ps key pkg)" by blast
    obtain pkgs where "package_list ps keys pkgs" using package_list_exists by blast
    with pkg have "package_list ps (key # keys) (pkg # pkgs)"
      and "prefix l (loop_steps ps (key # keys) (pkg # pkgs))"
      by (auto intro: package_list_Cons simp: loop_steps_Cons)
    then show "\<exists>pkgs. package_list ps (key # keys) pkgs \<and> prefix l (loop_steps ps (key # keys) pkgs)"
      by blast
  next
    fix ref :: recovery_object_reference and l
    assume "\<exists>pkg. is_package_key ps (fst pkg) \<and> l = key_steps ps key pkg
      \<and> recovery_object_key ref = fst pkg \<and> recovery_kms_key_arn ref = key_arn key"
    then obtain pkg where pkg: "is_package_key ps (fst pkg)" "l = key_steps ps key pkg"
      "recovery_object_key ref = fst pkg" "recovery_kms_key_arn ref = key_arn key" by blast
    have more: "package_list ps (key # keys) (pkg # pkgs)
        \<and> loop_steps ps (key # keys) (pkg # pkgs) = l @ loop_steps ps keys pkgs"
      if "package_list ps keys pkgs" for pkgs
      using that pkg by (simp add: package_list_Cons loop_steps_Cons)
    show "follows (bindM (initialize_keys P s3 client ps private_key public keys) (\<lambda>refs. returnM (ref # refs)))
      (\<lambda>refs l'. \<exists>pkgs. package_list ps (key # keys) pkgs \<and> l @ l' = loop_steps ps (key # keys) pkgs
        \<and> map recovery_object_key refs = map fst pkgs
        \<and> map recovery_kms_key_arn refs = map key_arn (key # keys))
      (\<lambda>l'. \<exists>pkgs. package_list ps (key # keys) pkgs \<and> prefix (l @ l') (loop_steps ps (key # keys) pkgs))"
    proof (rule follows_bindM [OF Cons])
      fix l'
      assume "\<exists>pkgs. package_list ps keys pkgs \<and> prefix l' (loop_steps ps keys pkgs)"
      with more show "\<exists>pkgs. package_list ps (key # keys) pkgs \<and> prefix (l @ l') (loop_steps ps (key # keys) pkgs)"
        by (metis same_prefix_prefix)
    next
      fix refs :: "recovery_object_reference list" and l'
      assume "\<exists>pkgs. package_list ps keys pkgs \<and> l' = loop_steps ps keys pkgs
        \<and> map recovery_object_key refs = map fst pkgs \<and> map recovery_kms_key_arn refs = map key_arn keys"
      then obtain pkgs where pkgs: "package_list ps keys pkgs" "l' = loop_steps ps keys pkgs"
        "map recovery_object_key refs = map fst pkgs" "map recovery_kms_key_arn refs = map key_arn keys" by blast
      show "follows (returnM (ref # refs))
        (\<lambda>y l''. \<exists>pkgs. package_list ps (key # keys) pkgs \<and> l @ l' @ l'' = loop_steps ps (key # keys) pkgs
          \<and> map recovery_object_key y = map fst pkgs \<and> map recovery_kms_key_arn y = map key_arn (key # keys))
        (\<lambda>l''. \<exists>pkgs. package_list ps (key # keys) pkgs \<and> prefix (l @ l' @ l'') (loop_steps ps (key # keys) pkgs))"
        by (rule follows_returnM, rule exI [of _ "pkg # pkgs"]) (use more [OF pkgs(1)] pkgs pkg in simp)
    qed
  qed
qed

text \<open>The steps of an initialisation that has succeeded, or of one that has failed underway.\<close>

definition init_complete :: "parent_settings \<Rightarrow> step list \<Rightarrow> bool" where
  "init_complete ps l \<longleftrightarrow>
     (\<exists>pkgs pub man. package_list ps (kms_keys ps) pkgs \<and> is_public_key ps (fst pub)
        \<and> l = init_steps ps pkgs pub man)"

definition init_underway :: "parent_settings \<Rightarrow> step list \<Rightarrow> bool" where
  "init_underway ps l \<longleftrightarrow>
     (\<exists>pkgs pub man. package_list ps (kms_keys ps) pkgs \<and> is_public_key ps (fst pub)
        \<and> prefix l (init_steps ps pkgs pub man))"

lemma init_underwayI:
  assumes "package_list ps (kms_keys ps) pkgs" and "is_public_key ps k"
    and "prefix l ([Request (LoadObject (s3_bucket ps) (manifest_key ps)), Drawn ed25519_private_key_length]
      @ loop_steps ps (kms_keys ps) pkgs
      @ [Request (SaveObjectIfAbsent (s3_bucket ps) k body), Request (LoadObject (s3_bucket ps) k),
         Request (SaveObjectIfAbsent (s3_bucket ps) (manifest_key ps) man)])"
  shows "init_underway ps l"
  unfolding init_underway_def
  by (rule exI [of _ pkgs], rule exI [of _ "(k, body)"], rule exI [of _ man])
    (use assms in \<open>simp add: init_steps_def loop_steps_def\<close>)

lemma init_completeI:
  assumes "package_list ps (kms_keys ps) pkgs" and "is_public_key ps k"
    and "l = [Request (LoadObject (s3_bucket ps) (manifest_key ps)), Drawn ed25519_private_key_length]
      @ loop_steps ps (kms_keys ps) pkgs
      @ [Request (SaveObjectIfAbsent (s3_bucket ps) k body), Request (LoadObject (s3_bucket ps) k),
         Request (SaveObjectIfAbsent (s3_bucket ps) (manifest_key ps) man)]"
  shows "init_complete ps l"
  unfolding init_complete_def
  by (rule exI [of _ pkgs], rule exI [of _ "(k, body)"], rule exI [of _ man])
    (use assms in \<open>simp add: init_steps_def loop_steps_def\<close>)

lemma follows_initialize_key_material:
  assumes "libs_ok (crates P)"
  shows "follows (initialize_key_material P s3 client ps) (\<lambda>x l. init_complete ps l) (init_underway ps)"
proof -
  have pub: "is_public_key ps (join_key (s3_prefix ps) (''public_key_sha256-'' @ x))" for x
    by (simp add: is_public_key_def join_key_def starts_with_iff)
  obtain pkgs0 where pkgs0: "package_list ps (kms_keys ps) pkgs0"
    using package_list_exists by blast
  note early = init_underwayI [OF pkgs0 pub]
  show ?thesis
    unfolding initialize_key_material_def Let_def manifest_key_def [symmetric]
    apply (rule follows_emitM_bind, simp)
    apply (rule follows_bindM [OF follows_load_object])
    subgoal by (rule early) (auto simp: prefix_Cons)
    apply (split if_split, intro conjI impI)
    subgoal by (rule follows_throwM, rule early) (auto simp: prefix_Cons manifest_exists_def)
    apply (rule follows_callM_bind)
    apply (rule follows_liftM_bind, simp)
    subgoal by (rule early) (auto simp: prefix_Cons)
    apply (rule follows_bindM [OF follows_initialize_keys [OF assms]])
    subgoal by (elim exE conjE, erule init_underwayI [OF _ pub]) (auto simp: prefix_Cons)
    apply (elim exE conjE)
    subgoal for x l private_key body refs l' pkgs
      apply (rule follows_bindM [OF follows_save_object])
      subgoal by (rule init_underwayI [OF _ pub], assumption) (auto simp: prefix_Cons)
      apply (rule follows_bindM [OF follows_verify_uploaded_object])
      subgoal by (rule init_underwayI [OF _ pub], assumption) (auto simp: prefix_Cons)
      apply (rule follows_liftM_bind, simp)
      subgoal by (rule init_underwayI [OF _ pub], assumption) (auto simp: prefix_Cons)
      apply (rule follows_bindM [OF follows_save_object])
      subgoal by (rule init_underwayI [OF _ pub], assumption) (auto simp: prefix_Cons)
      apply (rule follows_emitM_bind, simp)
      apply (rule follows_returnM)
      apply (rule init_completeI [OF _ pub], assumption)
      by auto
    done
qed

section \<open>Restoring\<close>

lemma follows_attemptM:
  assumes "follows m Q E" and "\<And>l e. E l \<Longrightarrow> Q' (Inl e) l" and "\<And>l x. Q x l \<Longrightarrow> Q' (Inr x) l"
  shows "follows (attemptM m) Q' E'"
  unfolding follows_def
  by (rule emits_attemptM [OF assms(1) [unfolded follows_def]]) (use assms(2,3) in auto)

text \<open>Steps that read: objects of the settings' bucket, credentials, and decryption at KMS.\<close>

fun read_only :: "parent_settings \<Rightarrow> step \<Rightarrow> bool" where
  "read_only ps (Request (LoadObject b k)) \<longleftrightarrow> b = s3_bucket ps"
| "read_only ps (Request (GetAwsCredentials sl)) \<longleftrightarrow> True"
| "read_only ps Unwrap \<longleftrightarrow> True"
| "read_only ps x \<longleftrightarrow> False"

fun slots_of :: "step list \<Rightarrow> kms_slot list" where
  "slots_of [] = []"
| "slots_of (Request (GetAwsCredentials sl) # l) = sl # slots_of l"
| "slots_of (x # l) = slots_of l"

lemma slots_of_append [simp]: "slots_of (l @ l') = slots_of l @ slots_of l'"
  by (induction l rule: slots_of.induct) auto

definition reads :: "parent_settings \<Rightarrow> kms_slot list \<Rightarrow> step list \<Rightarrow> bool" where
  "reads ps sls l \<longleftrightarrow> list_all (read_only ps) l \<and> subseq (slots_of l) sls"

lemma reads_Nil [simp]: "reads ps sls []"
  by (simp add: reads_def)

lemma reads_append: "reads ps sls l \<Longrightarrow> reads ps sls' l' \<Longrightarrow> reads ps (sls @ sls') (l @ l')"
  by (simp add: reads_def list_emb_append_mono)

lemma reads_load [simp]:
  "reads ps sls (Request (LoadObject (s3_bucket ps) k) # l) \<longleftrightarrow> reads ps sls l"
  by (simp add: reads_def)

lemma reads_unwrap: "prefix l [Request (GetAwsCredentials sl), Unwrap] \<Longrightarrow> reads ps [sl] l"
  by (auto simp: reads_def prefix_Cons)

lemma follows_restore_attempt:
  "follows (restore_attempt P s3 client ps public key ref)
     (\<lambda>x l. reads ps [slot key] l) (\<lambda>l. reads ps [slot key] l)"
  unfolding restore_attempt_def
proof (rule follows_bindM [OF follows_load_object])
  fix l :: "step list"
  assume "prefix l [Request (LoadObject (s3_bucket ps) (recovery_object_key ref))]"
  then show "reads ps [slot key] l" by (auto simp: prefix_single)
next
  fix loaded :: "bytes option" and l
  assume l: "l = [Request (LoadObject (s3_bucket ps) (recovery_object_key ref))]"
  have more: "reads ps [slot key] (l @ l')" if "prefix l' [Request (GetAwsCredentials (slot key)), Unwrap]" for l'
    using reads_unwrap [OF that] l by simp
  then show "follows (bindM (liftM (ok_or (recovery_object_missing (recovery_object_key ref)) loaded)) (\<lambda>body.
      bindM (liftM (verify_sha256 (crates P) ''recovery object'' body (recovery_sha256 ref))) (\<lambda>_.
      bindM (liftM (lib_result (package_of_json (crates P) body))) (\<lambda>package.
      restore_from_package P client ps key package public))))
    (\<lambda>x l'. reads ps [slot key] (l @ l')) (\<lambda>l'. reads ps [slot key] (l @ l'))"
    by (intro follows_liftM_bind follows_mono [OF follows_restore_from_package])
      (auto simp: recovery_object_missing_def l)
qed

lemma follows_restore_loop:
  "follows (restore_loop P s3 client ps m public keys failures)
     (\<lambda>x l. reads ps (map slot keys) l) (\<lambda>l. reads ps (map slot keys) l)"
proof (induction keys arbitrary: failures)
  case Nil
  show ?case by (auto intro!: follows_throwM simp: none_restored_def)
next
  case (Cons key keys)
  have skip: "reads ps (slot key # sls) l" if "reads ps sls l" for sls l
    using reads_append [OF reads_Nil that, of "[slot key]"] by simp
  show ?case
  proof (cases "List.find (\<lambda>ref. recovery_kms_key_arn ref = key_arn key) (recovery_objects m)")
    case None
    then show ?thesis by (simp add: follows_mono [OF Cons] skip)
  next
    case (Some ref)
    have first: "reads ps (slot key # map slot keys) l" if "reads ps [slot key] l" for l
      using reads_append [OF that reads_Nil, of "map slot keys"] by simp
    have both: "reads ps (slot key # map slot keys) (l @ l')"
      if "reads ps [slot key] l" "reads ps (map slot keys) l'" for l l'
      using reads_append [OF that] by simp
    let ?found = "\<lambda>attempt. case attempt of
        Inr _ \<Rightarrow> bindM (emitM (Stdout (''restore: succeeded with '' @ key_arn key))) (\<lambda>_.
          returnM \<lparr>public_key = public, fingerprint = key_fingerprint m, restored_kms_key_arn = key_arn key\<rparr>)
      | Inl e \<Rightarrow> bindM (emitM (Stdout (''restore: failed with '' @ key_arn key @ '': '' @ e))) (\<lambda>_.
          restore_loop P s3 client ps m public keys (failures @ [key_arn key @ '': '' @ e]))"
    have found: "follows (?found attempt) (\<lambda>x l'. reads ps (slot key # map slot keys) (l @ l'))
        (\<lambda>l'. reads ps (slot key # map slot keys) (l @ l'))"
      if l: "reads ps [slot key] l" for attempt :: "string + unit" and l
    proof (cases attempt)
      case (Inl e)
      then show ?thesis
        by (auto intro!: follows_emitM_bind follows_mono [OF Cons] both l)
    next
      case (Inr u)
      then show ?thesis
        by (auto intro!: follows_emitM_bind follows_returnM first l)
    qed
    have attempt: "follows (attemptM (restore_attempt P s3 client ps public key ref))
        (\<lambda>x l. reads ps [slot key] l) (\<lambda>l. reads ps [slot key] l)"
      by (rule follows_attemptM [OF follows_restore_attempt])
    show ?thesis
      unfolding restore_loop.simps Some option.case list.map
      by (rule follows_emitM_bind, simp, rule follows_bindM [OF attempt first], assumption, rule found)
  qed
qed

lemma validators_no_panic [simp]:
  "\<not> panics (validate_manifest m)"
  "\<not> panics (validate_public_document L d m)"
  by (auto simp: validate_manifest_def manifest_version_unsupported_def policy_unsupported_def
      manifest_algorithm_unsupported_def two_objects_required_def validate_public_document_def
      document_unsupported_def fingerprint_mismatch_def Let_def)

lemma follows_restore_key_material:
  "follows (restore_key_material P s3 client ps)
     (\<lambda>x l. reads ps (map slot (kms_keys ps)) l) (reads ps (map slot (kms_keys ps)))"
proof -
  have one: "reads ps sls l" if "prefix l [Request (LoadObject (s3_bucket ps) k)]" for sls k l
    using that by (auto simp: prefix_single)
  show ?thesis
    unfolding restore_key_material_def Let_def
    by (intro follows_emitM_bind follows_bindM [OF follows_load_object] follows_liftM_bind
        follows_mono [OF follows_restore_loop])
      (auto simp: manifest_missing_def public_object_missing_def intro: one)
qed

section \<open>Properties\<close>

fun commits :: "parent_settings \<Rightarrow> step \<Rightarrow> bool" where
  "commits ps (Request (SaveObjectIfAbsent b k body)) \<longleftrightarrow> k = manifest_key ps"
| "commits ps x \<longleftrightarrow> False"

lemma commit_is_last:
  assumes "package_list ps (kms_keys ps) pkgs" and "is_public_key ps (fst pub)"
    and "prefix l (init_steps ps pkgs pub man)" and "list_ex (commits ps) l"
  shows "l = init_steps ps pkgs pub man"
proof -
  define before where "before = [Request (LoadObject (s3_bucket ps) (manifest_key ps)), Drawn ed25519_private_key_length]
     @ concat (map2 (key_steps ps) (kms_keys ps) pkgs)
     @ [Request (SaveObjectIfAbsent (s3_bucket ps) (fst pub) (snd pub)), Request (LoadObject (s3_bucket ps) (fst pub))]"
  have pkg: "fst pkg \<noteq> manifest_key ps" if "pkg \<in> set pkgs" for pkg
    using assms(1) that manifest_key_differs(1) by (auto simp: package_list_def list_all_iff)
  have "fst pub \<noteq> manifest_key ps"
    using assms(2) manifest_key_differs(2) by auto
  then have none: "\<not> list_ex (commits ps) before"
    using pkg by (auto simp: before_def list_ex_iff key_steps_def dest: set_zip_rightD)
  have split: "init_steps ps pkgs pub man = before @ [Request (SaveObjectIfAbsent (s3_bucket ps) (manifest_key ps) man)]"
    by (simp add: init_steps_def before_def)
  from assms(3) have "prefix l before \<or> l = init_steps ps pkgs pub man"
    unfolding split prefix_snoc by blast
  moreover have "\<not> prefix l before"
    using none assms(4) by (auto simp: prefix_def list_ex_append)
  ultimately show ?thesis by blast
qed

text \<open>
  Property C4. The order of an initialisation, whatever the broker, S3 and KMS answer. The manifest
  is looked up before anything is drawn or generated; for each configured key in turn a data key is
  generated with that key, the sealed package is written and read back, and the data key is
  unwrapped again; then the public key is written and read back; the manifest is written last. A run
  that fails stops somewhere along this sequence and never panics, and no run writes the manifest
  unless everything before it has been done.
\<close>

theorem initialization_order:
  assumes "libs_ok (crates P)"
  shows "emits (initialize_key_material P s3 client ps)
    (\<lambda>evs r. \<not> panics r
       \<and> (if is_ok r \<or> list_ex (commits ps) (steps_of evs) then init_complete ps (steps_of evs)
          else init_underway ps (steps_of evs)))"
proof (rule emits_mono [OF follows_initialize_key_material [OF assms, unfolded follows_def]])
  fix evs and r :: "restored_key_pair app_result"
  assume run: "ends (\<lambda>x l. init_complete ps l) (init_underway ps) (steps_of evs) r"
  have "init_complete ps (steps_of evs)"
    if "list_ex (commits ps) (steps_of evs)" "init_underway ps (steps_of evs)"
    using that unfolding init_underway_def init_complete_def by (metis commit_is_last)
  with run show "\<not> panics r
       \<and> (if is_ok r \<or> list_ex (commits ps) (steps_of evs) then init_complete ps (steps_of evs)
          else init_underway ps (steps_of evs))"
    by (cases r) auto
qed

text \<open>
  Property C11. Restoring changes nothing: whatever the peers answer, it only loads objects of the
  configured bucket, requests credentials and unwraps data keys (no write, no data-key generation, no
  random draw), it tries the keys in the configured order, each at most once, and it never panics.
\<close>

theorem restoring_is_read_only:
  "emits (restore_key_material P s3 client ps)
    (\<lambda>evs r. \<not> panics r
       \<and> list_all (read_only ps) (steps_of evs)
       \<and> subseq (slots_of (steps_of evs)) (map slot (kms_keys ps)))"
proof (rule emits_mono [OF follows_restore_key_material [unfolded follows_def]])
  fix evs and r :: "restored_key_pair app_result"
  assume "ends (\<lambda>x l. reads ps (map slot (kms_keys ps)) l) (reads ps (map slot (kms_keys ps))) (steps_of evs) r"
  then show "\<not> panics r \<and> list_all (read_only ps) (steps_of evs)
      \<and> subseq (slots_of (steps_of evs)) (map slot (kms_keys ps))"
    by (cases r) (auto simp: reads_def)
qed

end
