(* ===== verification/Key_Guarantees.thy ===== *)
theory Key_Guarantees
  imports Key_Schedule
begin

text \<open>
  What initialisation and restoring guarantee about the key material. The first part holds for any
  peers: the configuration check, and what a successful restore has verified. The second part is the
  locale \<open>key_store\<close>: over a store that keeps the contract of \<^theory_text>\<open>object_store\<close> and a KMS
  that unwraps what it wrapped, a successful initialisation leaves recoverable key material, which
  stays recoverable and is restored to the same key.
\<close>

section \<open>Configuration check\<close>

definition same_account_warning :: "event list" where
  "same_account_warning =
     [Stderr warning_rule,
      Stderr ''WARNING: primary and backup KMS keys belong to the SAME AWS account'',
      Stderr ''WARNING: recovery still works, but account-level isolation is NOT provided'',
      Stderr warning_rule]"

lemma warn_same_account_run:
  "warn_same_account s = (Inr (), s\<lparr>trace := trace s @ same_account_warning\<rparr>)"
  by (simp add: warn_same_account_def same_account_warning_def io_simps)

text \<open>
  Property C31. The configuration is accepted exactly for two keys with different ARNs, valid account
  fields and one region; the four warning lines are printed exactly if the accounts agree, and
  nothing else happens.
\<close>

theorem kms_configuration_accepted_iff:
  "validate_kms_configuration ps s = (Inr (), t) \<longleftrightarrow>
     (\<exists>k1 k2 a1 a2. kms_keys ps = [k1, k2] \<and> key_arn k1 \<noteq> key_arn k2
        \<and> kms_account_from_arn (key_arn k1) = Inr a1 \<and> kms_account_from_arn (key_arn k2) = Inr a2
        \<and> key_region k1 = key_region k2
        \<and> t = s\<lparr>trace := trace s @ (if a1 = a2 then same_account_warning else [])\<rparr>)"
proof (cases "length (kms_keys ps) = 2")
  case True
  then obtain k1 k2 where keys: "kms_keys ps = [k1, k2]"
    by (auto simp: numeral_2_eq_2 length_Suc_conv)
  show ?thesis
    by (cases "kms_account_from_arn (key_arn k1)"; cases "kms_account_from_arn (key_arn k2)")
      (auto simp: validate_kms_configuration_def keys io_simps whenM_def warn_same_account_run)
next
  case False
  then show ?thesis by (auto simp: validate_kms_configuration_def)
qed

section \<open>What a successful restore has verified\<close>

text \<open>
  A data key opens a package of a public key: the package is of the current version and decrypts
  under the data key to a private key of that public key.
\<close>

definition opens :: "libs \<Rightarrow> recovery_package \<Rightarrow> bytes \<Rightarrow> bytes \<Rightarrow> bool" where
  "opens L package data_key public \<longleftrightarrow>
     (\<exists>enc nonce x. package_version package = key_material_version
        \<and> base64_decode L (encrypted_private_key_base64 package) = Inr enc
        \<and> base64_decode L (private_key_nonce_base64 package) = Inr nonce
        \<and> length nonce = aes_gcm_nonce_length
        \<and> (length data_key = 16 \<or> length data_key = 32)
        \<and> decrypt_private_key L data_key nonce enc = Inr x
        \<and> length x = ed25519_private_key_length
        \<and> verifying_key L x = public)"

lemma restore_from_package_Inr:
  "restore_from_package P client ps key package public s = (Inr x, t) \<longleftrightarrow>
     (\<exists>e p. base64_decode (crates P) (encrypted_data_key_base64 package) = Inr e
        \<and> decrypt_data_key P client ps key e s = (Inr p, t)
        \<and> opens (crates P) package p public)"
proof
  assume "restore_from_package P client ps key package public s = (Inr x, t)"
  then show "\<exists>e p. base64_decode (crates P) (encrypted_data_key_base64 package) = Inr e
        \<and> decrypt_data_key P client ps key e s = (Inr p, t) \<and> opens (crates P) package p public"
    by (auto simp: restore_from_package_def decode_fixed_base64_def Let_def opens_def
        elim!: bindM_InrE split: if_splits)
next
  assume "\<exists>e p. base64_decode (crates P) (encrypted_data_key_base64 package) = Inr e
        \<and> decrypt_data_key P client ps key e s = (Inr p, t) \<and> opens (crates P) package p public"
  then show "restore_from_package P client ps key package public s = (Inr x, t)"
    by (auto simp: restore_from_package_def opens_def decode_base64_def decode_fixed_base64_def
        fixed_bytes_def validate_data_key_len_def io_simps Let_def)
qed

lemma restore_attempt_Inr:
  "restore_attempt P s3 client ps public key ref s = (Inr x, t) \<longleftrightarrow>
     (\<exists>body package u. load_object P s3 (s3_bucket ps) (recovery_object_key ref) s = (Inr (Some body), u)
        \<and> sha256_hex (crates P) body = recovery_sha256 ref
        \<and> package_of_json (crates P) body = Inr package
        \<and> restore_from_package P client ps key package public u = (Inr (), t))"
  by (auto simp: restore_attempt_def io_simps verify_sha256_def Let_def
      split: prod.splits sum.splits option.splits if_splits)

text \<open>
  \<open>precedes s t\<close>: state \<open>t\<close> continues the events of \<open>s\<close>. What a run loaded and unwrapped is
  given by an operation between two states that lie in order between its first and its last.
\<close>

definition precedes :: "'w sys \<Rightarrow> 'w sys \<Rightarrow> bool" where
  "precedes s t \<longleftrightarrow> prefix (trace s) (trace t)"

lemma precedes_refl [simp]: "precedes s s"
  by (simp add: precedes_def)

lemma precedes_trans: "precedes s t \<Longrightarrow> precedes t u \<Longrightarrow> precedes s u"
  unfolding precedes_def by (rule prefix_order.trans)

lemma precedes_event [simp]:
  "precedes s (s\<lparr>trace := trace s @ evs\<rparr>)" "precedes s \<lparr>world = w, trace = trace s @ evs\<rparr>"
  "precedes (s\<lparr>trace := trace s @ evs\<rparr>) t \<Longrightarrow> precedes s t"
  by (auto simp: precedes_def intro: append_prefixD)

lemma follows_precedes: "follows m Q E \<Longrightarrow> m s = (r, t) \<Longrightarrow> precedes s t"
  unfolding follows_def precedes_def by (auto dest: emitsD)

definition loaded_during ::
    "('w, 'z) platform_scheme \<Rightarrow> endpoint \<Rightarrow> string \<Rightarrow> 'w sys \<Rightarrow> 'w sys \<Rightarrow> string \<Rightarrow> bytes \<Rightarrow> bool" where
  "loaded_during P s3 bucket s t k body \<longleftrightarrow>
     (\<exists>u v. precedes s u \<and> load_object P s3 bucket k u = (Inr (Some body), v) \<and> precedes v t)"

definition unwrapped_during ::
    "('w, 'z) platform_scheme \<Rightarrow> kms_client \<Rightarrow> parent_settings \<Rightarrow> 'w sys \<Rightarrow> 'w sys \<Rightarrow> kms_key_settings
     \<Rightarrow> bytes \<Rightarrow> bytes \<Rightarrow> bool" where
  "unwrapped_during P client ps s t key e p \<longleftrightarrow>
     (\<exists>u v. precedes s u \<and> decrypt_data_key P client ps key e u = (Inr p, v) \<and> precedes v t)"

lemma during_mono:
  "precedes s s' \<Longrightarrow> precedes t' t \<Longrightarrow> loaded_during P s3 b s' t' k body \<Longrightarrow> loaded_during P s3 b s t k body"
  "precedes s s' \<Longrightarrow> precedes t' t \<Longrightarrow> unwrapped_during P client ps s' t' key e p \<Longrightarrow>
     unwrapped_during P client ps s t key e p"
  unfolding loaded_during_def unwrapped_during_def by (blast intro: precedes_trans)+

lemma restore_attempt_during:
  assumes "restore_attempt P s3 client ps public key ref s = (Inr (), t)"
  shows "\<exists>body package e p. loaded_during P s3 (s3_bucket ps) s t (recovery_object_key ref) body
    \<and> sha256_hex (crates P) body = recovery_sha256 ref \<and> package_of_json (crates P) body = Inr package
    \<and> base64_decode (crates P) (encrypted_data_key_base64 package) = Inr e
    \<and> unwrapped_during P client ps s t key e p \<and> opens (crates P) package p public"
proof -
  from assms obtain body package u e p where
    load: "load_object P s3 (s3_bucket ps) (recovery_object_key ref) s = (Inr (Some body), u)"
    and rest: "sha256_hex (crates P) body = recovery_sha256 ref" "package_of_json (crates P) body = Inr package"
      "base64_decode (crates P) (encrypted_data_key_base64 package) = Inr e"
      "opens (crates P) package p public"
    and unwrap: "decrypt_data_key P client ps key e u = (Inr p, t)"
    by (auto simp: restore_attempt_Inr restore_from_package_Inr)
  have "precedes s u" "precedes u t"
    using follows_precedes [OF follows_load_object load] follows_precedes [OF follows_decrypt_data_key unwrap] .
  with load unwrap have "loaded_during P s3 (s3_bucket ps) s t (recovery_object_key ref) body"
    "unwrapped_during P client ps s t key e p"
    unfolding loaded_during_def unwrapped_during_def by (blast intro: precedes_refl)+
  with rest show ?thesis by blast
qed

lemma restore_loop_Inr:
  "restore_loop P s3 client ps m public keys failures s = (Inr kp, t) \<Longrightarrow>
     \<exists>key ref u v. key \<in> set keys \<and> ref \<in> set (recovery_objects m)
       \<and> recovery_kms_key_arn ref = key_arn key
       \<and> restore_attempt P s3 client ps public key ref u = (Inr (), v) \<and> precedes s u \<and> precedes v t
       \<and> kp = \<lparr>public_key = public, fingerprint = key_fingerprint m, restored_kms_key_arn = key_arn key\<rparr>"
proof (induction keys arbitrary: failures s)
  case (Cons key keys)
  show ?case
  proof (cases "List.find (\<lambda>ref. recovery_kms_key_arn ref = key_arn key) (recovery_objects m)")
    case None
    with Cons show ?thesis by fastforce
  next
    case (Some ref)
    then have ref: "ref \<in> set (recovery_objects m)" "recovery_kms_key_arn ref = key_arn key"
      by (auto simp: find_Some_iff)
    obtain r u where run: "restore_attempt P s3 client ps public key ref
        (s\<lparr>trace := trace s @ [Stdout (''restore: trying '' @ key_arn key)]\<rparr>) = (r, u)" by force
    show ?thesis
    proof (cases r)
      case (Inr x)
      with Cons.prems Some run have "kp = \<lparr>public_key = public, fingerprint = key_fingerprint m,
          restored_kms_key_arn = key_arn key\<rparr>" "precedes u t"
        by (auto simp: io_simps attemptM_def)
      moreover have "precedes s (s\<lparr>trace := trace s @ [Stdout (''restore: trying '' @ key_arn key)]\<rparr>)" by simp
      ultimately show ?thesis using run Inr ref by (metis list.set_intros(1) old.unit.exhaust)
    next
      case (Inl e)
      show ?thesis
      proof (cases e)
        case (Err msg)
        with Cons.prems Some run Inl have "restore_loop P s3 client ps m public keys
            (failures @ [key_arn key @ '': '' @ msg])
            (u\<lparr>trace := trace u @ [Stdout (''restore: failed with '' @ key_arn key @ '': '' @ msg)]\<rparr>) = (Inr kp, t)"
          by (simp add: io_simps attemptM_def)
        note next_run = this
        have mid: "precedes s (u\<lparr>trace := trace u @ [Stdout (''restore: failed with '' @ key_arn key @ '': '' @ msg)]\<rparr>)"
          using precedes_event(3) [OF follows_precedes [OF follows_restore_attempt run]] precedes_event(1)
          by (rule precedes_trans)
        from Cons.IH [OF next_run] obtain key' ref' u' v' where "key' \<in> set keys" "ref' \<in> set (recovery_objects m)"
          "recovery_kms_key_arn ref' = key_arn key'"
          "restore_attempt P s3 client ps public key' ref' u' = (Inr (), v')" "precedes v' t"
          "kp = \<lparr>public_key = public, fingerprint = key_fingerprint m, restored_kms_key_arn = key_arn key'\<rparr>"
          and "precedes s u'"
          using precedes_trans [OF mid] by blast
        then show ?thesis by (intro exI [of _ key'] exI [of _ ref'] exI [of _ u'] exI [of _ v']) simp
      next
        case (Panic msg)
        with Cons.prems Some run Inl show ?thesis by (simp add: io_simps attemptM_def)
      qed
    qed
  qed
qed simp

lemma validate_public_document_Inr:
  "validate_public_document L d m = Inr pk \<longleftrightarrow>
     document_version d = key_material_version \<and> algorithm d = private_key_algorithm
     \<and> base64_decode L (public_key_base64 d) = Inr pk \<and> length pk = 32
     \<and> sha256_hex L pk = fingerprint_sha256 d \<and> sha256_hex L pk = key_fingerprint m"
  by (auto simp: validate_public_document_def decode_fixed_base64_def Let_def)

lemma restore_key_material_InrE:
  assumes "restore_key_material P s3 client ps s = (Inr kp, t)"
  obtains body m u pbody d pk w where
    "load_object P s3 (s3_bucket ps) (manifest_key ps)
      (s\<lparr>trace := trace s @ [Stdout (''startup: loading '' @ s3_url (s3_bucket ps) (manifest_key ps))]\<rparr>)
      = (Inr (Some body), u)"
    "manifest_of_json (crates P) body = Inr m" "validate_manifest m = Inr ()"
    "load_object P s3 (s3_bucket ps) (object_key (manifest_public_key m)) u = (Inr (Some pbody), w)"
    "sha256_hex (crates P) pbody = object_sha256 (manifest_public_key m)"
    "document_of_json (crates P) pbody = Inr d" "validate_public_document (crates P) d m = Inr pk"
    "restore_loop P s3 client ps m pk (kms_keys ps) [] w = (Inr kp, t)"
  using assms unfolding restore_key_material_def Let_def manifest_key_def [symmetric]
  by (fastforce elim!: bindM_InrE)

lemma validate_manifest_Inr:
  "validate_manifest m = Inr () \<longleftrightarrow> manifest_version m = 2 \<and> recovery_policy m = ''any-one''
     \<and> manifest_algorithm m = ''ED25519'' \<and> manifest_encryption m = ''AES-GCM''
     \<and> length (recovery_objects m) = 2"
  by (auto simp: validate_manifest_def key_material_version_def private_key_algorithm_def
      private_key_encryption_def)

lemma restore_loop_during:
  assumes "restore_loop P s3 client ps m public keys failures s = (Inr kp, t)"
  shows "\<exists>key ref body package e p. key \<in> set keys \<and> restored_kms_key_arn kp = key_arn key
    \<and> ref \<in> set (recovery_objects m) \<and> recovery_kms_key_arn ref = key_arn key
    \<and> loaded_during P s3 (s3_bucket ps) s t (recovery_object_key ref) body
    \<and> sha256_hex (crates P) body = recovery_sha256 ref \<and> package_of_json (crates P) body = Inr package
    \<and> base64_decode (crates P) (encrypted_data_key_base64 package) = Inr e
    \<and> unwrapped_during P client ps s t key e p \<and> opens (crates P) package p public
    \<and> public_key kp = public \<and> fingerprint kp = key_fingerprint m"
proof -
  from restore_loop_Inr [OF assms] obtain key ref u v where key: "key \<in> set keys"
    "ref \<in> set (recovery_objects m)" "recovery_kms_key_arn ref = key_arn key"
    and attempt: "restore_attempt P s3 client ps public key ref u = (Inr (), v)" "precedes s u" "precedes v t"
    and kp: "kp = \<lparr>public_key = public, fingerprint = key_fingerprint m, restored_kms_key_arn = key_arn key\<rparr>"
    by blast
  from restore_attempt_during [OF attempt(1)] during_mono [OF attempt(2,3)] obtain body package e p where
    "loaded_during P s3 (s3_bucket ps) s t (recovery_object_key ref) body"
    "sha256_hex (crates P) body = recovery_sha256 ref" "package_of_json (crates P) body = Inr package"
    "base64_decode (crates P) (encrypted_data_key_base64 package) = Inr e"
    "unwrapped_during P client ps s t key e p" "opens (crates P) package p public" by blast
  with key kp show ?thesis
    by (intro exI [of _ key] exI [of _ ref] exI [of _ body] exI [of _ package] exI [of _ e] exI [of _ p]) simp
qed

text \<open>
  Property C8. A restore that succeeds has checked everything it used, whatever the peers answered.
  The bytes it loaded for the manifest hold a manifest of the supported version, policy and algorithms
  with two recovery objects; the bytes it loaded for the public key object have the digest recorded in
  that manifest and hold the result's public key, whose fingerprint is the result's and the manifest's;
  and for one configured key (the one named in the result) the bytes it loaded for that key's recovery
  object have the digest recorded in the manifest, and the data key it unwrapped from them opens them
  to a private key of exactly that public key.
\<close>

theorem restore_is_sound:
  assumes "restore_key_material P s3 client ps s = (Inr kp, t)"
  shows "\<exists>mbody m pbody d key ref body package e data_key.
    loaded_during P s3 (s3_bucket ps) s t (manifest_key ps) mbody
    \<and> manifest_of_json (crates P) mbody = Inr m
    \<and> manifest_version m = 2 \<and> recovery_policy m = ''any-one''
    \<and> manifest_algorithm m = ''ED25519'' \<and> manifest_encryption m = ''AES-GCM''
    \<and> length (recovery_objects m) = 2
    \<and> loaded_during P s3 (s3_bucket ps) s t (object_key (manifest_public_key m)) pbody
    \<and> sha256_hex (crates P) pbody = object_sha256 (manifest_public_key m)
    \<and> document_of_json (crates P) pbody = Inr d
    \<and> document_version d = 2 \<and> algorithm d = ''ED25519''
    \<and> base64_decode (crates P) (public_key_base64 d) = Inr (public_key kp) \<and> length (public_key kp) = 32
    \<and> fingerprint kp = sha256_hex (crates P) (public_key kp)
    \<and> fingerprint_sha256 d = fingerprint kp \<and> key_fingerprint m = fingerprint kp
    \<and> key \<in> set (kms_keys ps) \<and> restored_kms_key_arn kp = key_arn key
    \<and> ref \<in> set (recovery_objects m) \<and> recovery_kms_key_arn ref = key_arn key
    \<and> loaded_during P s3 (s3_bucket ps) s t (recovery_object_key ref) body
    \<and> sha256_hex (crates P) body = recovery_sha256 ref
    \<and> package_of_json (crates P) body = Inr package
    \<and> base64_decode (crates P) (encrypted_data_key_base64 package) = Inr e
    \<and> unwrapped_during P client ps s t key e data_key
    \<and> opens (crates P) package data_key (public_key kp)"
proof -
  obtain mbody m u pbody d pk w where
    man: "load_object P s3 (s3_bucket ps) (manifest_key ps)
      (s\<lparr>trace := trace s @ [Stdout (''startup: loading '' @ s3_url (s3_bucket ps) (manifest_key ps))]\<rparr>)
      = (Inr (Some mbody), u)" "manifest_of_json (crates P) mbody = Inr m" "validate_manifest m = Inr ()"
    and pub: "load_object P s3 (s3_bucket ps) (object_key (manifest_public_key m)) u = (Inr (Some pbody), w)"
      "sha256_hex (crates P) pbody = object_sha256 (manifest_public_key m)"
      "document_of_json (crates P) pbody = Inr d" "validate_public_document (crates P) d m = Inr pk"
    and loop: "restore_loop P s3 client ps m pk (kms_keys ps) [] w = (Inr kp, t)"
    by (rule restore_key_material_InrE [OF assms])
  have su: "precedes s u" and uw: "precedes u w" and wt: "precedes w t"
    using precedes_event(3) [OF follows_precedes [OF follows_load_object man(1)]]
      follows_precedes [OF follows_load_object pub(1)] follows_precedes [OF follows_restore_loop loop] .
  have loads: "loaded_during P s3 (s3_bucket ps) s t (manifest_key ps) mbody"
    "loaded_during P s3 (s3_bucket ps) s t (object_key (manifest_public_key m)) pbody"
    unfolding loaded_during_def
    using man(1) pub(1) su wt precedes_trans [OF uw wt] precedes_event(1) by blast+
  note inside = during_mono [OF precedes_trans [OF su uw] precedes_refl]
  from restore_loop_during [OF loop] obtain key ref body package e p where
    used: "key \<in> set (kms_keys ps)" "restored_kms_key_arn kp = key_arn key" "ref \<in> set (recovery_objects m)"
      "recovery_kms_key_arn ref = key_arn key"
      "loaded_during P s3 (s3_bucket ps) s t (recovery_object_key ref) body"
      "sha256_hex (crates P) body = recovery_sha256 ref" "package_of_json (crates P) body = Inr package"
      "base64_decode (crates P) (encrypted_data_key_base64 package) = Inr e"
      "unwrapped_during P client ps s t key e p" "opens (crates P) package p (public_key kp)"
    and kp: "public_key kp = pk" "fingerprint kp = key_fingerprint m"
    using inside by blast
  have document: "document_version d = 2" "algorithm d = ''ED25519''"
    "base64_decode (crates P) (public_key_base64 d) = Inr (public_key kp)" "length (public_key kp) = 32"
    "fingerprint kp = sha256_hex (crates P) (public_key kp)" "fingerprint_sha256 d = fingerprint kp"
    "key_fingerprint m = fingerprint kp"
    using pub(4) kp by (auto simp: validate_public_document_Inr key_material_version_def private_key_algorithm_def)
  show ?thesis
    by (intro exI [of _ mbody] exI [of _ m] exI [of _ pbody] exI [of _ d] exI [of _ key] exI [of _ ref]
      exI [of _ body] exI [of _ package] exI [of _ e] exI [of _ p])
      (simp only: loads man(2) man(3) [unfolded validate_manifest_Inr] pub(2,3) used(1,3,5-10) used(2,4) document simp_thms)
qed

section \<open>What a successful initialisation has checked\<close>

definition uploaded_during ::
    "('w, 'z) platform_scheme \<Rightarrow> endpoint \<Rightarrow> string \<Rightarrow> 'w sys \<Rightarrow> 'w sys \<Rightarrow> string \<Rightarrow> bytes \<Rightarrow> bool" where
  "uploaded_during P s3 bucket s t k body \<longleftrightarrow>
     (\<exists>u v w body'. precedes s u \<and> save_object_if_absent P s3 bucket k body u = (Inr (), v)
        \<and> load_object P s3 bucket k v = (Inr (Some body'), w)
        \<and> sha256_hex (crates P) body' = sha256_hex (crates P) body \<and> precedes w t)"

lemma uploaded_mono:
  "precedes s s' \<Longrightarrow> precedes t' t \<Longrightarrow> uploaded_during P s3 b s' t' k body \<Longrightarrow> uploaded_during P s3 b s t k body"
  unfolding uploaded_during_def by (blast intro: precedes_trans)

lemma verify_uploaded_object_Inr:
  "verify_uploaded_object P s3 b k h s = (Inr (), t) \<longleftrightarrow>
     (\<exists>body. load_object P s3 b k s = (Inr (Some body), t) \<and> sha256_hex (crates P) body = h)"
  by (auto simp: verify_uploaded_object_def verify_sha256_def Let_def io_simps
      split: prod.splits sum.splits option.splits if_splits)

lemma upload_and_verify:
  assumes "save_object_if_absent P s3 b k body s = (Inr (), u)"
    and "verify_uploaded_object P s3 b k (sha256_hex (crates P) body) u = (Inr (), t)"
  shows "uploaded_during P s3 b s t k body" "precedes s t"
  using assms follows_precedes [OF follows_save_object assms(1)]
    follows_precedes [OF follows_verify_uploaded_object assms(2)]
  unfolding uploaded_during_def verify_uploaded_object_Inr by (blast intro: precedes_refl precedes_trans)+

text \<open>A recovery object as it was checked for a key before it is entered in the manifest.\<close>

definition checked_reference ::
    "('w, 'z) platform_scheme \<Rightarrow> endpoint \<Rightarrow> kms_client \<Rightarrow> parent_settings \<Rightarrow> 'w sys \<Rightarrow> 'w sys \<Rightarrow> bytes
     \<Rightarrow> kms_key_settings \<Rightarrow> recovery_object_reference \<Rightarrow> bool" where
  "checked_reference P s3 client ps s t public key ref \<longleftrightarrow>
     (\<exists>package body e p. recovery_kms_key_arn ref = key_arn key
        \<and> package_to_json (crates P) package = Inr body
        \<and> recovery_sha256 ref = sha256_hex (crates P) body
        \<and> uploaded_during P s3 (s3_bucket ps) s t (recovery_object_key ref) body
        \<and> base64_decode (crates P) (encrypted_data_key_base64 package) = Inr e
        \<and> unwrapped_during P client ps s t key e p
        \<and> opens (crates P) package p public)"

lemma checked_reference_mono:
  "precedes s s' \<Longrightarrow> precedes t' t \<Longrightarrow> checked_reference P s3 client ps s' t' public key ref \<Longrightarrow>
   checked_reference P s3 client ps s t public key ref"
  unfolding checked_reference_def by (blast intro: uploaded_mono during_mono)

lemma initialize_key_checked:
  assumes "initialize_key P s3 client ps x public key s = (Inr ref, t)"
  shows "checked_reference P s3 client ps s t public key ref \<and> precedes s t"
proof -
  from assms obtain s1 g s2 nonce s3' package body k s4 s5 where
    gen: "generate_data_key P client ps key s1 = (Inr g, s2)" "precedes s s1"
    and draw: "callM (Draw aes_gcm_nonce_length) (random_bytes P aes_gcm_nonce_length) s2 = (Inr nonce, s3')"
    and body: "package_to_json (crates P) package = Inr body"
    and save: "save_object_if_absent P s3 (s3_bucket ps) k body s3' = (Inr (), s4)"
    and verify: "verify_uploaded_object P s3 (s3_bucket ps) k (sha256_hex (crates P) body) s4 = (Inr (), s5)"
    and trial: "restore_from_package P client ps key package public s5 = (Inr (), t)"
    and ref: "ref = \<lparr>recovery_kms_key_arn = key_arn key, recovery_object_key = k,
       recovery_sha256 = sha256_hex (crates P) body\<rparr>"
    by (fastforce simp: initialize_key_def Let_def elim!: bindM_InrE split: if_splits)
  have "precedes s2 s3'"
    using draw by (auto simp: callM_run precedes_def)
  with gen(2) follows_precedes [OF follows_generate_data_key gen(1)] have start: "precedes s s3'"
    by (blast intro: precedes_trans)
  note up = upload_and_verify [OF save verify]
  from trial obtain e p where unwrap: "base64_decode (crates P) (encrypted_data_key_base64 package) = Inr e"
    "decrypt_data_key P client ps key e s5 = (Inr p, t)" "opens (crates P) package p public"
    by (auto simp: restore_from_package_Inr)
  have last: "precedes s5 t"
    by (rule follows_precedes [OF follows_decrypt_data_key unwrap(2)])
  have "unwrapped_during P client ps s t key e p"
    unfolding unwrapped_during_def using unwrap(2) precedes_trans [OF start up(2)] precedes_refl by blast
  with body unwrap(1,3) uploaded_mono [OF start last up(1)] ref
    precedes_trans [OF precedes_trans [OF start up(2)] last] show ?thesis
    unfolding checked_reference_def by auto
qed

lemma initialize_keys_checked:
  "initialize_keys P s3 client ps x public keys s = (Inr refs, t) \<Longrightarrow>
   list_all2 (checked_reference P s3 client ps s t public) keys refs \<and> precedes s t"
proof (induction keys arbitrary: refs s)
  case (Cons key keys)
  from Cons.prems obtain ref u refs' where
    first: "initialize_key P s3 client ps x public key s = (Inr ref, u)"
    and rest: "initialize_keys P s3 client ps x public keys u = (Inr refs', t)"
    and refs: "refs = ref # refs'"
    by (auto elim!: bindM_InrE)
  from initialize_key_checked [OF first] Cons.IH [OF rest] have su: "precedes s u" and ut: "precedes u t" by auto
  with initialize_key_checked [OF first] Cons.IH [OF rest] refs show ?case
    by (auto intro: checked_reference_mono [OF precedes_refl ut] checked_reference_mono [OF su precedes_refl]
      list_all2_mono precedes_trans)
qed simp

text \<open>The public document and the manifest that an initialisation writes.\<close>

definition fresh_document :: "libs \<Rightarrow> bytes \<Rightarrow> public_key_document" where
  "fresh_document L public =
     \<lparr>document_version = key_material_version, algorithm = private_key_algorithm,
      public_key_base64 = base64_encode L public, fingerprint_sha256 = sha256_hex L public\<rparr>"

definition fresh_manifest ::
    "libs \<Rightarrow> bytes \<Rightarrow> string \<Rightarrow> bytes \<Rightarrow> recovery_object_reference list \<Rightarrow> key_manifest" where
  "fresh_manifest L public pkey pbody refs =
     \<lparr>manifest_version = key_material_version, recovery_policy = ''any-one'',
      key_fingerprint = sha256_hex L public, manifest_algorithm = private_key_algorithm,
      manifest_encryption = private_key_encryption,
      manifest_public_key = \<lparr>object_key = pkey, object_sha256 = sha256_hex L pbody\<rparr>,
      recovery_objects = refs\<rparr>"

text \<open>
  Property C17. An initialisation that succeeds has checked everything it commits to, whatever the
  peers answered. Before it writes the manifest it has, for every configured key in order, written a
  package, read content with the digest of that package back from the same place, and unwrapped the
  package's data key with that key, which opens the package to a private key of the public key in the
  result; it has written the public key document and read it back in the same way; and the manifest,
  written last, lists exactly these objects with their digests.
\<close>

theorem initialization_checks_uploads:
  assumes "initialize_key_material P s3 client ps s = (Inr kp, t)"
  shows "\<exists>refs pkey pbody mbody u v.
    list_all2 (checked_reference P s3 client ps s u (public_key kp)) (kms_keys ps) refs
    \<and> document_to_json (crates P) (fresh_document (crates P) (public_key kp)) = Inr pbody
    \<and> uploaded_during P s3 (s3_bucket ps) s u pkey pbody
    \<and> manifest_to_json (crates P) (fresh_manifest (crates P) (public_key kp) pkey pbody refs) = Inr mbody
    \<and> save_object_if_absent P s3 (s3_bucket ps) (manifest_key ps) mbody u = (Inr (), v)
    \<and> world t = world v
    \<and> fingerprint kp = sha256_hex (crates P) (public_key kp)"
proof -
  from assms obtain s1 existing u1 x s2 pbody refs s3' pkey s4 s5 mbody s6 where
    first: "load_object P s3 (s3_bucket ps) (manifest_key ps) s1 = (Inr existing, u1)" "precedes s s1"
    and draw: "callM (Draw ed25519_private_key_length) (random_bytes P ed25519_private_key_length) u1 = (Inr x, s2)"
    and doc: "document_to_json (crates P) (fresh_document (crates P) (public_key kp)) = Inr pbody"
    and keys: "initialize_keys P s3 client ps x (public_key kp) (kms_keys ps) s2 = (Inr refs, s3')"
    and save: "save_object_if_absent P s3 (s3_bucket ps) pkey pbody s3' = (Inr (), s4)"
    and verify: "verify_uploaded_object P s3 (s3_bucket ps) pkey (sha256_hex (crates P) pbody) s4 = (Inr (), s5)"
    and man: "manifest_to_json (crates P) (fresh_manifest (crates P) (public_key kp) pkey pbody refs) = Inr mbody"
    and commit: "save_object_if_absent P s3 (s3_bucket ps) (manifest_key ps) mbody s5 = (Inr (), s6)"
    and t: "world t = world s6" and fp: "fingerprint kp = sha256_hex (crates P) (public_key kp)"
    unfolding initialize_key_material_def Let_def manifest_key_def [symmetric] fresh_document_def fresh_manifest_def
    by (fastforce elim!: bindM_InrE split: if_splits)
  have "precedes u1 s2"
    using draw by (auto simp: callM_run precedes_def)
  with first(2) follows_precedes [OF follows_load_object first(1)] have start: "precedes s s2"
    by (blast intro: precedes_trans)
  note up = upload_and_verify [OF save verify] and checked = initialize_keys_checked [OF keys]
  have "list_all2 (checked_reference P s3 client ps s s5 (public_key kp)) (kms_keys ps) refs"
    using checked checked_reference_mono [OF start up(2)] by (blast intro: list_all2_mono)
  moreover have "uploaded_during P s3 (s3_bucket ps) s s5 pkey pbody"
    using uploaded_mono [OF precedes_trans [OF start] precedes_refl up(1)] checked by blast
  ultimately show ?thesis using doc man commit t fp by blast
qed

section \<open>Recoverable key material\<close>

text \<open>
  A package as initialisation leaves it for a key: its wrapped data key was issued under that key, for
  a data key that opens the package.
\<close>

definition package_good ::
    "libs \<Rightarrow> (string \<times> bytes \<rightharpoonup> bytes) \<Rightarrow> string \<Rightarrow> recovery_package \<Rightarrow> bytes \<Rightarrow> bool" where
  "package_good L wr arn package public \<longleftrightarrow>
     (\<exists>e p. base64_decode L (encrypted_data_key_base64 package) = Inr e \<and> wr (arn, e) = Some p
        \<and> opens L package p public)"

definition reference_good ::
    "libs \<Rightarrow> (string \<times> string \<rightharpoonup> bytes) \<Rightarrow> (string \<times> bytes \<rightharpoonup> bytes) \<Rightarrow> string \<Rightarrow> string
     \<Rightarrow> recovery_object_reference \<Rightarrow> bytes \<Rightarrow> bool" where
  "reference_good L objs wr bucket pfx ref public \<longleftrightarrow>
     starts_with (pfx @ ''/'') (recovery_object_key ref)
     \<and> (\<exists>body package. objs (bucket, recovery_object_key ref) = Some body
        \<and> sha256_hex L body = recovery_sha256 ref
        \<and> package_of_json L body = Inr package
        \<and> package_good L wr (recovery_kms_key_arn ref) package public)"

text \<open>
  The key material of a public key is committed and recoverable with each of some key ARNs: the
  manifest and the public document are stored and valid, and each ARN has a good reference.
\<close>

definition recoverable ::
    "libs \<Rightarrow> (string \<times> string \<rightharpoonup> bytes) \<Rightarrow> (string \<times> bytes \<rightharpoonup> bytes) \<Rightarrow> string \<Rightarrow> string \<Rightarrow> string list
     \<Rightarrow> bytes \<Rightarrow> bool" where
  "recoverable L objs wr bucket pfx arns public \<longleftrightarrow>
     (\<exists>mbody m pbody d. objs (bucket, join_key pfx manifest_file_name) = Some mbody
        \<and> manifest_of_json L mbody = Inr m \<and> validate_manifest m = Inr ()
        \<and> starts_with (pfx @ ''/'') (object_key (manifest_public_key m))
        \<and> objs (bucket, object_key (manifest_public_key m)) = Some pbody
        \<and> sha256_hex L pbody = object_sha256 (manifest_public_key m)
        \<and> document_of_json L pbody = Inr d
        \<and> validate_public_document L d m = Inr public
        \<and> (\<forall>arn \<in> set arns. \<exists>ref.
             List.find (\<lambda>ref. recovery_kms_key_arn ref = arn) (recovery_objects m) = Some ref
             \<and> reference_good L objs wr bucket pfx ref public))"

lemma package_good_mono:
  "package_good L wr arn package public \<Longrightarrow> wr \<subseteq>\<^sub>m wr' \<Longrightarrow> package_good L wr' arn package public"
  unfolding package_good_def by (blast intro: map_le_Some)

lemma reference_good_mono:
  "reference_good L objs wr bucket pfx ref public \<Longrightarrow> objs \<subseteq>\<^sub>m objs' \<Longrightarrow> wr \<subseteq>\<^sub>m wr' \<Longrightarrow>
   reference_good L objs' wr' bucket pfx ref public"
  unfolding reference_good_def by (blast intro: map_le_Some package_good_mono)

lemma recoverable_mono:
  assumes "recoverable L objs wr bucket pfx arns public" and "objs \<subseteq>\<^sub>m objs'" and "wr \<subseteq>\<^sub>m wr'"
  shows "recoverable L objs' wr' bucket pfx arns public"
proof -
  from assms(1) obtain mbody m pbody d where mat: "objs (bucket, join_key pfx manifest_file_name) = Some mbody"
    "manifest_of_json L mbody = Inr m" "validate_manifest m = Inr ()"
    "starts_with (pfx @ ''/'') (object_key (manifest_public_key m))"
    "objs (bucket, object_key (manifest_public_key m)) = Some pbody"
    "sha256_hex L pbody = object_sha256 (manifest_public_key m)"
    "document_of_json L pbody = Inr d" "validate_public_document L d m = Inr public"
    and refs: "\<And>arn. arn \<in> set arns \<Longrightarrow> \<exists>ref.
      List.find (\<lambda>ref. recovery_kms_key_arn ref = arn) (recovery_objects m) = Some ref
      \<and> reference_good L objs wr bucket pfx ref public"
    unfolding recoverable_def by blast
  have "objs' (bucket, join_key pfx manifest_file_name) = Some mbody"
    and "objs' (bucket, object_key (manifest_public_key m)) = Some pbody"
    using map_le_Some [OF assms(2)] mat by blast+
  moreover have "\<forall>arn \<in> set arns. \<exists>ref.
      List.find (\<lambda>ref. recovery_kms_key_arn ref = arn) (recovery_objects m) = Some ref
      \<and> reference_good L objs' wr' bucket pfx ref public"
    using refs reference_good_mono [OF _ assms(2,3)] by blast
  ultimately show ?thesis
    unfolding recoverable_def using mat by blast
qed

text \<open>
  Stores whose objects agree (as two states of one write-once store do) hold key material of at most
  one public key below a prefix.
\<close>

lemma recoverable_unique:
  assumes "recoverable L objs wr bucket pfx arns public"
    and "recoverable L objs' wr' bucket pfx arns' public'"
    and "objs \<subseteq>\<^sub>m all" and "objs' \<subseteq>\<^sub>m all"
  shows "public = public'"
proof -
  from assms(1) obtain mbody m pbody d where mat: "objs (bucket, join_key pfx manifest_file_name) = Some mbody"
    "manifest_of_json L mbody = Inr m" "objs (bucket, object_key (manifest_public_key m)) = Some pbody"
    "document_of_json L pbody = Inr d" "validate_public_document L d m = Inr public"
    unfolding recoverable_def by blast
  from assms(2) obtain mbody' m' pbody' d' where
    mat': "objs' (bucket, join_key pfx manifest_file_name) = Some mbody'"
    "manifest_of_json L mbody' = Inr m'" "objs' (bucket, object_key (manifest_public_key m')) = Some pbody'"
    "document_of_json L pbody' = Inr d'" "validate_public_document L d' m' = Inr public'"
    unfolding recoverable_def by blast
  have "mbody = mbody'"
    using map_le_Some [OF assms(3) mat(1)] map_le_Some [OF assms(4) mat'(1)] by simp
  with mat mat' have [simp]: "m' = m" by simp
  have "pbody = pbody'"
    using map_le_Some [OF assms(3) mat(3)] map_le_Some [OF assms(4) mat'(3)] by simp
  with mat mat' show ?thesis by simp
qed

section \<open>The world along the operations\<close>

lemma moves_restore_from_package:
  assumes "calls_keep P R"
  shows "moves R (restore_from_package P client ps key package public)"
  unfolding restore_from_package_def Let_def
  by (intro moves_intros calls_keep_preorder [OF assms] moves_decrypt_data_key [OF assms])

lemma moves_verify_uploaded_object:
  assumes "calls_keep P R"
  shows "moves R (verify_uploaded_object P s3 b k h)"
  unfolding verify_uploaded_object_def
  by (intro moves_intros calls_keep_preorder [OF assms] moves_load_object [OF assms])

lemma moves_initialize_key:
  assumes "calls_keep P R"
  shows "moves R (initialize_key P s3 client ps private_key public key)"
  unfolding initialize_key_def Let_def
  by (intro moves_intros calls_keep_preorder [OF assms] calls_keep_random [OF assms]
      moves_generate_data_key [OF assms] moves_save_object_if_absent [OF assms]
      moves_verify_uploaded_object [OF assms] moves_restore_from_package [OF assms])

lemma moves_initialize_keys:
  assumes "calls_keep P R"
  shows "moves R (initialize_keys P s3 client ps private_key public keys)"
  by (induction keys)
    (auto intro!: moves_intros calls_keep_preorder [OF assms] moves_initialize_key [OF assms])

lemma moves_restore_attempt:
  assumes "calls_keep P R"
  shows "moves R (restore_attempt P s3 client ps public key ref)"
  unfolding restore_attempt_def
  by (intro moves_intros calls_keep_preorder [OF assms] moves_load_object [OF assms]
      moves_restore_from_package [OF assms])

lemma follows_no_panic:
  assumes "follows m Q E" and "m s = (r, t)"
  shows "\<not> panics r"
  using emitsD [OF assms(1) [unfolded follows_def] assms(2)] by (cases r) auto

lemmas restore_attempt_no_panic = follows_no_panic [OF follows_restore_attempt]

section \<open>Key material over a write-once store and an honest KMS\<close>

lemma fresh_manifest_valid:
  assumes "libs_ok L" and "public = verifying_key L x"
  shows "length refs = 2 \<Longrightarrow> validate_manifest (fresh_manifest L public pkey pbody refs) = Inr ()"
    "validate_public_document L (fresh_document L public) (fresh_manifest L public pkey pbody refs) = Inr public"
  using assms
  by (auto simp: validate_manifest_def validate_public_document_Inr fresh_manifest_def fresh_document_def
    libs_base64 libs_verifying_key)

lemma find_reference:
  assumes "arn \<in> recovery_kms_key_arn ` set refs"
  shows "\<exists>ref. List.find (\<lambda>ref. recovery_kms_key_arn ref = arn) refs = Some ref \<and> ref \<in> set refs"
  using assms
  by (cases "List.find (\<lambda>ref. recovery_kms_key_arn ref = arn) refs")
    (auto simp: find_None_iff find_Some_iff)

locale key_store =
  store: object_store "load_object P s3" "save_object_if_absent P s3" objects ok
  for P :: "('w, 'z) platform_scheme" and s3 :: endpoint
    and objects :: "'w \<Rightarrow> string \<times> string \<rightharpoonup> bytes" and ok :: bool +
  fixes wrapped :: "'w \<Rightarrow> string \<times> bytes \<rightharpoonup> bytes"
  assumes keep_objects: "ok \<Longrightarrow> calls_keep P (grows objects)"
    and honest_kms: "ok \<Longrightarrow> kms_documented P wrapped"
    and draw_length: "ok \<Longrightarrow> length (fst (random_bytes P n w)) = n"
    and crates_ok: "ok \<Longrightarrow> libs_ok (crates P)"
begin

text \<open>Both the objects and the issued data keys only ever grow.\<close>

definition later :: "'w \<Rightarrow> 'w \<Rightarrow> bool" where
  "later w w' \<longleftrightarrow> grows objects w w' \<and> grows wrapped w w'"

lemma calls_later: "ok \<Longrightarrow> calls_keep P later"
  unfolding later_def
  by (intro calls_keep_conj keep_objects kms_documented_keep honest_kms)

lemma later_trans: "later u v \<Longrightarrow> later v w \<Longrightarrow> later u w"
  by (auto simp: later_def intro: grows_trans)

lemma reference_later:
  "reference_good (crates P) (objects w) (wrapped w) b pfx ref pk \<Longrightarrow> later w w' \<Longrightarrow>
   reference_good (crates P) (objects w') (wrapped w') b pfx ref pk"
  unfolding later_def grows_def by (blast intro: reference_good_mono)

lemma initialize_key_good:
  assumes ok and run: "initialize_key P s3 client ps x public key s = (Inr ref, t)"
    and x: "length x = ed25519_private_key_length" "verifying_key (crates P) x = public"
  shows "reference_good (crates P) (objects (world t)) (wrapped (world t)) (s3_bucket ps) (s3_prefix ps) ref public
    \<and> recovery_kms_key_arn ref = key_arn key"
proof -
  note calls = calls_later [OF assms(1)]
  from run obtain s1 g s2 nonce s3' enc package body sid did s4 s5 where
    gen: "generate_data_key P client ps key s1 = (Inr g, s2)"
    and nonce: "callM (Draw aes_gcm_nonce_length) (random_bytes P aes_gcm_nonce_length) s2 = (Inr nonce, s3')"
    and enc: "encrypt_private_key (crates P) (plaintext_data_key g) nonce x = Inr enc"
    and package: "package = \<lparr>package_version = key_material_version,
            encrypted_data_key_base64 = base64_encode (crates P) (encrypted_data_key g),
            private_key_nonce_base64 = base64_encode (crates P) nonce,
            encrypted_private_key_base64 = base64_encode (crates P) enc\<rparr>"
    and body: "package_to_json (crates P) package = Inr body"
    and save: "save_object_if_absent P s3 (s3_bucket ps)
      (join_key (s3_prefix ps) (package_name sid did (sha256_hex (crates P) body))) body s3' = (Inr (), s4)"
    and verify: "verify_uploaded_object P s3 (s3_bucket ps)
      (join_key (s3_prefix ps) (package_name sid did (sha256_hex (crates P) body)))
      (sha256_hex (crates P) body) s4 = (Inr (), s5)"
    and trial: "restore_from_package P client ps key package public s5 = (Inr (), t)"
    and ref: "ref = \<lparr>recovery_kms_key_arn = key_arn key, recovery_object_key =
        join_key (s3_prefix ps) (package_name sid did (sha256_hex (crates P) body)),
       recovery_sha256 = sha256_hex (crates P) body\<rparr>"
    by (fastforce simp: initialize_key_def Let_def elim!: bindM_InrE split: if_splits)
  have nonce_length: "length nonce = aes_gcm_nonce_length" and later23: "later (world s2) (world s3')"
    using nonce draw_length [OF assms(1)] calls_keep_random [OF calls] by (auto simp: callM_run)
  have later3: "later (world s3') (world s4)" and later4: "later (world s4) (world t)"
    using movesD [OF moves_save_object_if_absent [OF calls] save]
      later_trans [OF movesD [OF moves_verify_uploaded_object [OF calls] verify]
        movesD [OF moves_restore_from_package [OF calls] trial]] by blast+
  have "wrapped (world s2) (key_arn key, encrypted_data_key g) = Some (plaintext_data_key g)"
    by (rule kms.generate_wraps [OF honest_kms [OF assms(1)] gen])
  then have "wrapped (world t) (key_arn key, encrypted_data_key g) = Some (plaintext_data_key g)"
    using later_trans [OF later23 later_trans [OF later3 later4]]
    by (auto simp: later_def intro: grows_Some)
  moreover have "opens (crates P) package (plaintext_data_key g) public"
    using decrypt_encrypt_private_key [OF crates_ok [OF assms(1)] enc] nonce_length x
    by (simp add: opens_def package libs_base64 [OF crates_ok [OF assms(1)]])
  ultimately have "package_good (crates P) (wrapped (world t)) (key_arn key) package public"
    by (auto simp: package_good_def package libs_base64 [OF crates_ok [OF assms(1)]])
  moreover have "objects (world t) (s3_bucket ps, recovery_object_key ref) = Some body"
    using store.save_stored [OF assms(1) save] later4 by (auto simp: later_def ref intro: grows_Some)
  ultimately show ?thesis
    using libs_package [OF crates_ok [OF assms(1)] body] by (auto simp: reference_good_def ref join_key_def starts_with_iff)
qed

lemma initialize_keys_good:
  assumes ok and x: "length x = ed25519_private_key_length" "verifying_key (crates P) x = public"
  shows "initialize_keys P s3 client ps x public keys s = (Inr refs, t) \<Longrightarrow>
    map recovery_kms_key_arn refs = map key_arn keys
    \<and> (\<forall>ref \<in> set refs. reference_good (crates P) (objects (world t)) (wrapped (world t)) (s3_bucket ps) (s3_prefix ps) ref public)"
proof (induction keys arbitrary: refs s)
  case (Cons key keys)
  from Cons.prems obtain ref u refs' where
    first: "initialize_key P s3 client ps x public key s = (Inr ref, u)"
    and rest: "initialize_keys P s3 client ps x public keys u = (Inr refs', t)"
    and refs: "refs = ref # refs'"
    by (auto elim!: bindM_InrE)
  have "later (world u) (world t)"
    by (rule movesD [OF moves_initialize_keys [OF calls_later [OF assms(1)]] rest])
  with initialize_key_good [OF assms(1) first x] Cons.IH [OF rest] reference_later refs
  show ?case by auto
qed simp

text \<open>What a successful initialisation leaves in the store.\<close>

lemma initialization_stores:
  assumes ok and run: "initialize_key_material P s3 client ps s = (Inr kp, t)"
  shows "\<exists>x pkey pbody refs mbody. public_key kp = verifying_key (crates P) x
    \<and> document_to_json (crates P) (fresh_document (crates P) (public_key kp)) = Inr pbody
    \<and> manifest_to_json (crates P) (fresh_manifest (crates P) (public_key kp) pkey pbody refs) = Inr mbody
    \<and> objects (world t) (s3_bucket ps, pkey) = Some pbody
    \<and> objects (world t) (s3_bucket ps, manifest_key ps) = Some mbody
    \<and> starts_with (s3_prefix ps @ ''/'') pkey
    \<and> map recovery_kms_key_arn refs = map key_arn (kms_keys ps)
    \<and> (\<forall>ref \<in> set refs. reference_good (crates P) (objects (world t)) (wrapped (world t))
         (s3_bucket ps) (s3_prefix ps) ref (public_key kp))
    \<and> fingerprint kp = sha256_hex (crates P) (public_key kp)"
proof -
  note calls = calls_later [OF assms(1)]
  from run obtain s1 x s2 pbody refs s3' pkey s4 s5 mbody s6 where
    draw: "callM (Draw ed25519_private_key_length) (random_bytes P ed25519_private_key_length) s1 = (Inr x, s2)"
    and doc: "document_to_json (crates P) (fresh_document (crates P) (public_key kp)) = Inr pbody"
    and keys: "initialize_keys P s3 client ps x (public_key kp) (kms_keys ps) s2 = (Inr refs, s3')"
    and save: "save_object_if_absent P s3 (s3_bucket ps) pkey pbody s3' = (Inr (), s4)"
    and verify: "verify_uploaded_object P s3 (s3_bucket ps) pkey (sha256_hex (crates P) pbody) s4 = (Inr (), s5)"
    and man: "manifest_to_json (crates P) (fresh_manifest (crates P) (public_key kp) pkey pbody refs) = Inr mbody"
    and commit: "save_object_if_absent P s3 (s3_bucket ps) (manifest_key ps) mbody s5 = (Inr (), s6)"
    and t: "world t = world s6"
    and pkey: "pkey = join_key (s3_prefix ps) (''public_key_sha256-'' @ sha256_hex (crates P) (public_key kp) @ ''.json'')"
    and kp: "public_key kp = verifying_key (crates P) x" "fingerprint kp = sha256_hex (crates P) (public_key kp)"
    unfolding initialize_key_material_def Let_def manifest_key_def [symmetric] fresh_document_def fresh_manifest_def
    by (fastforce elim!: bindM_InrE split: if_splits)
  have x: "length x = ed25519_private_key_length"
    using draw draw_length [OF assms(1)] by (auto simp: callM_run)
  have later3: "later (world s3') (world s4)" and later4: "later (world s4) (world t)"
    using movesD [OF moves_save_object_if_absent [OF calls] save]
      later_trans [OF movesD [OF moves_verify_uploaded_object [OF calls] verify]
        movesD [OF moves_save_object_if_absent [OF calls] commit]] t by simp_all
  have "objects (world t) (s3_bucket ps, pkey) = Some pbody"
    using store.save_stored [OF assms(1) save] later4 by (auto simp: later_def intro: grows_Some)
  moreover have "objects (world t) (s3_bucket ps, manifest_key ps) = Some mbody"
    using store.save_stored [OF assms(1) commit] t by simp
  moreover have "starts_with (s3_prefix ps @ ''/'') pkey"
    by (simp add: pkey join_key_def starts_with_iff)
  ultimately show ?thesis
    using initialize_keys_good [OF assms(1) x kp(1) [symmetric] keys] doc man kp
      reference_later later_trans [OF later3 later4] by blast
qed

text \<open>So a successful initialisation leaves recoverable key material for every configured key.\<close>

lemma initialization_recoverable:
  assumes ok and run: "initialize_key_material P s3 client ps s = (Inr kp, t)"
    and two: "length (kms_keys ps) = 2"
  shows "recoverable (crates P) (objects (world t)) (wrapped (world t)) (s3_bucket ps) (s3_prefix ps)
      (map key_arn (kms_keys ps)) (public_key kp)
    \<and> fingerprint kp = sha256_hex (crates P) (public_key kp)"
proof -
  note libs = crates_ok [OF assms(1)]
  from initialization_stores [OF assms(1) run] obtain x pkey pbody refs mbody where
    x: "public_key kp = verifying_key (crates P) x"
    and doc: "document_to_json (crates P) (fresh_document (crates P) (public_key kp)) = Inr pbody"
    and man: "manifest_to_json (crates P) (fresh_manifest (crates P) (public_key kp) pkey pbody refs) = Inr mbody"
    and stored: "objects (world t) (s3_bucket ps, pkey) = Some pbody"
      "objects (world t) (s3_bucket ps, manifest_key ps) = Some mbody"
      "starts_with (s3_prefix ps @ ''/'') pkey"
    and refs: "map recovery_kms_key_arn refs = map key_arn (kms_keys ps)"
    and good: "\<And>ref. ref \<in> set refs \<Longrightarrow> reference_good (crates P) (objects (world t)) (wrapped (world t))
         (s3_bucket ps) (s3_prefix ps) ref (public_key kp)"
    and kp: "fingerprint kp = sha256_hex (crates P) (public_key kp)" by blast
  have "recovery_kms_key_arn ` set refs = set (map key_arn (kms_keys ps))" "length refs = 2"
    using arg_cong [OF refs, of set] arg_cong [OF refs, of length] two by simp_all
  then show ?thesis
    using fresh_manifest_valid [OF libs x] find_reference [of _ refs] good stored
      libs_manifest [OF libs man] libs_document [OF libs doc] kp
    unfolding recoverable_def manifest_key_def by (fastforce simp: fresh_manifest_def)
qed

text \<open>
  Restoring recoverable material gives its public key, if it gives any; and it does give it if the
  loads return and the KMS unwraps issued data keys for one of the keys.
\<close>

lemma restore_same_key:
  assumes ok
    and rec: "recoverable (crates P) (objects (world s)) (wrapped (world s)) (s3_bucket ps) (s3_prefix ps) arns pk"
    and run: "restore_key_material P s3 client ps s = (Inr kp, t)"
  shows "public_key kp = pk \<and> fingerprint kp = sha256_hex (crates P) pk"
proof -
  note calls = calls_later [OF assms(1)]
  obtain body m u pbody d pk' w where
    load: "load_object P s3 (s3_bucket ps) (manifest_key ps)
      (s\<lparr>trace := trace s @ [Stdout (''startup: loading '' @ s3_url (s3_bucket ps) (manifest_key ps))]\<rparr>)
      = (Inr (Some body), u)"
    and m: "manifest_of_json (crates P) body = Inr m"
    and pload: "load_object P s3 (s3_bucket ps) (object_key (manifest_public_key m)) u = (Inr (Some pbody), w)"
    and d: "document_of_json (crates P) pbody = Inr d" "validate_public_document (crates P) d m = Inr pk'"
    and loop: "restore_loop P s3 client ps m pk' (kms_keys ps) [] w = (Inr kp, t)"
    by (rule restore_key_material_InrE [OF run])
  from rec obtain mbody m0 pbody0 d0 where mat: "objects (world s) (s3_bucket ps, manifest_key ps) = Some mbody"
    "manifest_of_json (crates P) mbody = Inr m0"
    "objects (world s) (s3_bucket ps, object_key (manifest_public_key m0)) = Some pbody0"
    "document_of_json (crates P) pbody0 = Inr d0" "validate_public_document (crates P) d0 m0 = Inr pk"
    unfolding recoverable_def manifest_key_def by blast
  have "body = mbody"
    using store.load_of_known [OF assms(1) _ load, of mbody] mat(1) by simp
  with m mat have [simp]: "m0 = m" by simp
  have "objects (world u) (s3_bucket ps, object_key (manifest_public_key m)) = Some pbody0"
    using movesD [OF moves_load_object [OF calls] load] mat(3) by (auto simp: later_def intro: grows_Some)
  then have "pbody = pbody0"
    using store.load_of_known [OF assms(1) _ pload] by blast
  with d mat have "pk' = pk" by simp
  with restore_loop_Inr [OF loop] d show ?thesis
    by (auto simp: validate_public_document_Inr)
qed

lemma attempt_succeeds:
  assumes ok
    and good: "reference_good (crates P) (objects w0) (wrapped w0) (s3_bucket ps) (s3_prefix ps) ref pk"
    and since: "later w0 (world s)"
    and arn: "recovery_kms_key_arn ref = key_arn key"
    and loads: "\<And>k u. objects w0 (s3_bucket ps, k) \<noteq> None \<Longrightarrow> starts_with (s3_prefix ps @ ''/'') k \<Longrightarrow>
      later w0 (world u) \<Longrightarrow> is_ok (fst (load_object P s3 (s3_bucket ps) k u))"
    and unwraps: "\<And>e u. wrapped (world u) (key_arn key, e) \<noteq> None \<Longrightarrow>
      is_ok (fst (decrypt_data_key P client ps key e u))"
  shows "\<exists>t. restore_attempt P s3 client ps pk key ref s = (Inr (), t)"
proof -
  have "reference_good (crates P) (objects (world s)) (wrapped (world s)) (s3_bucket ps) (s3_prefix ps) ref pk"
    by (rule reference_later [OF good since])
  then obtain body package e p where obj: "objects (world s) (s3_bucket ps, recovery_object_key ref) = Some body"
    and pkg: "sha256_hex (crates P) body = recovery_sha256 ref" "package_of_json (crates P) body = Inr package"
    and e: "base64_decode (crates P) (encrypted_data_key_base64 package) = Inr e"
      "wrapped (world s) (key_arn key, e) = Some p" "opens (crates P) package p pk"
    unfolding reference_good_def package_good_def arn by blast
  obtain y u where ld: "load_object P s3 (s3_bucket ps) (recovery_object_key ref) s = (Inr y, u)"
    using loads [of "recovery_object_key ref" s] good since
    by (cases "load_object P s3 (s3_bucket ps) (recovery_object_key ref) s"; cases "fst (load_object P s3 (s3_bucket ps) (recovery_object_key ref) s)") (auto simp: reference_good_def)
  with store.load_of_known [OF assms(1) obj] have "y = Some body" by blast
  have wr: "wrapped (world u) (key_arn key, e) = Some p"
    using movesD [OF moves_load_object [OF calls_later [OF assms(1)]] ld] e(2)
    by (auto simp: later_def intro: grows_Some)
  then obtain p' t where dec: "decrypt_data_key P client ps key e u = (Inr p', t)"
    using unwraps [of u e]
    by (cases "decrypt_data_key P client ps key e u"; cases "fst (decrypt_data_key P client ps key e u)") auto
  have "p' = p"
    by (rule kms.decrypt_honest [OF honest_kms [OF assms(1)] dec wr])
  with dec e have "restore_from_package P client ps key package pk u = (Inr (), t)"
    by (auto simp: restore_from_package_Inr)
  with ld \<open>y = Some body\<close> pkg show ?thesis
    by (auto simp: restore_attempt_Inr)
qed

lemma restore_loop_succeeds:
  assumes ok and "key \<in> set keys"
    and found: "List.find (\<lambda>ref. recovery_kms_key_arn ref = key_arn key) (recovery_objects m) = Some ref"
    and loads: "\<And>k u. objects w0 (s3_bucket ps, k) \<noteq> None \<Longrightarrow> starts_with (s3_prefix ps @ ''/'') k \<Longrightarrow>
      later w0 (world u) \<Longrightarrow> is_ok (fst (load_object P s3 (s3_bucket ps) k u))"
    and unwraps: "\<And>e u. wrapped (world u) (key_arn key, e) \<noteq> None \<Longrightarrow>
      is_ok (fst (decrypt_data_key P client ps key e u))"
    and good: "reference_good (crates P) (objects w0) (wrapped w0) (s3_bucket ps) (s3_prefix ps) ref pk"
  shows "later w0 (world s) \<Longrightarrow> \<exists>kp t. restore_loop P s3 client ps m pk keys failures s = (Inr kp, t)"
  using assms(2)
proof (induction keys arbitrary: failures s)
  case (Cons key' keys)
  show ?case
  proof (cases "List.find (\<lambda>ref. recovery_kms_key_arn ref = key_arn key') (recovery_objects m)")
    case None
    with found Cons.prems(2) have "key \<in> set keys" by auto
    with Cons.IH [OF Cons.prems(1)] None show ?thesis by simp
  next
    case (Some ref')
    let ?s = "s\<lparr>trace := trace s @ [Stdout (''restore: trying '' @ key_arn key')]\<rparr>"
    obtain r u where att: "restore_attempt P s3 client ps pk key' ref' ?s = (r, u)" by force
    have np: "\<not> panics r"
      by (rule restore_attempt_no_panic [OF att])
    show ?thesis
    proof (cases "is_ok r")
      case True
      then obtain x where "r = Inr x" by (cases r) auto
      with att Some show ?thesis by (auto simp: io_simps attemptM_def)
    next
      case False
      with np obtain e where e: "r = Inl (Err e)"
        by (cases r) (auto, metis app_error.exhaust)
      have "key \<noteq> key'"
      proof
        assume "key = key'"
        with Some found have "ref' = ref" by simp
        have "recovery_kms_key_arn ref = key_arn key"
          using found by (auto simp: find_Some_iff)
        with attempt_succeeds [OF assms(1) good, of ?s key client] Cons.prems(1) loads unwraps
          att \<open>key = key'\<close> \<open>ref' = ref\<close> e show False by force
      qed
      with Cons.prems(2) have "key \<in> set keys" by simp
      moreover have "later (world s) (world u)"
        using movesD [OF moves_restore_attempt [OF calls_later [OF assms(1)]] att] by simp
      with Cons.prems(1) have "later w0 (world u)" by (rule later_trans)
      ultimately show ?thesis
        using Cons.IH [of "u\<lparr>trace := trace u @ [Stdout (''restore: failed with '' @ key_arn key' @ '': '' @ e)]\<rparr>"
            "failures @ [key_arn key' @ '': '' @ e]"] att Some e
        by (simp add: io_simps attemptM_def)
    qed
  qed
qed simp

lemma restore_succeeds:
  assumes ok
    and rec: "recoverable (crates P) (objects w0) (wrapped w0) (s3_bucket ps) (s3_prefix ps) arns pk"
    and since: "later w0 (world s)"
    and key: "key \<in> set (kms_keys ps)" "key_arn key \<in> set arns"
    and loads: "\<And>k u. objects w0 (s3_bucket ps, k) \<noteq> None \<Longrightarrow> starts_with (s3_prefix ps @ ''/'') k \<Longrightarrow>
      later w0 (world u) \<Longrightarrow> is_ok (fst (load_object P s3 (s3_bucket ps) k u))"
    and unwraps: "\<And>e u. wrapped (world u) (key_arn key, e) \<noteq> None \<Longrightarrow>
      is_ok (fst (decrypt_data_key P client ps key e u))"
  shows "\<exists>kp t. restore_key_material P s3 client ps s = (Inr kp, t) \<and> public_key kp = pk"
proof -
  note calls = calls_later [OF assms(1)]
  from rec key(2) obtain mbody m pbody d ref where
    mat: "objects w0 (s3_bucket ps, manifest_key ps) = Some mbody"
    "manifest_of_json (crates P) mbody = Inr m" "validate_manifest m = Inr ()"
    "starts_with (s3_prefix ps @ ''/'') (object_key (manifest_public_key m))"
    "objects w0 (s3_bucket ps, object_key (manifest_public_key m)) = Some pbody"
    "sha256_hex (crates P) pbody = object_sha256 (manifest_public_key m)"
    "document_of_json (crates P) pbody = Inr d" "validate_public_document (crates P) d m = Inr pk"
    and ref: "List.find (\<lambda>ref. recovery_kms_key_arn ref = key_arn key) (recovery_objects m) = Some ref"
      "reference_good (crates P) (objects w0) (wrapped w0) (s3_bucket ps) (s3_prefix ps) ref pk"
    unfolding recoverable_def manifest_key_def by blast
  let ?s = "s\<lparr>trace := trace s @ [Stdout (''startup: loading '' @ s3_url (s3_bucket ps) (manifest_key ps))]\<rparr>"
  have loaded: "\<exists>y v. load_object P s3 (s3_bucket ps) k u = (Inr y, v)"
    if "objects w0 (s3_bucket ps, k) \<noteq> None" "starts_with (s3_prefix ps @ ''/'') k" "later w0 (world u)" for k u
    using loads [OF that] by (cases "load_object P s3 (s3_bucket ps) k u"; cases "fst (load_object P s3 (s3_bucket ps) k u)") auto
  have now: "objects w (s3_bucket ps, k) = Some body"
    if "objects w0 (s3_bucket ps, k) = Some body" "later w0 w" for w k body
    using that by (auto simp: later_def intro: grows_Some)
  obtain y u where ld: "load_object P s3 (s3_bucket ps) (manifest_key ps) ?s = (Inr y, u)"
    using loaded [of "manifest_key ps" ?s] mat(1) since by (auto simp: manifest_key_def join_key_def starts_with_iff)
  with store.load_of_known [OF assms(1) _ ld, of mbody] now [OF mat(1) since] have y: "y = Some mbody" by simp
  have later1: "later w0 (world u)"
    using later_trans [OF since] movesD [OF moves_load_object [OF calls] ld] by simp
  obtain z v where pld: "load_object P s3 (s3_bucket ps) (object_key (manifest_public_key m)) u = (Inr z, v)"
    using loaded [OF _ mat(4) later1] mat(5) by auto
  with store.load_of_known [OF assms(1) now [OF mat(5) later1] pld] have z: "z = Some pbody" by blast
  have later2: "later w0 (world v)"
    using later_trans [OF later1 movesD [OF moves_load_object [OF calls] pld]] .
  from restore_loop_succeeds [OF assms(1) key(1) ref(1) loads unwraps ref(2) later2, of "[]"]
  obtain kp t where "restore_loop P s3 client ps m pk (kms_keys ps) [] v = (Inr kp, t)" by blast
  then have run: "restore_key_material P s3 client ps s = (Inr kp, t)"
    using ld y pld z mat
    by (simp add: restore_key_material_def Let_def io_simps verify_sha256_def flip: manifest_key_def)
  have "recoverable (crates P) (objects (world s)) (wrapped (world s)) (s3_bucket ps) (s3_prefix ps) arns pk"
    using recoverable_mono [OF rec] since by (simp add: later_def grows_def)
  from restore_same_key [OF assms(1) this run] run show ?thesis by blast
qed

text \<open>An initialisation over an existing manifest only looks it up and fails.\<close>

lemma initialization_refused:
  assumes ok and old: "objects (world s) (s3_bucket ps, manifest_key ps) = Some x"
    and run: "initialize_key_material P s3 client ps s = (r, t)"
  shows "\<not> is_ok r \<and> (\<exists>evs. trace t = trace s @ evs
    \<and> prefix (steps_of evs) [Request (LoadObject (s3_bucket ps) (manifest_key ps))])"
proof -
  let ?print = "Stdout (''initialization: checking '' @ s3_url (s3_bucket ps) (manifest_key ps))"
  let ?s = "s\<lparr>trace := trace s @ [?print]\<rparr>"
  obtain y u where ld: "load_object P s3 (s3_bucket ps) (manifest_key ps) ?s = (y, u)" by force
  obtain evs where evs: "trace u = trace s @ ?print # evs"
      "ends (\<lambda>x l. l = [Request (LoadObject (s3_bucket ps) (manifest_key ps))])
        (\<lambda>l. prefix l [Request (LoadObject (s3_bucket ps) (manifest_key ps))]) (steps_of evs) y"
    using emitsD [OF follows_load_object [unfolded follows_def] ld] by auto
  have "\<not> is_ok r \<and> t = u"
  proof (cases y)
    case (Inl e)
    with run ld show ?thesis
      by (auto simp: initialize_key_material_def Let_def io_simps manifest_key_def)
  next
    case (Inr v)
    with ld have "load_object P s3 (s3_bucket ps) (manifest_key ps) ?s = (Inr v, u)" by simp
    with store.load_of_known [OF assms(1) _ this, of x] old have "v = Some x" by simp
    with run ld Inr show ?thesis
      by (auto simp: initialize_key_material_def Let_def io_simps manifest_key_def)
  qed
  moreover have "prefix (steps_of evs) [Request (LoadObject (s3_bucket ps) (manifest_key ps))]"
    using evs(2) by (cases y) auto
  ultimately show ?thesis
    using evs(1) by (intro conjI exI [of _ "?print # evs"]) auto
qed

text \<open>The manifest is in the store after a successful initialisation only if a save of it returned.\<close>

lemma initialization_saves:
  assumes "initialize_key_material P s3 client ps s = (Inr kp, t)"
  shows "\<exists>b k body u v. save_object_if_absent P s3 b k body u = (Inr (), v)"
  using assms unfolding initialize_key_material_def Let_def
  by (fastforce elim!: bindM_InrE split: if_splits)

end

end
