(* ===== verification/Composition.thy ===== *)
theory Composition
  imports Broker_Loop Key_Guarantees
begin

text \<open>
  The enclave process against the broker process. The link is the byte stream: what a request of the
  enclave reads back is a prefix of what the broker's connection thread answers to the bytes it was
  sent, or nothing. Over such a link and documented S3 behaviour the broker's S3 operations provide
  the store contract that the key material relies on, and the end-to-end properties follow.
\<close>

section \<open>The link\<close>

text \<open>
  \<open>P\<close> is the platform of the enclave with worlds \<open>'w\<close>, \<open>Q\<close> that of the broker with
  worlds \<open>'v\<close>; \<open>objs\<close> and \<open>objects\<close> are the S3 objects in each. Whenever bytes come
  back, some run of the connection closure on exactly the bytes sent computed the response whose frame
  they begin; it happened between the two enclave worlds, and other clients may have added objects
  before and after it.
\<close>

definition serves ::
    "('w, 'z) platform_scheme \<Rightarrow> ('v, 'y) platform_scheme \<Rightarrow> parent_settings \<Rightarrow> providers
     \<Rightarrow> u32 option \<Rightarrow> u32 option \<Rightarrow> ('v \<Rightarrow> string \<times> string \<rightharpoonup> bytes)
     \<Rightarrow> ('w \<Rightarrow> string \<times> string \<rightharpoonup> bytes) \<Rightarrow> bool" where
  "serves P Q ps provs allowed peer objects objs \<longleftrightarrow>
     crates P = crates Q
     \<and> (\<forall>st bs w input fin w'. exchange P st bs w = (Inr (input, fin), w') \<longrightarrow>
          input = []
          \<or> (\<exists>u u' resp full fin'.
               answer Q ps provs allowed peer (bs, fin') u = (Inr resp, u')
               \<and> write_json_frame (response_to_json (crates Q)) resp = Inr full
               \<and> prefix input full
               \<and> objs w \<subseteq>\<^sub>m objects (world u) \<and> objects (world u') \<subseteq>\<^sub>m objs w'))"

text \<open>All that the end-to-end properties assume of the two platforms.\<close>

definition linked ::
    "('w, 'z) platform_scheme \<Rightarrow> ('v, 'y) platform_scheme \<Rightarrow> parent_settings \<Rightarrow> providers
     \<Rightarrow> u32 option \<Rightarrow> u32 option \<Rightarrow> ('v \<Rightarrow> string \<times> string \<rightharpoonup> bytes)
     \<Rightarrow> ('w \<Rightarrow> string \<times> string \<rightharpoonup> bytes) \<Rightarrow> ('w \<Rightarrow> string \<times> bytes \<rightharpoonup> bytes) \<Rightarrow> bool" where
  "linked P Q ps provs allowed peer objects objs wrapped \<longleftrightarrow>
     libs_ok (crates P)
     \<and> serves P Q ps provs allowed peer objects objs
     \<and> s3_documented Q objects
     \<and> (\<forall>w. objects w \<subseteq>\<^sub>m objects (snd (build_runtime Q w)))
     \<and> calls_keep P (grows objs)
     \<and> kms_documented P wrapped
     \<and> (\<forall>n w. length (fst (random_bytes P n w)) = n)"

section \<open>Requests over the link\<close>

lemma read_json_frame_prefix:
  assumes "write_json_frame to_vec v = Inr full" and "\<And>b. to_vec v = Inr b \<Longrightarrow> from_slice b = Inr v"
    and "prefix input full" and "read_json_frame from_slice (input, fin) = Inr (x, rest)"
  shows "x = v"
proof -
  from assms(1) obtain payload where payload: "to_vec v = Inr payload"
    "length payload \<le> max_json_frame_length"
    "full = to_be_bytes (word_of_nat (length payload)) @ payload"
    by (auto simp: write_json_frame_Inr)
  from assms(4) have "4 \<le> length input"
    by (auto simp: read_json_frame_def read_exact_def split: if_splits)
  moreover from assms(3) obtain ys where "full = input @ ys" by (auto simp: prefix_def)
  ultimately have "take 4 input = take 4 full" by simp
  then have header: "take 4 input = to_be_bytes (word_of_nat (length payload))"
    by (simp add: payload(3))
  have len: "unat (from_be_bytes (take 4 input)) = length payload"
    by (simp add: header unat_word_of_frame_length [OF payload(2)])
  with assms(4) have "length payload \<le> length (drop 4 input)"
    by (auto simp: read_json_frame_def read_exact_def Let_def split: if_splits)
  then have "length full \<le> length input"
    using payload(3) \<open>4 \<le> length input\<close> by auto
  with assms(3) have "input = full"
    by (auto simp: prefix_def)
  with read_written_frame [OF assms(1), of from_slice "[]" fin] assms(2,4) show ?thesis
    by simp
qed

lemma request_served:
  assumes link: "serves P Q ps provs allowed peer objects objs" and libs: "libs_ok (crates P)"
    and keep: "calls_keep P (grows objs)"
    and run: "request_broker P ep rq s = (Inr resp, t)"
  shows "\<exists>u u' input rest.
    read_json_frame (request_of_json (crates Q)) input = Inr (rq, rest)
    \<and> answer Q ps provs allowed peer input u = (Inr resp, u') \<and> (\<forall>msg. resp \<noteq> Error msg)
    \<and> objs (world s) \<subseteq>\<^sub>m objects (world u) \<and> objects (world u') \<subseteq>\<^sub>m objs (world t)"
proof -
  from link have crates: "crates Q = crates P" by (simp add: serves_def)
  from run obtain st s1 frame input fin w2 resp' rest where
    conn: "connect_endpoint P ep s = (Inr st, s1)"
    and frame: "write_json_frame (request_to_json (crates P)) rq = Inr frame"
    and sent: "exchange P st frame (world s1) = (Inr (input, fin), w2)"
    and read: "read_json_frame (response_of_json (crates P)) (input, fin) = Inr (resp', rest)"
    and resp: "resp' = resp" "\<forall>msg. resp \<noteq> Error msg" and t: "world t = w2"
    by (auto simp: request_broker_def callM_def elim!: bindM_InrE
        split: prod.splits broker_response.splits)
  have "input \<noteq> []"
    using read by (auto simp: read_json_frame_def read_exact_def)
  with link sent obtain u u' resp0 full fin' where
    ans: "answer Q ps provs allowed peer (frame, fin') u = (Inr resp0, u')"
    and full: "write_json_frame (response_to_json (crates Q)) resp0 = Inr full" "prefix input full"
    and objs: "objs (world s1) \<subseteq>\<^sub>m objects (world u)" "objects (world u') \<subseteq>\<^sub>m objs w2"
    unfolding serves_def by blast
  have "resp' = resp0"
    using read_json_frame_prefix [OF full(1) _ full(2), of "response_of_json (crates P)" fin resp' rest]
      read libs_response [OF libs] crates by simp
  moreover have "read_json_frame (request_of_json (crates Q)) (frame, fin') = Inr (rq, ([], fin'))"
    using read_written_frame [OF frame, of "request_of_json (crates P)" "[]" fin'] libs_request [OF libs] crates
    by simp
  moreover have "objs (world s) \<subseteq>\<^sub>m objects (world u)"
    using movesD [OF moves_connect_endpoint [OF keep] conn] objs(1)
    by (auto simp: grows_def intro: map_le_trans)
  ultimately show ?thesis
    using ans resp objs(2) t
    by (intro exI [of _ u] exI [of _ u'] exI [of _ "(frame, fin')"] exI [of _ "([], fin')"]) simp
qed

text \<open>A response that is not an error was computed by \<open>handle_request\<close>.\<close>

lemma answer_handled:
  assumes "read_json_frame (request_of_json (crates Q)) input = Inr (rq, rest)"
    and "answer Q ps provs allowed peer input u = (Inr resp, u')"
    and "\<forall>msg. resp \<noteq> Error msg" and "rq \<noteq> GetSettings"
  shows "\<exists>v. handle_request Q ps provs rq v = (Inr resp, u')
    \<and> world v = snd (build_runtime Q (world u))"
  using assms(2-4) unfolding answer_read [OF assms(1)]
  by (fastforce simp: io_simps attemptM_def split: if_splits sum.splits prod.splits app_error.splits)

section \<open>The store contract over the link\<close>

lemma linkedD:
  assumes "linked P Q ps provs allowed peer objects objs wrapped"
  shows linked_libs: "libs_ok (crates P)"
    and linked_serves: "serves P Q ps provs allowed peer objects objs"
    and linked_s3: "s3_documented Q objects"
    and linked_runtime: "objects w \<subseteq>\<^sub>m objects (snd (build_runtime Q w))"
    and linked_keep: "calls_keep P (grows objs)"
    and linked_kms: "kms_documented P wrapped"
    and linked_draws: "length (fst (random_bytes P n w')) = n"
  using assms by (simp_all add: linked_def)

lemma load_over_link:
  assumes link: "linked P Q ps provs allowed peer objects objs wrapped"
    and run: "load_object P ep b k s = (Inr r, t)"
  shows "case r of Some body \<Rightarrow> objs (world t) (b, k) = Some body | None \<Rightarrow> objs (world s) (b, k) = None"
proof -
  from run have "request_broker P ep (LoadObject b k) s = (Inr (Object r), t)"
    by (auto simp: load_object_def elim!: bindM_InrE split: broker_response.splits)
  from request_served [OF linked_serves [OF link] linked_libs [OF link] linked_keep [OF link] this]
  obtain u u' input rest where
    read: "read_json_frame (request_of_json (crates Q)) input = Inr (LoadObject b k, rest)"
    and ans: "answer Q ps provs allowed peer input u = (Inr (Object r), u')"
    and objs: "objs (world s) \<subseteq>\<^sub>m objects (world u)" "objects (world u') \<subseteq>\<^sub>m objs (world t)"
    by blast
  from answer_handled [OF read ans] obtain v where
    handled: "handle_request Q ps provs (LoadObject b k) v = (Inr (Object r), u')"
    and v: "world v = snd (build_runtime Q (world u))" by auto
  from handled have loaded: "load_s3_object Q b k v = (Inr r, u')"
    by (auto simp: handle_request_def elim!: bindM_InrE)
  show ?thesis
  proof (cases r)
    case (Some body)
    with s3_store.load_found [OF linked_s3 [OF link]] loaded have "objects (world u') (b, k) = Some body" by blast
    with objs(2) Some show ?thesis by (simp add: map_le_Some)
  next
    case None
    with s3_store.load_absent [OF linked_s3 [OF link]] loaded have "objects (world v) (b, k) = None" by blast
    then have "objects (world u) (b, k) = None"
      using map_le_None [OF linked_runtime [OF link]] by (simp add: v)
    with objs(1) None show ?thesis by (simp add: map_le_None)
  qed
qed

lemma save_over_link:
  assumes link: "linked P Q ps provs allowed peer objects objs wrapped"
    and run: "save_object_if_absent P ep b k body s = (Inr (), t)"
  shows "objs (world t) (b, k) = Some body \<and> mode ps = InitKey"
proof -
  from run have "request_broker P ep (SaveObjectIfAbsent b k body) s = (Inr Saved, t)"
    by (auto simp: save_object_if_absent_def elim!: bindM_InrE split: broker_response.splits)
  from request_served [OF linked_serves [OF link] linked_libs [OF link] linked_keep [OF link] this]
  obtain u u' input rest where
    read: "read_json_frame (request_of_json (crates Q)) input = Inr (SaveObjectIfAbsent b k body, rest)"
    and ans: "answer Q ps provs allowed peer input u = (Inr Saved, u')"
    and objs: "objects (world u') \<subseteq>\<^sub>m objs (world t)"
    by blast
  from answer_handled [OF read ans] obtain v where
    handled: "handle_request Q ps provs (SaveObjectIfAbsent b k body) v = (Inr Saved, u')" by auto
  then have "save_s3_object_if_absent Q b k body v = (Inr (), u')" "mode ps = InitKey"
    by (auto simp: handle_request_def elim!: bindM_InrE split: if_splits)
  with s3_store.save_stored [OF linked_s3 [OF link]] objs show ?thesis
    by (blast intro: map_le_Some)
qed

interpretation enclave: key_store P ep objs "linked P Q ps provs allowed peer objects objs wrapped" wrapped
  for P :: "('w, 'z) platform_scheme" and ep objs and Q :: "('v, 'y) platform_scheme"
    and ps provs allowed peer objects wrapped
proof unfold_locales
  fix b k s r t
  assume link: "linked P Q ps provs allowed peer objects objs wrapped" and "load_object P ep b k s = (r, t)"
  then show "objs (world s) \<subseteq>\<^sub>m objs (world t)"
    using movesD [OF moves_load_object [OF linked_keep [OF link]]] by (simp add: grows_def)
next
  fix b k s body t
  assume "linked P Q ps provs allowed peer objects objs wrapped" and "load_object P ep b k s = (Inr (Some body), t)"
  then show "objs (world t) (b, k) = Some body" using load_over_link by fastforce
next
  fix b k s t
  assume "linked P Q ps provs allowed peer objects objs wrapped" and "load_object P ep b k s = (Inr None, t)"
  then show "objs (world s) (b, k) = None" using load_over_link by fastforce
next
  fix b k body s r t
  assume link: "linked P Q ps provs allowed peer objects objs wrapped"
    and "save_object_if_absent P ep b k body s = (r, t)"
  then show "objs (world s) \<subseteq>\<^sub>m objs (world t)"
    using movesD [OF moves_save_object_if_absent [OF linked_keep [OF link]]] by (simp add: grows_def)
next
  fix b k body s t
  assume "linked P Q ps provs allowed peer objects objs wrapped" and "save_object_if_absent P ep b k body s = (Inr (), t)"
  then show "objs (world t) (b, k) = Some body" using save_over_link by blast
qed (auto dest: linkedD)

section \<open>Properties\<close>

text \<open>
  Property C1. End to end, the restored key is the initialised key. Once an initialisation over a
  broker has succeeded, any later restore (in another process, with another KMS client, over any
  link, with any other activity in between that only adds S3 objects) that succeeds for the same
  bucket and prefix yields the same public key and fingerprint.
\<close>

theorem restored_key_is_initialised_key:
  assumes link: "linked P Q ps provs allowed peer objects objs wrapped"
    and init: "initialize_key_material P ep client cfg s = (Inr kp, t)"
    and two: "length (kms_keys cfg) = 2"
    and later: "objs (world t) \<subseteq>\<^sub>m objs (world u)" "wrapped (world t) \<subseteq>\<^sub>m wrapped (world u)"
    and link': "linked P' Q' ps' provs' allowed' peer' objects' objs wrapped" "crates P' = crates P"
    and restore: "restore_key_material P' ep' client' cfg' u = (Inr kp', v)"
    and same: "s3_bucket cfg' = s3_bucket cfg" "s3_prefix cfg' = s3_prefix cfg"
  shows "public_key kp' = public_key kp \<and> fingerprint kp' = fingerprint kp"
proof -
  from enclave.initialization_recoverable [OF link init two]
  have "recoverable (crates P) (objs (world t)) (wrapped (world t)) (s3_bucket cfg) (s3_prefix cfg)
      (map key_arn (kms_keys cfg)) (public_key kp)"
    and fp: "fingerprint kp = sha256_hex (crates P) (public_key kp)" by auto
  then have "recoverable (crates P') (objs (world u)) (wrapped (world u)) (s3_bucket cfg') (s3_prefix cfg')
      (map key_arn (kms_keys cfg)) (public_key kp)"
    using recoverable_mono [OF _ later] by (simp add: link'(2) same)
  from enclave.restore_same_key [OF link'(1) this restore] fp show ?thesis
    by (simp add: link'(2))
qed

text \<open>
  Property C2. Any one key suffices. After a successful initialisation, a restore by a process whose
  loads of the stored objects below the prefix return, and whose KMS unwraps the data keys issued under
  at least one of the initialised keys, succeeds with the initialised public key, whatever happens with
  the other key.
\<close>

theorem any_one_key_restores:
  assumes link: "linked P Q ps provs allowed peer objects objs wrapped"
    and init: "initialize_key_material P ep client cfg s = (Inr kp, t)"
    and two: "length (kms_keys cfg) = 2"
    and later: "objs (world t) \<subseteq>\<^sub>m objs (world u)" "wrapped (world t) \<subseteq>\<^sub>m wrapped (world u)"
    and same: "s3_bucket cfg' = s3_bucket cfg" "s3_prefix cfg' = s3_prefix cfg"
    and key: "key \<in> set (kms_keys cfg')" "key_arn key \<in> set (map key_arn (kms_keys cfg))"
    and loads: "\<And>k u. objs (world t) (s3_bucket cfg', k) \<noteq> None \<Longrightarrow> starts_with (s3_prefix cfg' @ ''/'') k \<Longrightarrow>
      objs (world t) \<subseteq>\<^sub>m objs (world u) \<Longrightarrow> is_ok (fst (load_object P ep (s3_bucket cfg') k u))"
    and unwraps: "\<And>e u. wrapped (world u) (key_arn key, e) \<noteq> None \<Longrightarrow>
      is_ok (fst (decrypt_data_key P client' cfg' key e u))"
  shows "\<exists>kp' v. restore_key_material P ep client' cfg' u = (Inr kp', v) \<and> public_key kp' = public_key kp"
proof -
  from enclave.initialization_recoverable [OF link init two]
  have "recoverable (crates P) (objs (world t)) (wrapped (world t)) (s3_bucket cfg) (s3_prefix cfg)
      (map key_arn (kms_keys cfg)) (public_key kp)" by blast
  then have rec: "recoverable (crates P) (objs (world t)) (wrapped (world t)) (s3_bucket cfg') (s3_prefix cfg')
      (map key_arn (kms_keys cfg)) (public_key kp)"
    by (simp add: same)
  show ?thesis
    by (rule enclave.restore_succeeds [OF link rec _ key loads unwraps])
      (use later in \<open>simp_all add: enclave.later_def grows_def\<close>)
qed

text \<open>
  Property C3. Racing initialisations agree. If two enclaves initialise the same bucket and prefix
  over one store, at any times and with any interleaving of their requests, through any brokers, and
  both succeed, then they hold the same public key: the conditional write of the manifest lets at
  most one fresh key through, and no success is reported for another.
\<close>

theorem concurrent_initialisations_agree:
  assumes link: "linked P Q ps provs allowed peer objects objs wrapped"
    and init: "initialize_key_material P ep client cfg s = (Inr kp, t)"
    and link': "linked P' Q' ps' provs' allowed' peer' objects' objs wrapped" "crates P' = crates P"
    and init': "initialize_key_material P' ep' client' cfg' s' = (Inr kp', t')"
    and two: "length (kms_keys cfg) = 2" "length (kms_keys cfg') = 2"
    and same: "s3_bucket cfg' = s3_bucket cfg" "s3_prefix cfg' = s3_prefix cfg"
    and store: "objs (world t) \<subseteq>\<^sub>m objs w" "objs (world t') \<subseteq>\<^sub>m objs w"
  shows "public_key kp' = public_key kp \<and> fingerprint kp' = fingerprint kp"
proof -
  from enclave.initialization_recoverable [OF link init two(1)]
  have rec: "recoverable (crates P) (objs (world t)) (wrapped (world t)) (s3_bucket cfg) (s3_prefix cfg)
      (map key_arn (kms_keys cfg)) (public_key kp)"
    and fp: "fingerprint kp = sha256_hex (crates P) (public_key kp)" by auto
  from enclave.initialization_recoverable [OF link'(1) init' two(2)]
  have rec': "recoverable (crates P) (objs (world t')) (wrapped (world t')) (s3_bucket cfg) (s3_prefix cfg)
      (map key_arn (kms_keys cfg')) (public_key kp')"
    and fp': "fingerprint kp' = sha256_hex (crates P) (public_key kp')"
    by (auto simp: same link'(2))
  from recoverable_unique [OF rec rec' store] fp fp' show ?thesis by simp
qed

text \<open>
  Property C5. Existing key material is never replaced: if the manifest object exists, an
  initialisation fails after at most looking it up; nothing is drawn, generated, unwrapped or written.
\<close>

theorem existing_manifest_refused:
  assumes "linked P Q ps provs allowed peer objects objs wrapped"
    and "objs (world s) (s3_bucket cfg, manifest_key cfg) = Some x"
    and "initialize_key_material P ep client cfg s = (r, t)"
  shows "\<not> is_ok r \<and> (\<exists>evs. trace t = trace s @ evs
    \<and> prefix (steps_of evs) [Request (LoadObject (s3_bucket cfg) (manifest_key cfg))])"
  by (rule enclave.initialization_refused [OF assms])

text \<open>
  Property C9. The broker's mode is decisive: over a broker that was not started in \<open>init-key\<close>
  mode no initialisation succeeds, whatever mode the enclave's command line asks for.
\<close>

theorem serve_mode_blocks_initialization:
  assumes "linked P Q ps provs allowed peer objects objs wrapped" and "mode ps = Serve"
  shows "\<not> is_ok (fst (initialize_key_material P ep client cfg s))"
proof
  assume "is_ok (fst (initialize_key_material P ep client cfg s))"
  then obtain kp t where "initialize_key_material P ep client cfg s = (Inr kp, t)"
    by (cases "initialize_key_material P ep client cfg s"; cases "fst (initialize_key_material P ep client cfg s)") auto
  from enclave.initialization_saves [OF this] save_over_link [OF assms(1)] assms(2) show False
    by fastforce
qed

text \<open>
  Property C7. The remote call refines the broker's handler. A request of the enclave that returns
  got the response that \<open>handle_request\<close> computed for exactly that request under the broker's
  settings, from an admitted peer, at a moment when the store held all that the enclave could have
  seen before, and what the handler stored is there afterwards. Truncated, garbled or lost replies
  never surface as another response.
\<close>

theorem request_refines_handler:
  assumes link: "linked P Q ps provs allowed peer objects objs wrapped"
    and run: "request_broker P ep rq s = (Inr resp, t)" and rq: "rq \<noteq> GetSettings"
  shows "\<exists>v u. handle_request Q ps provs rq v = (Inr resp, u)
    \<and> objs (world s) \<subseteq>\<^sub>m objects (world v) \<and> objects (world u) \<subseteq>\<^sub>m objs (world t)
    \<and> (allowed = None \<or> peer = allowed)"
proof -
  from request_served [OF linked_serves [OF link] linked_libs [OF link] linked_keep [OF link] run]
  obtain u u' input rest where
    read: "read_json_frame (request_of_json (crates Q)) input = Inr (rq, rest)"
    and ans: "answer Q ps provs allowed peer input u = (Inr resp, u')" "\<forall>msg. resp \<noteq> Error msg"
    and objs: "objs (world s) \<subseteq>\<^sub>m objects (world u)" "objects (world u') \<subseteq>\<^sub>m objs (world t)"
    by blast
  from answer_handled [OF read ans rq] obtain v where
    v: "handle_request Q ps provs rq v = (Inr resp, u')" "world v = snd (build_runtime Q (world u))" by blast
  have "objs (world s) \<subseteq>\<^sub>m objects (world v)"
    using map_le_trans [OF objs(1) linked_runtime [OF link]] by (simp add: v(2))
  moreover have "allowed = None \<or> peer = allowed"
    using ans by (auto simp: answer_read [OF read] split: if_splits)
  ultimately show ?thesis using v(1) objs(2) by blast
qed

text \<open>
  Property C13. Requests and responses agree in type end to end: over the link, a request that
  returns has the response of its own kind, so each typed wrapper hands back its content; the error
  for an unexpected response is dead code there.
\<close>

theorem replies_fit_requests:
  assumes link: "linked P Q ps provs allowed peer objects objs wrapped"
    and run: "request_broker P ep rq s = (Inr resp, t)"
  shows "case rq of
      GetSettings \<Rightarrow> \<exists>x. resp = Settings x \<and> request_broker_settings P ep s = (Inr x, t)
    | GetAwsCredentials sl \<Rightarrow> \<exists>x. resp = AwsCredentials x \<and> request_broker_credentials P ep sl s = (Inr x, t)
    | LoadObject b k \<Rightarrow> \<exists>x. resp = Object x \<and> load_object P ep b k s = (Inr x, t)
    | SaveObjectIfAbsent b k body \<Rightarrow> resp = Saved \<and> save_object_if_absent P ep b k body s = (Inr (), t)"
proof -
  from request_served [OF linked_serves [OF link] linked_libs [OF link] linked_keep [OF link] run]
  obtain u u' input rest where
    read: "read_json_frame (request_of_json (crates Q)) input = Inr (rq, rest)"
    and ans: "answer Q ps provs allowed peer input u = (Inr resp, u')" "\<forall>msg. resp \<noteq> Error msg"
    by blast
  have "\<exists>resp. fst (answer Q ps provs allowed peer input u) = Inr resp
      \<and> (response_fits rq resp \<or> (\<exists>msg. resp = Error msg))"
    using answer_typed [of Q ps provs allowed peer input u] read by simp
  with ans have "response_fits rq resp" by auto
  with run show ?thesis
    by (cases "(rq, resp)" rule: response_fits.cases)
      (auto simp: request_broker_settings_def request_broker_credentials_def load_object_def
        save_object_if_absent_def io_simps)
qed

end
