(* ===== verification/Key_Events.thy ===== *)
theory Key_Events
  imports Key_Schedule
begin

text \<open>
  Which events the key-material operations can leave at all: requests to the broker, data-key calls,
  draws, and lines on the standard output. It follows what an initialisation can print.
\<close>

section \<open>Ordinary events\<close>

text \<open>The events of requests, data-key operations and draws.\<close>

fun ordinary :: "event \<Rightarrow> bool" where
  "ordinary (Send ep rq) = True"
| "ordinary (Kms_Generate c rq) = True"
| "ordinary (Kms_Decrypt c rq) = True"
| "ordinary (Nitro_Generate cl k n) = True"
| "ordinary (Nitro_Decrypt cl b x) = True"
| "ordinary Nitro_Free = True"
| "ordinary (Draw n) = True"
| "ordinary ev = connecting ev"

lemma requesting_ordinary: "requesting ep rq ev \<Longrightarrow> ordinary ev"
  by (cases ev) (auto simp: requesting_def)

lemma confined_response_case:
  "(\<And>x. confined A (f x)) \<Longrightarrow> (\<And>x. confined A (g x)) \<Longrightarrow> (\<And>x. confined A (h x)) \<Longrightarrow> confined A i \<Longrightarrow>
   (\<And>x. confined A (j x)) \<Longrightarrow>
   confined A (case resp of Settings x \<Rightarrow> f x | AwsCredentials x \<Rightarrow> g x | Object x \<Rightarrow> h x | Saved \<Rightarrow> i | Error x \<Rightarrow> j x)"
  by (cases resp) auto

lemma confined_wrappers_ordinary:
  "confined ordinary (request_broker_settings P ep)"
  "confined ordinary (request_broker_credentials P ep sl)"
  "confined ordinary (load_object P ep b k)"
  "confined ordinary (save_object_if_absent P ep b k body)"
  unfolding request_broker_settings_def request_broker_credentials_def load_object_def
    save_object_if_absent_def
  by (intro confined_intros confined_request_broker requesting_ordinary confined_response_case; assumption)+

lemma confined_kms_ordinary:
  "confined ordinary (generate_data_key P client ps key)"
  "confined ordinary (decrypt_data_key P client ps key e)"
  unfolding generate_data_key_def call_generate_data_key_def nitro_generate_data_key_def
    decrypt_data_key_def call_decrypt_data_key_def nitro_decrypt_data_key_def
    take_native_buffer_def Let_def
  by (cases client; auto intro!: confined_intros confined_wrappers_ordinary)+

lemma confined_package_ordinary:
  "confined ordinary (restore_from_package P client ps key package public)"
  "confined ordinary (verify_uploaded_object P s3 b k h)"
  "confined ordinary (restore_attempt P s3 client ps public key ref)"
  unfolding restore_attempt_def restore_from_package_def verify_uploaded_object_def Let_def
  by (auto intro!: confined_intros confined_wrappers_ordinary confined_kms_ordinary)

lemmas confined_ordinary = confined_wrappers_ordinary confined_kms_ordinary confined_package_ordinary

section \<open>What an operation can print\<close>

text \<open>All lines that an initialisation with some settings can print.\<close>

definition init_lines :: "parent_settings \<Rightarrow> string list" where
  "init_lines ps =
     (let url = s3_url (s3_bucket ps) (join_key (s3_prefix ps) manifest_file_name) in
     [''initialization: checking '' @ url, ''initialization: committed '' @ url]
     @ map (\<lambda>key. ''initialization: generating data key with '' @ key_arn key) (kms_keys ps))"

lemma confined_initialize:
  assumes "\<And>ev. ordinary ev \<Longrightarrow> A ev" and "\<And>x. x \<in> set (init_lines ps) \<Longrightarrow> A (Stdout x)"
  shows "confined A (initialize_key_material P s3 client ps)"
proof -
  note quiet = confined_ordinary [THEN confined_mono, OF assms(1)]
  have "confined A (initialize_keys P s3 client ps x pk keys)" if "set keys \<subseteq> set (kms_keys ps)" for x pk keys
    using that
  proof (induction keys)
    case (Cons key keys)
    then have "A (Stdout (''initialization: generating data key with '' @ key_arn key))"
      by (intro assms(2)) (simp add: init_lines_def Let_def)
    with Cons show ?case
      by (auto simp: initialize_key_def Let_def intro!: confined_intros quiet assms(1))
  qed (simp add: confined_intros)
  then show ?thesis
    unfolding initialize_key_material_def Let_def
    by (auto intro!: confined_intros quiet assms simp: init_lines_def Let_def)
qed

lemma confined_restore:
  assumes "\<And>ev. ordinary ev \<Longrightarrow> A ev" and "\<And>x. A (Stdout x)"
  shows "confined A (restore_key_material P s3 client ps)"
proof -
  note quiet = confined_ordinary [THEN confined_mono, OF assms(1)]
  have "confined A (restore_loop P s3 client ps m pk keys fs)" for m pk keys fs
    by (induction keys arbitrary: fs)
      (auto intro!: confined_intros quiet assms split: option.split)
  then show ?thesis
    unfolding restore_key_material_def Let_def
    by (auto intro!: confined_intros quiet assms)
qed

section \<open>Property\<close>

text \<open>The lines of an initialisation are among those that its settings determine.\<close>

definition prints_only :: "string list \<Rightarrow> event \<Rightarrow> bool" where
  "prints_only lines ev =
     (case ev of Stdout x \<Rightarrow> x \<in> set lines | Stderr x \<Rightarrow> False | _ \<Rightarrow> True)"

text \<open>
  Property C15. An initialisation prints no secret: whatever the broker, S3 and KMS answer and
  whatever private key and nonces are drawn, every line it prints on either stream is one of a list
  that depends on the settings alone (the URL of the manifest and the key ARNs), on success and on
  every error path.
\<close>

theorem initialization_prints_no_secret:
  "confined (prints_only (init_lines ps)) (initialize_key_material P s3 client ps)"
proof (rule confined_initialize)
  show "prints_only (init_lines ps) ev" if "ordinary ev" for ev
    using that by (cases ev) (auto simp: prints_only_def)
qed (simp add: prints_only_def)

end
