(* ===== verification/Enclave_Main.thy ===== *)
theory Enclave_Main
  imports Composition Key_Events
begin

text \<open>
  The two programs, from \<open>src/src/bin_support.rs\<close>, and the hello RPC of \<open>src/src/lib.rs\<close>. The
  \<open>dotenvy\<close> crate, the gRPC transport (\<open>tonic\<close>, \<open>tokio-vsock\<close>) and the parser of
  socket addresses extend the record of external code.
\<close>

section \<open>More external code\<close>

text \<open>
  \<open>dotenvy\<close> sets variables of the process environment, also when it then fails.
  \<open>rpc_connect\<close> opens a gRPC channel (to a URI for TCP, over a vsock stream otherwise),
  \<open>rpc_hello\<close> calls the remote method, and the last three bind and run a gRPC server.
\<close>

record 'w main_platform = "'w platform" +
  dotenv_path :: "string \<Rightarrow> env \<Rightarrow> (string + unit) \<times> env"
  dotenv_search :: "env \<Rightarrow> (string + unit) \<times> env"
  is_file :: "string \<Rightarrow> bool"
  parse_socket_addr :: "string \<Rightarrow> string + string"
  rpc_connect_uri :: "string \<Rightarrow> 'w \<Rightarrow> (string + int) \<times> 'w"
  rpc_connect_vsock :: "u32 \<Rightarrow> u32 \<Rightarrow> 'w \<Rightarrow> (string + int) \<times> 'w"
  rpc_hello :: "int \<Rightarrow> 'w \<Rightarrow> (string + string) \<times> 'w"
  rpc_serve_addr :: "string \<Rightarrow> 'w \<Rightarrow> (string + unit) \<times> 'w"
  rpc_bind_vsock :: "u32 \<Rightarrow> u32 \<Rightarrow> 'w \<Rightarrow> (string + int) \<times> 'w"
  rpc_serve_vsock :: "int \<Rightarrow> 'w \<Rightarrow> (string + unit) \<times> 'w"

section \<open>The environment\<close>

definition eif_env_path :: string where
  "eif_env_path = ''/app/.env''"

definition app_env_file_failed :: "string \<Rightarrow> string \<Rightarrow> app_error" where
  "app_env_file_failed path e =
     Err (''failed to load APP_ENV_FILE '' @ [CHR 0x27] @ path @ [CHR 0x27] @ '': '' @ e)"

definition eif_env_failed :: "string \<Rightarrow> app_error" where
  "eif_env_failed e = Err (''failed to load '' @ eif_env_path @ '': '' @ e)"

definition load_environment ::
    "('w, 'z) main_platform_scheme \<Rightarrow> env \<Rightarrow> unit app_result \<times> env" where
  "load_environment P env =
     (case env ''APP_ENV_FILE'' of
        Some path \<Rightarrow>
          (case dotenv_path P path env of (r, env') \<Rightarrow> (map_err (app_env_file_failed path) r, env'))
      | None \<Rightarrow>
          (case dotenv_search P env of
             (Inr _, env') \<Rightarrow> (Inr (), env')
           | (Inl _, env') \<Rightarrow>
               if is_file P eif_env_path
               then (case dotenv_path P eif_env_path env' of (r, env'') \<Rightarrow> (map_err eif_env_failed r, env''))
               else (Inr (), env')))"

text \<open>\<open>env::var(name).unwrap_or_else\<close>: an empty value counts as set.\<close>

definition env_or :: "env \<Rightarrow> string \<Rightarrow> string \<Rightarrow> string" where
  "env_or env name d = (case env name of Some v \<Rightarrow> v | None \<Rightarrow> d)"

section \<open>The hello RPC\<close>

definition hello_message :: string where
  "hello_message = ''hello from enclave''"

definition connect_enclave_vsock_client ::
    "('w, 'z) main_platform_scheme \<Rightarrow> u32 \<Rightarrow> u32 \<Rightarrow> ('w, int) io" where
  "connect_enclave_vsock_client P cid port =
     (if linux P
      then bindM (callM (Rpc_Connect (Vsock cid port)) (rpc_connect_vsock P cid port)) (\<lambda>r.
           liftM (lib_result r))
      else throwM vsock_not_linux)"

definition request_enclave_hello ::
    "('w, 'z) main_platform_scheme \<Rightarrow> endpoint \<Rightarrow> ('w, string) io" where
  "request_enclave_hello P ep =
     bindM (case ep of
              Tcp addr \<Rightarrow>
                bindM (callM (Rpc_Connect ep) (rpc_connect_uri P (''http://'' @ addr))) (\<lambda>r.
                liftM (lib_result r))
            | Vsock cid port \<Rightarrow> connect_enclave_vsock_client P cid port) (\<lambda>client.
     bindM (callM (Rpc_Hello client) (rpc_hello P client)) (\<lambda>r.
     liftM (lib_result r)))"

definition serve_enclave_grpc_vsock ::
    "('w, 'z) main_platform_scheme \<Rightarrow> u32 \<Rightarrow> u32 \<Rightarrow> ('w, unit) io" where
  "serve_enclave_grpc_vsock P cid port =
     (if linux P
      then (let cid = (if cid = 0 then vmaddr_cid_any else cid) in
           bindM (callM (Rpc_Bind cid port) (rpc_bind_vsock P cid port)) (\<lambda>r.
           bindM (liftM (lib_result r)) (\<lambda>incoming.
           bindM (callM (Serve_Rpc (Vsock cid port)) (rpc_serve_vsock P incoming)) (\<lambda>r.
           liftM (lib_result r)))))
      else throwM vsock_not_linux)"

definition serve_enclave_rpc :: "('w, 'z) main_platform_scheme \<Rightarrow> endpoint \<Rightarrow> ('w, unit) io" where
  "serve_enclave_rpc P ep =
     bindM (emitM (Stdout (''decrypt-server-tee: enclave gRPC listening on ''
         @ debug_endpoint (crates P) ep))) (\<lambda>_.
     case ep of
       Tcp addr \<Rightarrow>
         bindM (liftM (lib_result (parse_socket_addr P addr))) (\<lambda>a.
         bindM (callM (Serve_Rpc (Tcp a)) (rpc_serve_addr P a)) (\<lambda>r.
         liftM (lib_result r)))
     | Vsock cid port \<Rightarrow> serve_enclave_grpc_vsock P cid port)"

section \<open>decrypt-server-tee\<close>

definition unknown_tee_command :: "string \<Rightarrow> app_error" where
  "unknown_tee_command c =
     Err (''unknown decrypt-server-tee command '' @ [CHR 0x27] @ c @ [CHR 0x27]
          @ ''; expected serve or init-key'')"

text \<open>\<open>env::args().nth(1)\<close>; the arguments include the program name.\<close>

definition first_argument :: "string list \<Rightarrow> string option" where
  "first_argument args = (case args of _ # a # _ \<Rightarrow> Some a | _ \<Rightarrow> None)"

definition apply_command :: "string option \<Rightarrow> parent_settings \<Rightarrow> parent_settings app_result" where
  "apply_command cmd ps =
     (case cmd of
        None \<Rightarrow> Inr ps
      | Some c \<Rightarrow>
          if c = ''init-key'' then Inr (ps\<lparr>mode := InitKey\<rparr>)
          else if c = ''serve'' then Inr (ps\<lparr>mode := Serve\<rparr>)
          else Inl (unknown_tee_command c))"

definition decrypt_server_tee_main ::
    "('w, 'z) main_platform_scheme \<Rightarrow> env \<Rightarrow> string list \<Rightarrow> ('w, unit) io" where
  "decrypt_server_tee_main P env0 args =
     (case load_environment P env0 of (loaded, env) \<Rightarrow>
     bindM (liftM loaded) (\<lambda>_.
     bindM (liftM (endpoint_parse (env_or env ''ENCLAVE_BROKER_ENDPOINT'' default_broker_endpoint)))
       (\<lambda>broker_endpoint.
     bindM (emitM (Stdout (''startup: enclave_broker_endpoint=''
         @ debug_endpoint (crates P) broker_endpoint))) (\<lambda>_.
     bindM (request_broker_settings P broker_endpoint) (\<lambda>broker_settings.
     bindM (liftM (apply_command (first_argument args) broker_settings)) (\<lambda>ps.
     bindM (run_decrypt_server_tee P env ps broker_endpoint) (\<lambda>_.
     if mode ps = InitKey then returnM () else
     bindM (liftM (endpoint_parse (env_or env ''ENCLAVE_RPC_LISTEN_ENDPOINT'' default_enclave_rpc_endpoint)))
       (\<lambda>rpc_endpoint.
     serve_enclave_rpc P rpc_endpoint))))))))"

section \<open>enclave-broker\<close>

definition unknown_broker_command :: "string \<Rightarrow> app_error" where
  "unknown_broker_command c =
     Err (''unknown enclave-broker command '' @ [CHR 0x27] @ c @ [CHR 0x27] @ ''; expected hello'')"

definition invalid_allowed_cid :: app_error where
  "invalid_allowed_cid = Err ''ENCLAVE_BROKER_ALLOWED_CID must be a u32''"

definition allowed_cid_from_env :: "env \<Rightarrow> u32 option app_result" where
  "allowed_cid_from_env env =
     (case env ''ENCLAVE_BROKER_ALLOWED_CID'' of
        None \<Rightarrow> Inr None
      | Some v \<Rightarrow>
          if trim v = [] then Inr None
          else bind_result (ok_or invalid_allowed_cid (parse_u32 v)) (\<lambda>c. Inr (Some c)))"

text \<open>The command \<open>hello\<close>, and the configuration of a broker started without a command.\<close>

definition enclave_broker_hello :: "('w, 'z) main_platform_scheme \<Rightarrow> env \<Rightarrow> ('w, unit) io" where
  "enclave_broker_hello P env =
     bindM (liftM (endpoint_parse (env_or env ''ENCLAVE_RPC_ENDPOINT'' default_enclave_rpc_endpoint)))
       (\<lambda>ep.
     bindM (request_enclave_hello P ep) (\<lambda>message.
     emitM (Stdout message)))"

definition broker_configuration :: "env \<Rightarrow> (parent_settings \<times> endpoint \<times> u32 option) app_result" where
  "broker_configuration env =
     bind_result (from_env env) (\<lambda>ps.
     bind_result (endpoint_parse (env_or env ''ENCLAVE_BROKER_LISTEN_ENDPOINT'' default_broker_endpoint))
       (\<lambda>ep.
     bind_result (allowed_cid_from_env env) (\<lambda>allowed.
     Inr (ps, ep, allowed))))"

text \<open>The program; it is \<^const>\<open>None\<close> if it serves forever.\<close>

definition enclave_broker_main ::
    "('w, 'z) main_platform_scheme \<Rightarrow> 'w scheduler \<Rightarrow> env \<Rightarrow> string list \<Rightarrow> 'w sys
     \<Rightarrow> (unit app_result \<times> 'w sys) option" where
  "enclave_broker_main P sched env0 args s =
     (case load_environment P env0 of
        (Inl e, env) \<Rightarrow> Some (Inl e, s)
      | (Inr _, env) \<Rightarrow>
          (case first_argument args of
             Some c \<Rightarrow>
               if c = ''hello'' then Some (enclave_broker_hello P env s)
               else Some (Inl (unknown_broker_command c), s)
           | None \<Rightarrow>
               (case broker_configuration env of
                  Inl e \<Rightarrow> Some (Inl e, s)
                | Inr (ps, ep, allowed) \<Rightarrow> serve_enclave_broker P sched env ep ps allowed s)))"

section \<open>Lemmas\<close>

fun serves_rpc :: "event \<Rightarrow> bool" where
  "serves_rpc (Rpc_Bind _ _) = True"
| "serves_rpc (Serve_Rpc _) = True"
| "serves_rpc _ = False"

definition no_rpc :: "event \<Rightarrow> bool" where
  "no_rpc ev \<longleftrightarrow> \<not> serves_rpc ev"

lemma no_rpc_simps [simp]:
  "no_rpc (Stdout x)" "no_rpc (Stderr x)" "no_rpc (Draw n)" "no_rpc Nitro_Free"
  "no_rpc (Kms_Generate c rq)" "no_rpc (Kms_Decrypt c rq)"
  "no_rpc (Nitro_Generate cl k b)" "no_rpc (Nitro_Decrypt cl e ctx)"
  by (simp_all add: no_rpc_def)

lemma ordinary_no_rpc: "ordinary ev \<Longrightarrow> no_rpc ev"
  by (cases ev) (auto simp: no_rpc_def)

lemmas confined_wrappers_no_rpc = confined_wrappers_ordinary [THEN confined_mono, OF ordinary_no_rpc]

lemma confined_initialize_no_rpc: "confined no_rpc (initialize_key_material P s3 client ps)"
  by (rule confined_initialize) (simp_all add: ordinary_no_rpc)

lemma confined_restore_key_no_rpc: "confined no_rpc (restore_key_material P s3 client ps)"
  by (rule confined_restore) (simp_all add: ordinary_no_rpc)

lemma confined_run_no_rpc: "confined no_rpc (run_decrypt_server_tee P env ps ep)"
  unfolding run_decrypt_server_tee_def validate_kms_configuration_def warn_same_account_def Let_def
  by (cases "mode ps")
    (auto intro!: confined_intros confined_initialize_no_rpc confined_restore_key_no_rpc)

text \<open>
  Events that are those of one successful restore of a serving process, and what the process prints
  about the restored key.
\<close>

definition restoring_run :: "('w, 'z) platform_scheme \<Rightarrow> event list \<Rightarrow> restored_key_pair \<Rightarrow> bool" where
  "restoring_run P evs kp \<longleftrightarrow>
     (\<exists>ep client ps u v. mode ps = Serve \<and> restore_key_material P ep client ps u = (Inr kp, v)
        \<and> trace v = trace u @ evs)"

definition restore_report :: "libs \<Rightarrow> restored_key_pair \<Rightarrow> event list" where
  "restore_report L kp =
     [Stdout ''mode: restore'',
      Stdout (''kms_recovery_key_arn: '' @ restored_kms_key_arn kp),
      Stdout (''public_key_base64: '' @ base64_encode L (public_key kp)),
      Stdout (''public_key_fingerprint_sha256: '' @ fingerprint kp)]"

lemma run_restores:
  assumes run: "run_decrypt_server_tee P env ps ep s = (Inr x, t)" and "mode ps \<noteq> InitKey"
  shows "\<exists>before evs kp. trace t = trace s @ before @ evs @ restore_report (crates P) kp
    \<and> restoring_run P evs kp"
proof -
  from assms(2) have mode: "mode ps = Serve" by (cases "mode ps") auto
  with run obtain client u kp v where restored: "restore_key_material P ep client ps u = (Inr kp, v)"
    and t: "trace t = trace v @ restore_report (crates P) kp"
    and u: "\<exists>a. trace u = trace s @ a"
    by (auto simp: run_decrypt_server_tee_def Let_def restore_report_def kms_configuration_accepted_iff
        elim!: bindM_InrE)
  from confinedD [OF confined_restore_key_no_rpc restored] obtain evs where
    v: "trace v = trace u @ evs" by auto
  with restored mode have "restoring_run P evs kp" unfolding restoring_run_def by blast
  moreover from u obtain a where "trace u = trace s @ a" by blast
  ultimately show ?thesis
    using v t by (intro exI [of _ a] exI [of _ evs] exI [of _ kp]) simp
qed

lemma emits_run:
  "emits (run_decrypt_server_tee P env ps ep)
     (\<lambda>evs r. list_all no_rpc evs \<and> (is_ok r \<and> mode ps \<noteq> InitKey \<longrightarrow>
       (\<exists>before restore kp. evs = before @ restore @ restore_report (crates P) kp
          \<and> restoring_run P restore kp)))"
  unfolding emits_def
proof (intro allI impI)
  fix s r t
  assume run: "run_decrypt_server_tee P env ps ep s = (r, t)"
  from confinedD [OF confined_run_no_rpc run] obtain evs where
    evs: "trace t = trace s @ evs" "list_all no_rpc evs" by blast
  have "\<exists>before restore kp. evs = before @ restore @ restore_report (crates P) kp
      \<and> restoring_run P restore kp" if "is_ok r" "mode ps \<noteq> InitKey"
    using run run_restores that evs(1) by (cases r) fastforce+
  with evs show "\<exists>evs. trace t = trace s @ evs \<and> list_all no_rpc evs
      \<and> (is_ok r \<and> mode ps \<noteq> InitKey \<longrightarrow>
       (\<exists>before restore kp. evs = before @ restore @ restore_report (crates P) kp
          \<and> restoring_run P restore kp))" by blast
qed

text \<open>The events of a process that serves nothing before it has restored a key.\<close>

definition guarded_serving :: "('w, 'z) platform_scheme \<Rightarrow> event list \<Rightarrow> bool" where
  "guarded_serving P evs \<longleftrightarrow>
     (list_ex serves_rpc evs \<longrightarrow>
       (\<exists>before restore kp after. evs = before @ restore @ restore_report (crates P) kp @ after
          \<and> \<not> list_ex serves_rpc (before @ restore) \<and> restoring_run P restore kp))"

lemma no_rpc_guarded: "list_all no_rpc evs \<Longrightarrow> guarded_serving P evs"
  by (auto simp: guarded_serving_def list_ex_iff list_all_iff no_rpc_def)

lemma guarded_after_quiet:
  assumes "list_all no_rpc evs" and "guarded_serving P evs'"
  shows "guarded_serving P (evs @ evs')"
proof (cases "list_ex serves_rpc evs'")
  case True
  with assms(2) obtain before restore kp after where
    "evs' = before @ restore @ restore_report (crates P) kp @ after"
    "\<not> list_ex serves_rpc (before @ restore)" "restoring_run P restore kp"
    unfolding guarded_serving_def by blast
  then show ?thesis
    using assms(1) unfolding guarded_serving_def
    by (intro impI exI [of _ "evs @ before"] exI [of _ restore] exI [of _ kp] exI [of _ after])
      (auto simp: list_ex_iff list_all_iff no_rpc_def)
next
  case False
  with assms(1) show ?thesis
    by (auto simp: guarded_serving_def list_ex_iff list_all_iff no_rpc_def)
qed

lemma guarded_bindM:
  assumes "confined no_rpc m" and "\<And>x. emits (k x) (\<lambda>evs r. guarded_serving P evs)"
  shows "emits (bindM m k) (\<lambda>evs r. guarded_serving P evs)"
  by (rule emits_bindM [OF assms(1) [unfolded confined_def]])
    (auto intro: no_rpc_guarded guarded_after_quiet emits_mono [OF assms(2)])

lemma guarded_run:
  "emits (bindM (run_decrypt_server_tee P env ps ep) (\<lambda>_.
      if mode ps = InitKey then returnM () else bindM (liftM rpc) (serve_enclave_rpc P)))
    (\<lambda>evs r. guarded_serving P evs)"
proof (rule emits_bindM [OF emits_run])
  fix evs x
  assume run: "list_all no_rpc evs \<and> (is_ok (Inr x :: unit app_result) \<and> mode ps \<noteq> InitKey \<longrightarrow>
      (\<exists>before restore kp. evs = before @ restore @ restore_report (crates P) kp \<and> restoring_run P restore kp))"
  have any: "emits (bindM (liftM rpc) (serve_enclave_rpc P)) (\<lambda>_ _. True)"
    by (rule emits_mono [where P = "\<lambda>evs r. list_all (\<lambda>_. True) evs"])
      (auto simp: serve_enclave_rpc_def serve_enclave_grpc_vsock_def Let_def simp flip: confined_def
        intro!: confined_intros split: endpoint.split)
  show "emits (if mode ps = InitKey then returnM () else bindM (liftM rpc) (serve_enclave_rpc P))
      (\<lambda>evs' r. guarded_serving P (evs @ evs'))"
  proof (cases "mode ps = InitKey")
    case True
    with run show ?thesis by (auto intro!: emits_returnM no_rpc_guarded)
  next
    case False
    with run obtain before restore kp where
      "evs = before @ restore @ restore_report (crates P) kp" "restoring_run P restore kp"
      "list_all no_rpc (before @ restore)" by auto
    then have "guarded_serving P (evs @ evs')" for evs'
      unfolding guarded_serving_def
      by (intro impI exI [of _ before] exI [of _ restore] exI [of _ kp] exI [of _ evs'])
        (auto simp: list_ex_iff list_all_iff no_rpc_def)
    with False show ?thesis by (auto intro: emits_mono [OF any])
  qed
qed (auto intro: no_rpc_guarded)

lemma main_guarded: "emits (decrypt_server_tee_main P env args) (\<lambda>evs r. guarded_serving P evs)"
proof -
  obtain loaded env' where env: "load_environment P env = (loaded, env')" by force
  show ?thesis
    unfolding decrypt_server_tee_main_def env prod.case
    by (intro guarded_bindM guarded_run confined_intros confined_wrappers_no_rpc) simp
qed

section \<open>Properties\<close>

text \<open>
  Property C18. The enclave serves only with a proven key. Whenever the events of a run of
  \<open>decrypt_server_tee_main\<close> (for any environment, arguments and peers) contain the binding or
  serving of the RPC endpoint, they contain before it all events of a restore that succeeded, followed
  by the report of the restored key's ARN, public key and fingerprint; nothing was bound or served
  before that.
\<close>

theorem rpc_only_after_restore:
  assumes "decrypt_server_tee_main P env args s = (r, t)"
    and "trace t = trace s @ evs" and "list_ex serves_rpc evs"
  shows "\<exists>before restore kp after. evs = before @ restore @ restore_report (crates P) kp @ after
    \<and> \<not> list_ex serves_rpc (before @ restore) \<and> restoring_run P restore kp"
  using emitsD [OF main_guarded assms(1)] assms(2,3) unfolding guarded_serving_def by auto

text \<open>
  Property C36. A broker that does anything at all, other than for the command \<open>hello\<close>, was started
  without a command from a complete and valid configuration, and serves exactly that: its settings are
  those read from the environment (after the environment files), they are well formed, and it writes
  to S3 only if the environment asks for \<open>init-key\<close> mode; it listens where the environment says,
  or at the default; and it is restricted to a CID exactly if the environment gives one, to that one.
  In all other cases the program returns an error with no effect.
\<close>

theorem broker_starts_configured:
  assumes "first_argument args \<noteq> Some ''hello''"
    and "\<And>e. enclave_broker_main P sched env0 args s \<noteq> Some (Inl e, s)"
  shows "\<exists>env ps ep allowed. load_environment P env0 = (Inr (), env) \<and> first_argument args = None
    \<and> from_env env = Inr ps \<and> settings_ok ps \<and> (mode ps = InitKey) = (env ''DECRYPT_SERVER_TEE_MODE'' = Some ''init-key'')
    \<and> endpoint_parse (case env ''ENCLAVE_BROKER_LISTEN_ENDPOINT'' of
         Some v \<Rightarrow> v | None \<Rightarrow> ''tcp:127.0.0.1:7001'') = Inr ep
    \<and> (case env ''ENCLAVE_BROKER_ALLOWED_CID'' of
         None \<Rightarrow> allowed = None
       | Some v \<Rightarrow> if trim v = [] then allowed = None
                   else \<exists>cid. allowed = Some cid \<and> parse_u32 v = Some cid)
    \<and> enclave_broker_main P sched env0 args s = serve_enclave_broker P sched env ep ps allowed s"
proof -
  obtain loaded env where env: "load_environment P env0 = (loaded, env)" by force
  from assms(2) env have loaded: "loaded = Inr ()"
    by (cases loaded) (auto simp: enclave_broker_main_def)
  have arg: "first_argument args = None"
    using assms env loaded
    by (cases "first_argument args") (auto simp: enclave_broker_main_def)
  obtain ps ep allowed where conf: "broker_configuration env = Inr (ps, ep, allowed)"
    using assms(2) env loaded arg by (cases "broker_configuration env") (auto simp: enclave_broker_main_def)
  then have parts: "from_env env = Inr ps" "allowed_cid_from_env env = Inr allowed"
    "endpoint_parse (env_or env ''ENCLAVE_BROKER_LISTEN_ENDPOINT'' default_broker_endpoint) = Inr ep"
    by (auto simp: broker_configuration_def)
  have "case env ''ENCLAVE_BROKER_ALLOWED_CID'' of
         None \<Rightarrow> allowed = None
       | Some v \<Rightarrow> if trim v = [] then allowed = None
                   else \<exists>cid. allowed = Some cid \<and> parse_u32 v = Some cid"
    using parts(2) by (auto simp: allowed_cid_from_env_def split: option.splits if_splits)
  moreover have "enclave_broker_main P sched env0 args s = serve_enclave_broker P sched env ep ps allowed s"
    using env loaded arg conf by (simp add: enclave_broker_main_def)
  ultimately show ?thesis
    using from_env_settings [OF parts(1)] parts(1) parts(3) env loaded arg
    unfolding env_or_def default_broker_endpoint_def by blast
qed

end
