(* ===== verification/Demo.thy ===== *)
theory Demo
  imports Enclave_Main
begin

text \<open>
  A concrete instance of the external code, at which the properties are exercised: libraries with
  simple codings that keep the documented laws, a platform with a map as its S3 and one data key at
  its KMS, and an enclave platform whose byte stream is the broker model itself.
\<close>

section \<open>Codings\<close>

text \<open>A byte list followed by other data: every byte behind a one, a zero at the end.\<close>

definition put_bytes :: "bytes \<Rightarrow> bytes" where
  "put_bytes bs = concat (map (\<lambda>b. [1, b]) bs) @ [0]"

fun get_bytes :: "bytes \<Rightarrow> (bytes \<times> bytes) option" where
  "get_bytes (x # xs) =
     (if x = 0 then Some ([], xs)
      else (case xs of
        [] \<Rightarrow> None
      | b # rest \<Rightarrow> map_option (\<lambda>(bs, more). (b # bs, more)) (get_bytes rest)))"
| "get_bytes [] = None"

lemma get_put_bytes [simp]: "get_bytes (put_bytes bs @ rest) = Some (bs, rest)"
  by (induction bs) (simp_all add: put_bytes_def)

definition of_bytes :: "bytes \<Rightarrow> string" where
  "of_bytes bs = map (\<lambda>b. char_of (unat b)) bs"

lemma of_bytes_as_bytes [simp]: "of_bytes (as_bytes s) = s"
proof -
  have "char_of (unat (word_of_nat (of_char c) :: byte)) = c" for c
    by (simp add: unat_of_nat)
  then show ?thesis
    by (simp add: of_bytes_def as_bytes_def comp_def map_idI)
qed

lemma as_bytes_of_bytes [simp]: "as_bytes (of_bytes bs) = bs"
proof -
  have "word_of_nat (of_char (char_of (unat b) :: char)) = b" for b :: byte
    using unsigned_less [where ?'a = nat, of b] by (simp add: of_char_of)
  then show ?thesis
    by (simp add: of_bytes_def as_bytes_def comp_def map_idI)
qed

section \<open>Libraries\<close>

definition demo_credentials :: aws_credentials where
  "demo_credentials =
     \<lparr>cred_region = ''r'', access_key_id = ''A'', secret_access_key = ''S'', session_token = None,
      expires_at_epoch_seconds = None\<rparr>"

definition demo_arn :: "kms_slot \<Rightarrow> string" where
  "demo_arn sl = ''arn:aws:kms:r:'' @ label sl @ '':key/'' @ label sl"

definition demo_settings :: "startup_mode \<Rightarrow> parent_settings" where
  "demo_settings m =
     \<lparr>kms_keys = map (\<lambda>sl. \<lparr>slot = sl, key_arn = demo_arn sl, key_region = ''r''\<rparr>) [Primary, Backup],
      s3_bucket = ''b'', s3_prefix = ''p'', mode = m, key_spec = Some ''AES_128'',
      number_of_bytes = None, encryption_context = None, grant_tokens = [], dry_run = None\<rparr>"

fun demo_request_to_json :: "broker_request \<Rightarrow> string + bytes" where
  "demo_request_to_json GetSettings = Inr [0]"
| "demo_request_to_json (GetAwsCredentials Primary) = Inr [1]"
| "demo_request_to_json (GetAwsCredentials Backup) = Inr [2]"
| "demo_request_to_json (LoadObject b k) = Inr (3 # put_bytes (as_bytes b) @ as_bytes k)"
| "demo_request_to_json (SaveObjectIfAbsent b k body) =
     Inr (4 # put_bytes (as_bytes b) @ put_bytes (as_bytes k) @ body)"

definition demo_request_of_json :: "bytes \<Rightarrow> string + broker_request" where
  "demo_request_of_json bs =
     (case bs of
        [] \<Rightarrow> Inl ''EOF''
      | x # xs \<Rightarrow>
          if x = 0 then Inr GetSettings
          else if x = 1 then Inr (GetAwsCredentials Primary)
          else if x = 2 then Inr (GetAwsCredentials Backup)
          else if x = 3 then
            (case get_bytes xs of
               None \<Rightarrow> Inl ''EOF''
             | Some (b, k) \<Rightarrow> Inr (LoadObject (of_bytes b) (of_bytes k)))
          else
            (case get_bytes xs of
               None \<Rightarrow> Inl ''EOF''
             | Some (b, ys) \<Rightarrow>
                 (case get_bytes ys of
                    None \<Rightarrow> Inl ''EOF''
                  | Some (k, body) \<Rightarrow> Inr (SaveObjectIfAbsent (of_bytes b) (of_bytes k) body))))"

fun demo_response_to_json :: "broker_response \<Rightarrow> string + bytes" where
  "demo_response_to_json (Settings ps) =
     (if ps = demo_settings Serve then Inr [6] else if ps = demo_settings InitKey then Inr [7]
      else Inl ''unsupported'')"
| "demo_response_to_json (AwsCredentials c) = (if c = demo_credentials then Inr [1] else Inl ''unsupported'')"
| "demo_response_to_json (Object None) = Inr [2]"
| "demo_response_to_json (Object (Some body)) = Inr (3 # body)"
| "demo_response_to_json Saved = Inr [4]"
| "demo_response_to_json (Error msg) = Inr (5 # as_bytes msg)"

definition demo_response_of_json :: "bytes \<Rightarrow> string + broker_response" where
  "demo_response_of_json bs =
     (case bs of
        [] \<Rightarrow> Inl ''EOF''
      | x # xs \<Rightarrow>
          if x = 1 then Inr (AwsCredentials demo_credentials)
          else if x = 2 then Inr (Object None)
          else if x = 3 then Inr (Object (Some xs))
          else if x = 4 then Inr Saved
          else if x = 6 then Inr (Settings (demo_settings Serve))
          else if x = 7 then Inr (Settings (demo_settings InitKey))
          else Inr (Error (of_bytes xs)))"

text \<open>The documents of one key, each coded by one byte.\<close>

definition demo_zeros :: string where
  "demo_zeros = hex_of (replicate 32 0)"

definition demo_public :: bytes where
  "demo_public = replicate 32 2"

definition demo_document :: public_key_document where
  "demo_document = \<lparr>document_version = key_material_version, algorithm = private_key_algorithm,
     public_key_base64 = of_bytes demo_public, fingerprint_sha256 = demo_zeros\<rparr>"

definition demo_package :: recovery_package where
  "demo_package = \<lparr>package_version = key_material_version, encrypted_data_key_base64 = of_bytes [0],
     private_key_nonce_base64 = of_bytes (replicate 12 1),
     encrypted_private_key_base64 = of_bytes (replicate 32 1)\<rparr>"

definition demo_package_key :: "kms_slot \<Rightarrow> string" where
  "demo_package_key sl = join_key ''p'' (package_name (label sl @ ''-'' @ take 12 demo_zeros) (label sl) demo_zeros)"

definition demo_public_key :: string where
  "demo_public_key = join_key ''p'' (''public_key_sha256-'' @ demo_zeros @ ''.json'')"

definition demo_manifest :: key_manifest where
  "demo_manifest = \<lparr>manifest_version = key_material_version, recovery_policy = ''any-one'',
     key_fingerprint = demo_zeros, manifest_algorithm = private_key_algorithm,
     manifest_encryption = private_key_encryption,
     manifest_public_key = \<lparr>object_key = demo_public_key, object_sha256 = demo_zeros\<rparr>,
     recovery_objects = map (\<lambda>sl. \<lparr>recovery_kms_key_arn = demo_arn sl,
       recovery_object_key = demo_package_key sl, recovery_sha256 = demo_zeros\<rparr>) [Primary, Backup]\<rparr>"

definition one_to_json :: "'t \<Rightarrow> 't \<Rightarrow> string + bytes" where
  "one_to_json x v = (if v = x then Inr [7] else Inl ''unsupported'')"

definition demo_libs :: libs where
  "demo_libs =
     \<lparr>sha256 = (\<lambda>_. replicate 32 0),
      base64_encode = of_bytes,
      base64_decode = (\<lambda>s. Inr (as_bytes s)),
      aes128_encrypt = (\<lambda>k n p. Inr p),
      aes128_decrypt = (\<lambda>k n c. Inr c),
      aes256_encrypt = (\<lambda>k n p. Inr p),
      aes256_decrypt = (\<lambda>k n c. Inr c),
      verifying_key = (\<lambda>_. demo_public),
      request_to_json = demo_request_to_json,
      request_of_json = demo_request_of_json,
      response_to_json = demo_response_to_json,
      response_of_json = demo_response_of_json,
      manifest_to_json = one_to_json demo_manifest,
      manifest_of_json = (\<lambda>_. Inr demo_manifest),
      document_to_json = one_to_json demo_document,
      document_of_json = (\<lambda>_. Inr demo_document),
      package_to_json = one_to_json demo_package,
      package_of_json = (\<lambda>_. Inr demo_package),
      context_to_json = (\<lambda>_. Inl ''unsupported''),
      debug_str = (\<lambda>s. s),
      debug_settings = (\<lambda>_. [])\<rparr>"

lemma demo_request_inverse: "demo_request_to_json rq = Inr b \<Longrightarrow> demo_request_of_json b = Inr rq"
  by (cases rq rule: demo_request_to_json.cases) (auto simp: demo_request_of_json_def)

lemma demo_response_inverse: "demo_response_to_json rs = Inr b \<Longrightarrow> demo_response_of_json b = Inr rs"
  by (cases rs rule: demo_response_to_json.cases) (auto simp: demo_response_of_json_def split: if_splits)

lemma one_to_json_Inr: "one_to_json x v = Inr b \<longleftrightarrow> v = x \<and> b = [7]"
  by (auto simp: one_to_json_def)

lemma demo_libs_ok: "libs_ok demo_libs"
  unfolding libs_ok_def
  by (simp add: demo_libs_def demo_request_inverse demo_response_inverse one_to_json_Inr demo_public_def)

section \<open>Platforms\<close>

record demo =
  d_objects :: "string \<times> string \<rightharpoonup> bytes"
  d_fds :: "int list"

definition demo_fresh :: "demo \<Rightarrow> int" where
  "demo_fresh w = 1 + sum_list (map abs (d_fds w))"

definition demo_data_key :: bytes where
  "demo_data_key = replicate 16 5"

definition demo_wrapped :: "demo \<Rightarrow> string \<times> bytes \<rightharpoonup> bytes" where
  "demo_wrapped w = (\<lambda>(arn, e). if e = [0] then Some demo_data_key else None)"

definition demo_412 :: put_service_error where
  "demo_412 = \<lparr>http_status = 412, error_code = None, error_message = None\<rparr>"

definition demo_platform :: "demo main_platform" where
  "demo_platform =
     \<lparr>crates = demo_libs, linux = True, nitro_enclave = False,
      tcp_connect = (\<lambda>a w. (Inr 1, w)),
      tcp_bind = (\<lambda>a w. (Inr 2, w)),
      tcp_accept = (\<lambda>h w. (Inr 3, w)),
      sys_socket = (\<lambda>d ty pr w. (demo_fresh w, w\<lparr>d_fds := demo_fresh w # d_fds w\<rparr>)),
      sys_connect = (\<lambda>fd a n w. (if svm_cid a = 3 then 0 else - 1, w)),
      sys_bind = (\<lambda>fd a n w. (0, w)),
      sys_listen = (\<lambda>fd b w. (0, w)),
      sys_accept = (\<lambda>fd a n w. ((7, a\<lparr>svm_cid := 16\<rparr>), w)),
      sys_close = (\<lambda>fd w. ((), w\<lparr>d_fds := removeAll fd (d_fds w)\<rparr>)),
      last_os_error = (\<lambda>w. ''os error''),
      exchange = (\<lambda>st bs w. (Inl ''closed'', w)),
      stream_input = (\<lambda>st w. (([], ''EOF''), w)),
      stream_output = (\<lambda>st bs w. ((), w)),
      load_default_provider = (\<lambda>w. (Some Default_Provider, w)),
      s3_get = (\<lambda>b k w.
        (case d_objects w (b, k) of
           Some body \<Rightarrow> Inr (Inr body)
         | None \<Rightarrow> Inl (Service_Error \<lparr>no_such_key = True, get_error_text = []\<rparr>), w)),
      s3_put = (\<lambda>rq w.
        if if_none_match rq = Some ''*'' \<and> d_objects w (put_bucket rq, put_key rq) \<noteq> None
        then (Inl (Service_Error demo_412), w)
        else (Inr (), w\<lparr>d_objects := (d_objects w)((put_bucket rq, put_key rq) \<mapsto> put_body rq)\<rparr>)),
      provide_credentials = (\<lambda>p w. (Inr \<lparr>sdk_access_key_id = ''A'', sdk_secret_access_key = ''S'',
        sdk_session_token = None, sdk_expiry = None\<rparr>, w)),
      build_runtime = (\<lambda>w. (Inr (), w)),
      kms_generate = (\<lambda>c rq w. (Inr \<lparr>output_plaintext = Some demo_data_key,
        output_ciphertext = Some [0], output_key_id = None\<rparr>, w)),
      kms_decrypt = (\<lambda>c rq w.
        (if sdk_ciphertext rq = Some [0] then Inr (Some demo_data_key) else Inl ''InvalidCiphertext'', w)),
      nkms_generate = (\<lambda>c k n w. (\<lparr>native_rc = 1, native_plaintext = \<lparr>buffer_data = None, buffer_len = 0\<rparr>,
        native_ciphertext = \<lparr>buffer_data = None, buffer_len = 0\<rparr>, native_error_text = []\<rparr>, w)),
      nkms_decrypt = (\<lambda>c e x w. (\<lparr>native_rc = 1, native_plaintext = \<lparr>buffer_data = None, buffer_len = 0\<rparr>,
        native_ciphertext = \<lparr>buffer_data = None, buffer_len = 0\<rparr>, native_error_text = []\<rparr>, w)),
      random_bytes = (\<lambda>n w. (replicate n 1, w)),
      dotenv_path = (\<lambda>path env. (Inr (), env)),
      dotenv_search = (\<lambda>env. (Inr (), env)),
      is_file = (\<lambda>path. False),
      parse_socket_addr = Inr,
      rpc_connect_uri = (\<lambda>u w. (Inr 4, w)),
      rpc_connect_vsock = (\<lambda>c p w. (Inr 4, w)),
      rpc_hello = (\<lambda>c w. (Inr hello_message, w)),
      rpc_serve_addr = (\<lambda>a w. (Inr (), w)),
      rpc_bind_vsock = (\<lambda>c p w. (Inr 5, w)),
      rpc_serve_vsock = (\<lambda>h w. (Inr (), w))\<rparr>"

definition demo_providers :: providers where
  "demo_providers = [(Primary, Some Default_Provider), (Backup, Some Default_Provider)]"

text \<open>The byte stream of the enclave: the broker's closure on the bytes sent.\<close>

definition demo_exchange :: "startup_mode \<Rightarrow> stream \<Rightarrow> bytes \<Rightarrow> demo \<Rightarrow> (string + bytes \<times> string) \<times> demo" where
  "demo_exchange m st bs w =
     (case answer demo_platform (demo_settings m) demo_providers None None (bs, ''EOF'')
             \<lparr>world = w, trace = []\<rparr> of
        (Inl _, u) \<Rightarrow> (Inl ''closed'', world u)
      | (Inr resp, u) \<Rightarrow>
          (case write_json_frame demo_response_to_json resp of
             Inl _ \<Rightarrow> (Inr ([], ''EOF''), world u)
           | Inr full \<Rightarrow> (Inr (full, ''EOF''), world u)))"

definition demo_enclave :: "startup_mode \<Rightarrow> demo main_platform" where
  "demo_enclave m = demo_platform\<lparr>exchange := demo_exchange m\<rparr>"

lemma demo_crates [simp]:
  "crates demo_platform = demo_libs" "crates (demo_enclave m) = demo_libs"
  by (simp_all add: demo_platform_def demo_enclave_def)

section \<open>The documented laws hold\<close>

lemma demo_s3_documented: "s3_documented demo_platform d_objects"
  by (auto simp: s3_documented_def demo_platform_def map_le_def split: option.splits if_splits)

lemma demo_fds_ok: "fds_ok demo_platform (\<lambda>w. set (d_fds w))"
proof -
  have nonneg: "0 \<le> sum_list (map abs xs)" for xs :: "int list"
    by (rule sum_list_nonneg) auto
  have le: "x \<le> sum_list (map abs xs)" if "x \<in> set xs" for x and xs :: "int list"
    using that
  proof (induction xs)
    case (Cons y ys)
    then have "x = y \<or> x \<le> sum_list (map abs ys)" by auto
    then show ?case using nonneg [of ys] abs_ge_self [of y] abs_ge_zero [of y] by simp linarith
  qed simp
  have "demo_fresh w \<notin> set (d_fds w)" for w
    using le [of "demo_fresh w" "d_fds w"] by (auto simp: demo_fresh_def)
  moreover have "\<not> demo_fresh w < 0" for w
    using nonneg [of "d_fds w"] by (simp add: demo_fresh_def)
  ultimately show ?thesis
    by (auto simp: fds_ok_def demo_platform_def)
qed

lemma moves_answer:
  assumes "s3_documented Q objects" and "\<And>w. R w (snd (build_runtime Q w))"
    and "\<And>p w. R w (snd (provide_credentials Q p w))" and R: "R = grows objects"
  shows "moves R (answer Q ps provs allowed peer input)"
proof -
  have pre: "preorder_on_worlds R" by (simp add: R)
  have "moves R (load_s3_object Q b k)" "moves R (save_s3_object_if_absent Q b k body)" for b k body
    using s3_store.load_grows [OF assms(1)] s3_store.save_grows [OF assms(1)]
    by (auto simp: moves_def R grows_def)
  then have "moves R (handle_request Q ps provs rq)" for rq
    unfolding handle_request_def using assms(3)
    by (cases rq) (auto intro!: moves_intros simp: pre)
  then show ?thesis
    unfolding answer_def using assms(2)
    by (auto intro!: moves_intros simp: pre split: sum.split prod.split)
qed

lemma demo_exchange_grows: "grows d_objects w (snd (demo_exchange m st bs w))"
proof -
  have "moves (grows d_objects) (answer demo_platform (demo_settings m) demo_providers None None (bs, ''EOF''))"
    by (rule moves_answer [OF demo_s3_documented]) (simp_all add: demo_platform_def)
  from movesD [OF this, of "\<lparr>world = w, trace = []\<rparr>"] show ?thesis
    by (auto simp: demo_exchange_def split: prod.splits sum.splits)
qed

lemma demo_calls_keep: "calls_keep (demo_enclave m) (grows d_objects)"
  unfolding calls_keep_def
  using demo_exchange_grows
  by (simp add: demo_enclave_def demo_platform_def) (simp add: grows_def)

lemma demo_kms_documented: "kms_documented (demo_enclave m) demo_wrapped"
  unfolding kms_documented_def calls_keep_def
  by (auto simp: demo_enclave_def demo_platform_def demo_wrapped_def grows_def split: if_splits)

lemma demo_serves:
  "serves (demo_enclave m) demo_platform (demo_settings m) demo_providers None None d_objects d_objects"
  unfolding serves_def
proof (intro conjI allI impI)
  fix st bs w input fin w'
  assume "exchange (demo_enclave m) st bs w = (Inr (input, fin), w')"
  then have run: "demo_exchange m st bs w = (Inr (input, fin), w')"
    by (simp add: demo_enclave_def)
  obtain r u where ans: "answer demo_platform (demo_settings m) demo_providers None None (bs, ''EOF'')
      \<lparr>world = w, trace = []\<rparr> = (r, u)" by force
  show "input = [] \<or> (\<exists>u u' resp full fin'.
      answer demo_platform (demo_settings m) demo_providers None None (bs, fin') u = (Inr resp, u')
      \<and> write_json_frame (response_to_json (crates demo_platform)) resp = Inr full
      \<and> prefix input full \<and> d_objects w \<subseteq>\<^sub>m d_objects (world u) \<and> d_objects (world u') \<subseteq>\<^sub>m d_objects w')"
  proof (cases "input = []")
    case False
    with run ans obtain resp where r: "r = Inr resp" and w': "w' = world u"
      and full: "write_json_frame demo_response_to_json resp = Inr input"
      by (auto simp: demo_exchange_def split: sum.splits)
    show ?thesis
      using ans r w' full
      by (intro disjI2 exI [of _ "\<lparr>world = w, trace = []\<rparr>"] exI [of _ u] exI [of _ resp] exI [of _ input]
          exI [of _ "''EOF''"]) (simp add: demo_libs_def)
  qed simp
qed simp

lemma demo_linked:
  "linked (demo_enclave m) demo_platform (demo_settings m) demo_providers None None d_objects d_objects
     demo_wrapped"
  unfolding linked_def
  using demo_libs_ok demo_serves demo_s3_documented demo_calls_keep demo_kms_documented
  by (simp add: demo_enclave_def) (simp add: demo_platform_def)

section \<open>Requests of the demo enclave\<close>

definition demo_endpoint :: endpoint where
  "demo_endpoint = Tcp ''broker:7001''"

text \<open>The trace of one request.\<close>

definition sent :: "broker_request \<Rightarrow> event list" where
  "sent rq = [Tcp_Connect ''broker:7001'', Send demo_endpoint rq]"

lemma demo_answered:
  assumes rq: "demo_request_to_json rq = Inr pl" "length pl \<le> 1048576"
    and ans: "\<And>input rest. read_json_frame (request_of_json (crates demo_platform)) input = Inr (rq, rest) \<Longrightarrow>
      answer demo_platform (demo_settings m) demo_providers None None input \<lparr>world = world s, trace = []\<rparr> = (Inr resp, u)"
    and resp: "demo_response_to_json resp = Inr rp" "length rp \<le> 1048576" "\<And>msg. resp \<noteq> Error msg"
  shows "request_broker (demo_enclave m) demo_endpoint rq s =
    (Inr resp, \<lparr>world = world u, trace = trace s @ sent rq\<rparr>)"
proof -
  have frame: "write_json_frame (request_to_json demo_libs) rq = Inr (to_be_bytes (word_of_nat (length pl)) @ pl)"
    using rq by (simp add: demo_libs_def write_json_frame_Inr max_json_frame_length_def)
  have rframe: "write_json_frame demo_response_to_json resp = Inr (to_be_bytes (word_of_nat (length rp)) @ rp)"
    using resp by (simp add: write_json_frame_Inr max_json_frame_length_def)
  have read: "read_json_frame (request_of_json (crates demo_platform))
      (to_be_bytes (word_of_nat (length pl)) @ pl, ''EOF'') = Inr (rq, ([], ''EOF''))"
    using read_written_frame [OF frame, of demo_request_of_json "[]" "''EOF''"] demo_request_inverse
    by (simp add: demo_libs_def)
  have rread: "read_json_frame (response_of_json demo_libs)
      (to_be_bytes (word_of_nat (length rp)) @ rp, ''EOF'') = Inr (resp, ([], ''EOF''))"
    using read_written_frame [OF rframe, of demo_response_of_json "[]" "''EOF''"] demo_response_inverse
    by (simp add: demo_libs_def)
  from ans [OF read] have "exchange (demo_enclave m) (Tcp_Stream 1) (to_be_bytes (word_of_nat (length pl)) @ pl) (world s)
      = (Inr (to_be_bytes (word_of_nat (length rp)) @ rp, ''EOF''), world u)"
    by (simp add: demo_enclave_def demo_exchange_def rframe)
  then show ?thesis
    using resp(3) by (simp add: request_broker_def connect_endpoint_def demo_endpoint_def io_simps frame rread
        sent_def demo_enclave_def demo_platform_def split: broker_response.split)
qed

lemma demo_request:
  assumes rq: "demo_request_to_json rq = Inr pl" "length pl \<le> 1048576"
    and ans: "handle_request demo_platform (demo_settings m) demo_providers rq
      \<lparr>world = world s, trace = [Build_Runtime]\<rparr> = (Inr resp, u)" "rq \<noteq> GetSettings"
    and resp: "demo_response_to_json resp = Inr rp" "length rp \<le> 1048576" "\<And>msg. resp \<noteq> Error msg"
  shows "request_broker (demo_enclave m) demo_endpoint rq s =
    (Inr resp, \<lparr>world = world u, trace = trace s @ sent rq\<rparr>)"
proof (rule demo_answered [OF rq _ resp])
  fix input rest
  assume "read_json_frame (request_of_json (crates demo_platform)) input = Inr (rq, rest)"
  from answer_read [OF this] show "answer demo_platform (demo_settings m) demo_providers None None input
      \<lparr>world = world s, trace = []\<rparr> = (Inr resp, u)"
    using ans by (simp add: io_simps attemptM_def demo_platform_def)
qed

lemma demo_get_settings:
  "request_broker_settings (demo_enclave Serve) demo_endpoint s =
    (Inr (demo_settings Serve), s\<lparr>trace := trace s @ sent GetSettings\<rparr>)"
proof -
  have "request_broker (demo_enclave Serve) demo_endpoint GetSettings s =
    (Inr (Settings (demo_settings Serve)), \<lparr>world = world \<lparr>world = world s, trace = []\<rparr>, trace = trace s @ sent GetSettings\<rparr>)"
    by (rule demo_answered [where pl = "[0]" and rp = "[6]"]) (simp_all add: answer_read)
  then show ?thesis
    by (simp add: request_broker_settings_def io_simps)
qed

lemma length_as_bytes [simp]: "length (as_bytes s) = length s"
  by (simp add: as_bytes_def)

lemma length_put_bytes [simp]: "length (put_bytes bs) = 2 * length bs + 1"
  by (induction bs) (simp_all add: put_bytes_def)

lemma demo_load:
  assumes "starts_with ''p/'' k" and "length k \<le> 1000"
    and "\<And>body. d_objects (world s) (''b'', k) = Some body \<Longrightarrow> length body \<le> 1000"
  shows "load_object (demo_enclave m) demo_endpoint ''b'' k s =
    (Inr (d_objects (world s) (''b'', k)), s\<lparr>trace := trace s @ sent (LoadObject ''b'' k)\<rparr>)"
proof -
  let ?body = "d_objects (world s) (''b'', k)"
  have handled: "\<exists>tr. handle_request demo_platform (demo_settings m) demo_providers (LoadObject ''b'' k)
      \<lparr>world = world s, trace = [Build_Runtime]\<rparr> = (Inr (Object ?body), \<lparr>world = world s, trace = tr\<rparr>)"
    using assms(1) by (cases ?body) (simp_all add: handle_request_def validate_s3_target_def demo_settings_def
      io_simps load_s3_object_def s3_operation_max_attempts_def upt_conv_Cons demo_platform_def)
  then obtain tr where h: "handle_request demo_platform (demo_settings m) demo_providers (LoadObject ''b'' k)
      \<lparr>world = world s, trace = [Build_Runtime]\<rparr> = (Inr (Object ?body), \<lparr>world = world s, trace = tr\<rparr>)" by blast
  obtain rp where rp: "demo_response_to_json (Object ?body) = Inr rp" "length rp \<le> 1001"
    using assms(3) by (cases ?body) auto
  from demo_request [OF _ _ h _ rp(1)] rp(2) assms(2) show ?thesis
    by (simp add: load_object_def io_simps)
qed

lemma demo_save:
  assumes "starts_with ''p/'' k" and "length k \<le> 1000" and "length body \<le> 1000"
    and "d_objects (world s) (''b'', k) = None"
  shows "save_object_if_absent (demo_enclave InitKey) demo_endpoint ''b'' k body s =
    (Inr (), \<lparr>world = (world s)\<lparr>d_objects := (d_objects (world s))((''b'', k) \<mapsto> body)\<rparr>,
              trace = trace s @ sent (SaveObjectIfAbsent ''b'' k body)\<rparr>)"
proof -
  have "\<exists>tr. handle_request demo_platform (demo_settings InitKey) demo_providers (SaveObjectIfAbsent ''b'' k body)
      \<lparr>world = world s, trace = [Build_Runtime]\<rparr> =
    (Inr Saved, \<lparr>world = (world s)\<lparr>d_objects := (d_objects (world s))((''b'', k) \<mapsto> body)\<rparr>, trace = tr\<rparr>)"
    using assms by (simp add: handle_request_def validate_s3_target_def demo_settings_def
      io_simps save_s3_object_if_absent_def s3_operation_max_attempts_def upt_conv_Cons demo_platform_def)
  then obtain tr where h: "handle_request demo_platform (demo_settings InitKey) demo_providers
      (SaveObjectIfAbsent ''b'' k body) \<lparr>world = world s, trace = [Build_Runtime]\<rparr> =
    (Inr Saved, \<lparr>world = (world s)\<lparr>d_objects := (d_objects (world s))((''b'', k) \<mapsto> body)\<rparr>, trace = tr\<rparr>)"
    by blast
  from demo_request [OF _ _ h] assms show ?thesis
    by (simp add: save_object_if_absent_def io_simps)
qed

lemma demo_get_credentials:
  "request_broker_credentials (demo_enclave m) demo_endpoint sl s =
    (Inr demo_credentials, s\<lparr>trace := trace s @ sent (GetAwsCredentials sl)\<rparr>)"
proof -
  have h: "handle_request demo_platform (demo_settings m) demo_providers (GetAwsCredentials sl)
      \<lparr>world = world s, trace = [Build_Runtime]\<rparr> =
    (Inr (AwsCredentials demo_credentials), \<lparr>world = world s, trace = [Build_Runtime, Load_Credentials sl]\<rparr>)"
    by (cases sl) (simp_all add: handle_request_def find_credentials_provider_def demo_settings_def
      demo_providers_def demo_credentials_def io_simps demo_platform_def epoch_seconds_def)
  obtain pl where "demo_request_to_json (GetAwsCredentials sl) = Inr pl" "length pl \<le> 1"
    by (cases sl) auto
  with demo_request [OF _ _ h] show ?thesis
    by (simp add: request_broker_credentials_def io_simps)
qed

text \<open>Runs that succeed, by what they do to the world.\<close>

definition yields :: "('w, 'a) io \<Rightarrow> 'w \<Rightarrow> 'a \<Rightarrow> 'w \<Rightarrow> bool" where
  "yields m w x w' \<longleftrightarrow>
     (\<forall>tr. \<exists>tr'. m \<lparr>world = w, trace = tr\<rparr> = (Inr x, \<lparr>world = w', trace = tr'\<rparr>))"

lemma yields_bindM: "yields m w x v \<Longrightarrow> yields (k x) v y w' \<Longrightarrow> yields (bindM m k) w y w'"
  unfolding yields_def bindM_def by (metis (mono_tags, lifting) case_prod_conv sum.case(2))

lemma yields_returnM: "yields (returnM x) w x w"
  by (simp add: yields_def)

lemma yields_emitM: "yields (emitM ev) w () w"
  by (simp add: yields_def)

lemma yields_liftM: "r = Inr x \<Longrightarrow> yields (liftM r) w x w"
  by (simp add: yields_def)

lemma yields_callM: "f w = (x, w') \<Longrightarrow> yields (callM ev f) w x w'"
  by (simp add: yields_def callM_def)

lemma yieldsD:
  "yields m (world s) x w' \<Longrightarrow> \<exists>tr'. m s = (Inr x, \<lparr>world = w', trace = tr'\<rparr>)"
  unfolding yields_def by (metis (full_types) old.unit.exhaust sys.surjective)

lemma yields_generate:
  assumes "slot key = sl" and "key_arn key = arn"
  shows "yields (generate_data_key (demo_enclave m) (Local demo_endpoint) (demo_settings m') key) w
    \<lparr>plaintext_data_key = demo_data_key, encrypted_data_key = [0], generated_key_id = arn\<rparr> w"
  unfolding generate_data_key_def kms_client.case call_generate_data_key_def Let_def
  by (rule yields_bindM, simp add: yields_def demo_get_credentials,
      rule yields_bindM, rule yields_liftM,
      simp add: kms_request_settings_def parse_key_spec_def demo_settings_def,
      rule yields_bindM, rule yields_callM, simp add: demo_enclave_def demo_platform_def)
    (simp add: yields_def io_simps assms)

lemma yields_decrypt:
  "yields (decrypt_data_key (demo_enclave m) (Local demo_endpoint) (demo_settings m') key [0]) w
     demo_data_key w"
  unfolding decrypt_data_key_def kms_client.case call_decrypt_data_key_def Let_def
  by (rule yields_bindM, simp add: yields_def demo_get_credentials,
      rule yields_bindM, rule yields_liftM,
      simp add: kms_request_settings_def parse_key_spec_def demo_settings_def,
      rule yields_bindM, rule yields_callM, simp add: demo_enclave_def demo_platform_def decrypt_request_eq)
    (simp add: yields_def io_simps)

lemma yields_load:
  assumes "starts_with ''p/'' k" and "length k \<le> 1000"
    and "\<And>body. d_objects w (''b'', k) = Some body \<Longrightarrow> length body \<le> 1000"
  shows "yields (load_object (demo_enclave m) demo_endpoint ''b'' k) w (d_objects w (''b'', k)) w"
  unfolding yields_def
  using demo_load [OF assms(1,2), of "\<lparr>world = w, trace = tr\<rparr>" m for tr] assms(3) by simp

lemma yields_save:
  assumes "starts_with ''p/'' k" and "length k \<le> 1000" and "length body \<le> 1000"
    and "d_objects w (''b'', k) = None"
  shows "yields (save_object_if_absent (demo_enclave InitKey) demo_endpoint ''b'' k body) w ()
    (w\<lparr>d_objects := (d_objects w)((''b'', k) \<mapsto> body)\<rparr>)"
  unfolding yields_def
  using demo_save [OF assms(1-3), of "\<lparr>world = w, trace = tr\<rparr>" for tr] assms(4) by simp

lemma yields_restore_from_package:
  "yields (restore_from_package (demo_enclave m) (Local demo_endpoint) (demo_settings m') key demo_package
     demo_public) w () w"
  unfolding yields_def
proof
  fix tr
  obtain tr' where dec: "decrypt_data_key (demo_enclave m) (Local demo_endpoint) (demo_settings m') key [0]
      \<lparr>world = w, trace = tr\<rparr> = (Inr demo_data_key, \<lparr>world = w, trace = tr'\<rparr>)"
    using yields_decrypt [of m m' key w, unfolded yields_def] by metis
  have "opens demo_libs demo_package demo_data_key demo_public"
    by (simp add: opens_def demo_libs_def demo_package_def demo_data_key_def decrypt_private_key_def
        aes_gcm_nonce_length_def ed25519_private_key_length_def)
  moreover have "base64_decode demo_libs (encrypted_data_key_base64 demo_package) = Inr [0]"
    by (simp add: demo_libs_def demo_package_def)
  ultimately have "restore_from_package (demo_enclave m) (Local demo_endpoint) (demo_settings m')
      key demo_package demo_public \<lparr>world = w, trace = tr\<rparr> = (Inr (), \<lparr>world = w, trace = tr'\<rparr>)"
    using dec by (auto simp: restore_from_package_Inr)
  then show "\<exists>tr'. restore_from_package (demo_enclave m) (Local demo_endpoint) (demo_settings m')
      key demo_package demo_public \<lparr>world = w, trace = tr\<rparr> = (Inr (), \<lparr>world = w, trace = tr'\<rparr>)" ..
qed

text \<open>One round of the loop over the keys.\<close>

lemma demo_names:
  "starts_with ''p/'' (demo_package_key sl)" "length (demo_package_key sl) \<le> 1000"
  "starts_with ''p/'' demo_public_key" "length demo_public_key \<le> 1000"
  "starts_with ''p/'' (manifest_key (demo_settings m))" "length (manifest_key (demo_settings m)) \<le> 1000"
  by (simp_all add: demo_package_key_def demo_public_key_def package_name_def join_key_def starts_with_iff
      demo_zeros_def manifest_key_def manifest_file_name_def demo_settings_def)
    (cases sl; simp add: numeral_eq_Suc)

definition put :: "string \<Rightarrow> demo \<Rightarrow> demo" where
  "put k w = w\<lparr>d_objects := (d_objects w)((''b'', k) \<mapsto> [7])\<rparr>"

lemma put_objects [simp]:
  "d_objects (put k w) (b, k') = (if b = ''b'' \<and> k' = k then Some [7] else d_objects w (b, k'))"
  by (simp add: put_def)

lemma yields_verify:
  assumes "starts_with ''p/'' k" "length k \<le> 1000" and "d_objects w (''b'', k) = Some [7]"
  shows "yields (verify_uploaded_object (demo_enclave m) demo_endpoint ''b'' k demo_zeros) w () w"
  unfolding verify_uploaded_object_def
  by (rule yields_bindM [OF yields_load [OF assms(1,2)]], simp add: assms(3), rule yields_bindM, rule yields_liftM)
    (simp_all add: assms(3), rule yields_liftM,
      simp add: verify_sha256_def sha256_hex_def demo_libs_def demo_zeros_def)

lemma demo_storage_id:
  "kms_key_storage_id demo_libs (demo_arn sl) = Inr (label sl @ ''-'' @ take 12 demo_zeros)"
  "kms_key_display_id (demo_arn sl) = Inr (label sl)"
proof -
  show d: "kms_key_display_id (demo_arn sl) = Inr (label sl)"
  proof (cases sl)
    case Primary
    show ?thesis unfolding Primary by code_simp
  next
    case Backup
    show ?thesis unfolding Backup by code_simp
  qed
  show "kms_key_storage_id demo_libs (demo_arn sl) = Inr (label sl @ ''-'' @ take 12 demo_zeros)"
    by (simp add: kms_key_storage_id_def d slice_to_def sha256_hex_def demo_libs_def demo_zeros_def)
qed

lemma yields_initialize_key:
  assumes key: "key = \<lparr>slot = sl, key_arn = demo_arn sl, key_region = ''r''\<rparr>"
    and w: "d_objects w (''b'', demo_package_key sl) = None"
  shows "yields (initialize_key (demo_enclave InitKey) demo_endpoint (Local demo_endpoint) (demo_settings m)
      (replicate 32 1) demo_public key) w
    \<lparr>recovery_kms_key_arn = demo_arn sl, recovery_object_key = demo_package_key sl, recovery_sha256 = demo_zeros\<rparr>
    (put (demo_package_key sl) w)"
proof -
  have bucket: "s3_bucket (demo_settings m) = ''b''" "s3_prefix (demo_settings m) = ''p''"
    by (simp_all add: demo_settings_def)
  have pkg: "\<lparr>package_version = key_material_version, encrypted_data_key_base64 = base64_encode demo_libs [0],
      private_key_nonce_base64 = base64_encode demo_libs (replicate 12 1),
      encrypted_private_key_base64 = base64_encode demo_libs (replicate 32 1)\<rparr> = demo_package"
    by (simp add: demo_package_def demo_libs_def)
  have zeros: "sha256_hex demo_libs x = demo_zeros" for x
    by (simp add: sha256_hex_def demo_libs_def demo_zeros_def)
  show ?thesis
    unfolding initialize_key_def Let_def
    apply (rule yields_bindM [OF yields_emitM])
    apply (rule yields_bindM [OF yields_generate [OF refl refl]])
    apply (simp only: generated_data_key.select_convs simp_thms if_False)
    apply (rule yields_bindM, rule yields_liftM, simp add: validate_data_key_len_def demo_data_key_def)
    apply (rule yields_bindM, rule yields_callM [of _ _ "replicate 12 1"],
        simp add: demo_enclave_def demo_platform_def aes_gcm_nonce_length_def)
    apply (rule yields_bindM, rule yields_liftM [of _ "replicate 32 1"],
        simp add: encrypt_private_key_def demo_data_key_def demo_libs_def)
    apply (simp only: demo_crates pkg zeros)
    apply (rule yields_bindM, rule yields_liftM [of _ "[7]"], simp add: demo_libs_def one_to_json_def)
    apply (rule yields_bindM, rule yields_liftM, simp only: key kms_key_settings.select_convs, rule demo_storage_id)
    apply (rule yields_bindM, rule yields_liftM, simp only: key kms_key_settings.select_convs, rule demo_storage_id)
    apply (simp only: zeros bucket demo_package_key_def [symmetric])
    apply (rule yields_bindM, rule yields_save [OF demo_names(1,2) _ w], simp)
    apply (simp only: put_def [symmetric])
    apply (rule yields_bindM, rule yields_verify [OF demo_names(1,2)], simp)
    apply (rule yields_bindM [OF yields_restore_from_package])
    by (simp add: key yields_returnM)
qed

section \<open>A complete initialisation\<close>

definition demo_empty :: demo where
  "demo_empty = \<lparr>d_objects = Map.empty, d_fds = []\<rparr>"

definition demo_committed :: demo where
  "demo_committed =
     put (manifest_key (demo_settings InitKey)) (put demo_public_key
       (put (demo_package_key Backup) (put (demo_package_key Primary) demo_empty)))"

definition demo_key_pair :: restored_key_pair where
  "demo_key_pair = \<lparr>public_key = demo_public, fingerprint = demo_zeros, restored_kms_key_arn = []\<rparr>"

lemma demo_keys_distinct:
  "demo_package_key Primary \<noteq> demo_package_key Backup"
  "demo_public_key \<noteq> demo_package_key sl"
  "manifest_key (demo_settings m) \<noteq> demo_package_key sl"
  "manifest_key (demo_settings m) \<noteq> demo_public_key"
  by (simp_all add: demo_package_key_def demo_public_key_def manifest_key_def package_name_def
      join_key_def manifest_file_name_def demo_settings_def)

lemma demo_initialization:
  "yields (initialize_key_material (demo_enclave InitKey) demo_endpoint (Local demo_endpoint)
     (demo_settings InitKey)) demo_empty demo_key_pair demo_committed"
proof -
  have settings: "s3_bucket (demo_settings InitKey) = ''b''" "s3_prefix (demo_settings InitKey) = ''p''"
    "kms_keys (demo_settings InitKey) = [\<lparr>slot = Primary, key_arn = demo_arn Primary, key_region = ''r''\<rparr>,
       \<lparr>slot = Backup, key_arn = demo_arn Backup, key_region = ''r''\<rparr>]"
    by (simp_all add: demo_settings_def)
  have key: "join_key ''p'' manifest_file_name = manifest_key (demo_settings InitKey)"
    by (simp add: manifest_key_def demo_settings_def)
  have zeros: "sha256_hex demo_libs x = demo_zeros" for x
    by (simp add: sha256_hex_def demo_libs_def demo_zeros_def)
  have libs: "verifying_key demo_libs x = demo_public" "base64_encode demo_libs = of_bytes" for x
    by (simp_all add: demo_libs_def)
  have empty: "d_objects demo_empty = Map.empty"
    by (simp add: demo_empty_def)
  show ?thesis
    unfolding initialize_key_material_def Let_def demo_crates zeros libs settings key
      demo_public_key_def [symmetric]
    apply (rule yields_bindM [OF yields_emitM])
    apply (rule yields_bindM, rule yields_load [OF demo_names(5,6)], simp add: empty)
    apply (simp only: empty simp_thms if_False)
    apply (rule yields_bindM, rule yields_callM [of _ _ "replicate 32 1"],
        simp add: demo_enclave_def demo_platform_def ed25519_private_key_length_def)
    apply (rule yields_bindM, rule yields_liftM [of _ "[7]"],
        simp add: demo_libs_def one_to_json_def demo_document_def)
    apply (rule yields_bindM)
     apply (simp only: initialize_keys.simps)
     apply (rule yields_bindM, rule yields_initialize_key [OF refl], simp add: empty)
     apply (rule yields_bindM, rule yields_bindM, rule yields_initialize_key [OF refl])
       apply (simp add: empty demo_keys_distinct(1) [symmetric])
      apply (rule yields_bindM [OF yields_returnM yields_returnM], rule yields_returnM)
    apply (rule yields_bindM, rule yields_save [OF demo_names(3,4)], simp)
     apply (simp add: empty demo_keys_distinct)
    apply (simp only: put_def [symmetric])
    apply (rule yields_bindM, rule yields_verify [OF demo_names(3,4)], simp)
    apply (rule yields_bindM, rule yields_liftM [of _ "[7]"],
        simp add: demo_libs_def one_to_json_def demo_manifest_def)
    apply (rule yields_bindM, rule yields_save [OF demo_names(5,6)], simp)
     apply (simp add: empty demo_keys_distinct)
    apply (simp only: put_def [symmetric])
    apply (rule yields_bindM [OF yields_emitM])
    by (simp add: demo_key_pair_def demo_committed_def yields_returnM)
qed

end
