(* ===== verification/Examples.thy ===== *)
theory Examples
  imports Demo
begin

text \<open>
  The properties with hypotheses, applied at the concrete platform of \<^theory_text>\<open>Demo\<close>: each
  theorem here discharges the hypotheses of one property and states what the property then says.
\<close>

section \<open>States\<close>

definition demo_start :: "demo sys" where
  "demo_start = \<lparr>world = demo_empty, trace = []\<rparr>"

lemma demo_start_world [simp]: "world demo_start = demo_empty"
  by (simp add: demo_start_def)

lemma demo_initialized:
  "\<exists>tr. initialize_key_material (demo_enclave InitKey) demo_endpoint (Local demo_endpoint)
     (demo_settings InitKey) demo_start = (Inr demo_key_pair, \<lparr>world = demo_committed, trace = tr\<rparr>)"
  by (rule yieldsD) (simp add: demo_initialization)

lemma demo_two_keys: "length (kms_keys (demo_settings m)) = 2"
  by (simp add: demo_settings_def)

lemma demo_same_place:
  "s3_bucket (demo_settings m) = ''b''" "s3_prefix (demo_settings m) = ''p''"
  "manifest_key (demo_settings m) = join_key ''p'' manifest_file_name"
  by (simp_all add: demo_settings_def manifest_key_def)

definition demo_primary :: kms_key_settings where
  "demo_primary = \<lparr>slot = Primary, key_arn = demo_arn Primary, key_region = ''r''\<rparr>"

lemma demo_primary_configured:
  "demo_primary \<in> set (kms_keys (demo_settings m))"
  "key_arn demo_primary \<in> set (map key_arn (kms_keys (demo_settings m)))"
  by (simp_all add: demo_primary_def demo_settings_def)

lemma demo_committed_objects:
  "d_objects demo_committed x \<noteq> None \<Longrightarrow> d_objects demo_committed x = Some [7] \<and> length (snd x) \<le> 1000"
  using demo_names by (cases x) (auto simp: demo_committed_def demo_empty_def split: if_splits)

lemma demo_loads:
  assumes "d_objects demo_committed (''b'', k) \<noteq> None" and "starts_with ''p/'' k"
    and "d_objects demo_committed \<subseteq>\<^sub>m d_objects (world u)"
  shows "is_ok (fst (load_object (demo_enclave m) demo_endpoint ''b'' k u))"
proof -
  have "d_objects (world u) (''b'', k) = Some [7]" "length k \<le> 1000"
    using demo_committed_objects [OF assms(1)] map_le_Some [OF assms(3)] by auto
  with demo_load [OF assms(2), of u m] show ?thesis by simp
qed

lemma demo_unwraps:
  assumes "demo_wrapped w (arn, e) \<noteq> None"
  shows "is_ok (fst (decrypt_data_key (demo_enclave m) (Local demo_endpoint) (demo_settings m') key e u))"
proof -
  from assms have "e = [0]" by (auto simp: demo_wrapped_def split: if_splits)
  with yieldsD [OF yields_decrypt, of m m' key u] show ?thesis by auto
qed

section \<open>Sockets, frames and S3\<close>

theorem vsock_no_leak_witness:
  "set (d_fds (world (snd (connect_vsock demo_platform 5 8000 demo_start)))) = {}
   \<and> set (d_fds (world (snd (listen_vsock demo_platform 0 7001 demo_start)))) = {1}"
proof -
  have "fst (connect_vsock demo_platform 5 8000 demo_start) = Inl (Err ''os error'')"
    by (simp add: connect_vsock_def io_simps close_with_error_run Let_def)
      (simp add: demo_platform_def demo_fresh_def demo_start_def demo_empty_def sockaddr_def)
  moreover have "fst (listen_vsock demo_platform 0 7001 demo_start) = Inr (Vsock_Listener (Linux 1))"
    by (simp add: listen_vsock_def io_simps Let_def)
      (simp add: demo_platform_def demo_fresh_def demo_empty_def io_simps)
  moreover have "d_fds demo_empty = []" by (simp add: demo_empty_def)
  ultimately show ?thesis
    using vsock_no_leak [OF demo_fds_ok, of 5 8000 demo_start] vsock_no_leak [OF demo_fds_ok, of 0 7001 demo_start]
    by simp
qed

theorem frames_roundtrip_witness:
  "read_frames demo_request_of_json 2
     (concat [to_be_bytes 1 @ [0], to_be_bytes 1 @ [2]] @ [9], ''EOF'') =
   Inr ([GetSettings, GetAwsCredentials Backup], ([9], ''EOF''))"
  using frames_roundtrip [where to_vec = demo_request_to_json and from_slice = demo_request_of_json
      and vs = "[GetSettings, GetAwsCredentials Backup]"
      and bss = "[to_be_bytes 1 @ [0], to_be_bytes 1 @ [2]]" and rest = "[9]" and fin = "''EOF''"]
  by (simp add: demo_request_inverse write_json_frame_Inr max_json_frame_length_def numeral_2_eq_2
      del: read_frames.simps)

theorem conditional_write_once_witness:
  "\<exists>t. save_s3_object_if_absent demo_platform ''b'' ''k'' [1] demo_start = (Inr (), t)
     \<and> d_objects (world t) (''b'', ''k'') = Some [1]"
proof -
  obtain t where run: "save_s3_object_if_absent demo_platform ''b'' ''k'' [1] demo_start = (Inr (), t)"
    by (simp add: save_s3_object_if_absent_def s3_operation_max_attempts_def upt_conv_Cons io_simps
        demo_platform_def demo_empty_def)
  from conditional_write_once [OF demo_s3_documented run] run show ?thesis by simp
qed

text \<open>Two writers race for one object: the second one finds other content.\<close>

definition demo_race :: "s3_operation list" where
  "demo_race = [Save_Op ''b'' ''k'' [1], Save_Op ''b'' ''k'' [2]]"

definition demo_written :: demo where
  "demo_written = demo_empty\<lparr>d_objects := [(''b'', ''k'') \<mapsto> [1]]\<rparr>"

definition demo_race_end :: "demo s3_system" where
  "demo_race_end =
     \<lparr>threads = [(Save_Op ''b'' ''k'' [1], [Put (Inr ())]),
        (Save_Op ''b'' ''k'' [2], [Put (Inl (Service_Error demo_412)), Got (Inr (Inr [1]))])],
      store = demo_written\<rparr>"

lemma demo_race_progress:
  "progress demo_platform (Save_Op b k body) [] = Calling (Put_Call (put_object_if_absent b k body))"
  "progress demo_platform (Save_Op b k body) [Put (Inr ())] = Save_Returned (Inr ())"
  "progress demo_platform (Save_Op b k body) [Put (Inl (Service_Error demo_412))] = Calling (Get_Call b k)"
  "body \<noteq> x \<Longrightarrow>
   progress demo_platform (Save_Op b k body) [Put (Inl (Service_Error demo_412)), Got (Inr (Inr x))]
     = Save_Returned (Inl (put_refused b k))"
proof -
  note view = progress_view [of "Save_Op b k body" _ _ demo_platform]
  show "progress demo_platform (Save_Op b k body) [] = Calling (Put_Call (put_object_if_absent b k body))"
    using view [of "[]" "Writing 1"] by simp
  show "progress demo_platform (Save_Op b k body) [Put (Inr ())] = Save_Returned (Inr ())"
    using view [of "[Put (Inr ())]" Stored] by (simp add: after_put_def)
  show "progress demo_platform (Save_Op b k body) [Put (Inl (Service_Error demo_412))] = Calling (Get_Call b k)"
    using view [of "[Put (Inl (Service_Error demo_412))]" "Reading 1"]
    by (simp add: after_put_def demo_412_def)
  show "progress demo_platform (Save_Op b k body) [Put (Inl (Service_Error demo_412)), Got (Inr (Inr x))]
      = Save_Returned (Inl (put_refused b k))" if "body \<noteq> x"
    using view [of "[Put (Inl (Service_Error demo_412)), Got (Inr (Inr x))]" "Failed (put_refused b k)"] that
    by (simp add: after_put_def after_get_def demo_412_def)
qed

lemma demo_race_run: "s3_system_run demo_platform 3 (launched demo_race demo_empty) demo_race_end"
proof -
  let ?a = "Save_Op ''b'' ''k'' [1]" and ?b = "Save_Op ''b'' ''k'' [2]"
  let ?c1 = "\<lparr>threads = [(?a, [Put (Inr ())]), (?b, [])], store = demo_written\<rparr>"
  let ?c2 = "\<lparr>threads = [(?a, [Put (Inr ())]), (?b, [Put (Inl (Service_Error demo_412))])], store = demo_written\<rparr>"
  have calls:
    "perform demo_platform (Put_Call (put_object_if_absent ''b'' ''k'' [1])) demo_empty = (Put (Inr ()), demo_written)"
    "perform demo_platform (Put_Call (put_object_if_absent ''b'' ''k'' [2])) demo_written
       = (Put (Inl (Service_Error demo_412)), demo_written)"
    "perform demo_platform (Get_Call ''b'' ''k'') demo_written = (Got (Inr (Inr [1])), demo_written)"
    by (simp_all add: demo_platform_def demo_written_def demo_empty_def)
  have 1: "s3_system_step demo_platform (launched demo_race demo_empty) ?c1"
    using s3_system_step.call [of 0 "launched demo_race demo_empty" ?a "[]" demo_platform, OF _ _ demo_race_progress(1)]
      calls(1) by (simp add: launched_def demo_race_def)
  have 2: "s3_system_step demo_platform ?c1 ?c2"
    using s3_system_step.call [of 1 ?c1 ?b "[]" demo_platform, OF _ _ demo_race_progress(1)] calls(2) by simp
  have 3: "s3_system_step demo_platform ?c2 demo_race_end"
    using s3_system_step.call [of 1 ?c2 ?b "[Put (Inl (Service_Error demo_412))]" demo_platform,
        OF _ _ demo_race_progress(3)] calls(3)
    by (simp add: demo_race_end_def)
  show ?thesis
    unfolding numeral_3_eq_3
    by (rule s3_system_run.step [OF s3_system_run.step [OF s3_system_run.step [OF s3_system_run.none 1] 2] 3])
qed

theorem concurrent_s3_operations_consistent_witness:
  "s3_system_run demo_platform 3 (launched demo_race demo_empty) demo_race_end
   \<and> progress demo_platform (Save_Op ''b'' ''k'' [1]) [Put (Inr ())] = Save_Returned (Inr ())
   \<and> progress demo_platform (Save_Op ''b'' ''k'' [2])
       [Put (Inl (Service_Error demo_412)), Got (Inr (Inr [1]))] = Save_Returned (Inl (put_refused ''b'' ''k''))
   \<and> d_objects (store demo_race_end) (''b'', ''k'') = Some [1]"
  using concurrent_s3_operations_consistent [OF demo_s3_documented demo_race_run] demo_race_run
    demo_race_progress(2) [of "''b''" "''k''" "[1]"] demo_race_progress(4) [of "[2]" "[1]" "''b''" "''k''"]
  by (simp add: demo_race_end_def)

theorem concurrent_s3_operations_end_witness:
  "\<exists>c. s3_system_run demo_platform 3 (launched demo_race demo_empty) c
     \<and> 3 \<le> sum_list (map (\<lambda>op. case op of Load_Op b k \<Rightarrow> 4 | Save_Op b k body \<Rightarrow> (8::nat)) demo_race)
     \<and> (\<forall>(op, h) \<in> set (threads c). \<exists>r. progress demo_platform op h = Save_Returned r \<and> \<not> panics r)"
  using concurrent_s3_operations_end [OF demo_race_run] demo_race_run
    demo_race_progress(2) [of "''b''" "''k''" "[1]"] demo_race_progress(4) [of "[2]" "[1]" "''b''" "''k''"]
  by (intro exI [of _ demo_race_end]) (simp add: demo_race_end_def)

section \<open>Cryptography and names\<close>

theorem private_key_roundtrip_witness:
  "decrypt_private_key demo_libs demo_data_key (replicate 12 1) (replicate 32 1) = Inr (replicate 32 1)"
proof -
  have "encrypt_private_key demo_libs demo_data_key (replicate 12 1) (replicate 32 1) = Inr (replicate 32 1)"
    by (simp add: encrypt_private_key_def demo_data_key_def demo_libs_def)
  from private_key_roundtrip [OF demo_libs_ok this] show ?thesis by blast
qed

theorem storage_id_safe_and_distinct_witness:
  "list_all safe_char (''primary-'' @ take 12 demo_zeros)
   \<and> 14 \<le> length (''primary-'' @ take 12 demo_zeros)"
  using storage_id_safe_and_distinct [OF demo_libs_ok demo_storage_id(1) demo_storage_id(1), of Primary]
  by simp

section \<open>The broker\<close>

definition backup_env :: env where
  "backup_env =
     [''KMS_BACKUP_ACCESS_KEY_ID'' \<mapsto> ''B'', ''KMS_BACKUP_SECRET_ACCESS_KEY'' \<mapsto> ''T'']"

lemma backup_credentials:
  "optional_env backup_env ''KMS_PRIMARY_ACCESS_KEY_ID'' = None"
  "optional_env backup_env ''KMS_PRIMARY_SECRET_ACCESS_KEY'' = None"
  "optional_env backup_env ''KMS_BACKUP_ACCESS_KEY_ID'' = Some ''B''"
  "optional_env backup_env ''KMS_BACKUP_SECRET_ACCESS_KEY'' = Some ''T''"
  "optional_env backup_env ''KMS_BACKUP_SESSION_TOKEN'' = None"
proof -
  have "trim ''B'' \<noteq> []" "trim ''T'' \<noteq> []" by code_simp+
  then show "optional_env backup_env ''KMS_PRIMARY_ACCESS_KEY_ID'' = None"
    "optional_env backup_env ''KMS_PRIMARY_SECRET_ACCESS_KEY'' = None"
    "optional_env backup_env ''KMS_BACKUP_ACCESS_KEY_ID'' = Some ''B''"
    "optional_env backup_env ''KMS_BACKUP_SECRET_ACCESS_KEY'' = Some ''T''"
    "optional_env backup_env ''KMS_BACKUP_SESSION_TOKEN'' = None"
    by (simp_all add: optional_env_def backup_env_def)
qed

theorem credentials_of_slot_witness:
  "\<exists>provs s1 t. broker_providers demo_platform backup_env demo_start = (Inr provs, s1)
     \<and> handle_request demo_platform (demo_settings Serve) provs (GetAwsCredentials Backup) s1
         = (Inr (AwsCredentials demo_credentials), t)
     \<and> trace t = trace s1 @ [Load_Credentials Backup]"
proof -
  let ?provs = "[(Primary, Some Default_Provider), (Backup, Some (Static_Provider \<lparr>sdk_access_key_id = ''B'',
    sdk_secret_access_key = ''T'', sdk_session_token = None, sdk_expiry = None\<rparr>))]"
  obtain s1 where provs: "broker_providers demo_platform backup_env demo_start = (Inr ?provs, s1)"
    by (simp add: broker_providers_def explicit_kms_credentials_provider_def backup_credentials io_simps)
      (simp add: demo_platform_def io_simps)
  obtain t where run: "handle_request demo_platform (demo_settings Serve) ?provs
      (GetAwsCredentials Backup) s1 = (Inr (AwsCredentials demo_credentials), t)"
    by (simp add: handle_request_def find_credentials_provider_def demo_settings_def
        demo_credentials_def io_simps demo_platform_def epoch_seconds_def)
  from credentials_of_slot [OF provs run] provs run show ?thesis
    by (fastforce simp: backup_credentials)
qed

definition demo_broker :: "demo broker" where
  "demo_broker = \<lparr>proc = demo_start, pending = [], stopped = None\<rparr>"

definition demo_accepted :: "demo broker" where
  "demo_accepted = demo_broker\<lparr>proc := demo_start\<lparr>trace := [Tcp_Accept 2]\<rparr>,
     pending := [\<lparr>accepted_stream = Tcp_Stream 3, peer_cid = None\<rparr>]\<rparr>"

lemma demo_accepts:
  "broker_run demo_platform (demo_settings Serve) demo_providers None (Tcp_Listener 2) demo_broker demo_accepted"
proof -
  have "listener_accept demo_platform (Tcp_Listener 2) (proc demo_broker) =
      (Inr \<lparr>accepted_stream = Tcp_Stream 3, peer_cid = None\<rparr>, demo_start\<lparr>trace := [Tcp_Accept 2]\<rparr>)"
    by (simp add: listener_accept_def io_simps demo_broker_def demo_start_def demo_platform_def)
  then have "broker_step demo_platform (demo_settings Serve) demo_providers None (Tcp_Listener 2)
      demo_broker (demo_broker\<lparr>proc := demo_start\<lparr>trace := [Tcp_Accept 2]\<rparr>,
        pending := pending demo_broker @ [\<lparr>accepted_stream = Tcp_Stream 3, peer_cid = None\<rparr>]\<rparr>)"
    by (intro broker_step.intros(1)) (simp add: demo_broker_def)
  then show ?thesis
    using broker_run.intros by (fastforce simp: demo_accepted_def demo_broker_def)
qed

theorem broker_s3_confined_witness:
  "list_all (allowed_s3 (demo_settings Serve)) (trace (proc demo_accepted))"
  by (rule broker_s3_confined [OF demo_accepts]) (simp add: demo_broker_def demo_start_def)

theorem request_refines_handler_witness:
  "\<exists>v u. handle_request demo_platform (demo_settings Serve) demo_providers (GetAwsCredentials Primary) v
     = (Inr (AwsCredentials demo_credentials), u)"
proof -
  obtain t where "request_broker (demo_enclave Serve) demo_endpoint (GetAwsCredentials Primary) demo_start
      = (Inr (AwsCredentials demo_credentials), t)"
    using demo_get_credentials [of Serve Primary demo_start]
    by (auto simp: request_broker_credentials_def elim!: bindM_InrE split: broker_response.splits)
  from request_refines_handler [OF demo_linked this] show ?thesis by blast
qed

theorem replies_fit_requests_witness:
  "\<exists>t. request_broker_credentials (demo_enclave Serve) demo_endpoint Primary demo_start = (Inr demo_credentials, t)"
proof -
  obtain t where "request_broker (demo_enclave Serve) demo_endpoint (GetAwsCredentials Primary) demo_start
      = (Inr (AwsCredentials demo_credentials), t)"
    using demo_get_credentials [of Serve Primary demo_start]
    by (auto simp: request_broker_credentials_def elim!: bindM_InrE split: broker_response.splits)
  from replies_fit_requests [OF demo_linked this] show ?thesis by auto
qed

section \<open>Key material\<close>

theorem initialization_order_witness:
  "emits (initialize_key_material (demo_enclave InitKey) demo_endpoint (Local demo_endpoint) (demo_settings InitKey))
    (\<lambda>evs r. \<not> panics r
       \<and> (if is_ok r \<or> list_ex (commits (demo_settings InitKey)) (steps_of evs)
          then init_complete (demo_settings InitKey) (steps_of evs)
          else init_underway (demo_settings InitKey) (steps_of evs)))"
  by (rule initialization_order) (simp add: demo_libs_ok)

text \<open>A serving process over the committed objects.\<close>

definition demo_later :: "demo sys" where
  "demo_later = \<lparr>world = demo_committed, trace = []\<rparr>"

lemma demo_recoverable:
  "recoverable demo_libs (d_objects demo_committed) (demo_wrapped demo_committed) ''b'' ''p''
     (map key_arn (kms_keys (demo_settings InitKey))) demo_public"
proof -
  obtain tr where run: "initialize_key_material (demo_enclave InitKey) demo_endpoint (Local demo_endpoint)
      (demo_settings InitKey) demo_start = (Inr demo_key_pair, \<lparr>world = demo_committed, trace = tr\<rparr>)"
    using demo_initialized by blast
  from enclave.initialization_recoverable [OF demo_linked run demo_two_keys] show ?thesis
    by (simp add: demo_same_place demo_key_pair_def)
qed

lemma demo_restores_from:
  assumes "world s = demo_committed"
  shows "\<exists>kp t. restore_key_material (demo_enclave Serve) demo_endpoint (Local demo_endpoint) (demo_settings Serve) s
     = (Inr kp, t)"
proof -
  have rec: "recoverable (crates (demo_enclave Serve)) (d_objects demo_committed) (demo_wrapped demo_committed)
      (s3_bucket (demo_settings Serve)) (s3_prefix (demo_settings Serve))
      (map key_arn (kms_keys (demo_settings Serve))) demo_public"
    using demo_recoverable by (simp add: demo_same_place) (simp add: demo_settings_def)
  have "\<exists>kp t. restore_key_material (demo_enclave Serve) demo_endpoint (Local demo_endpoint)
      (demo_settings Serve) s = (Inr kp, t) \<and> public_key kp = demo_public"
    by (rule enclave.restore_succeeds [OF demo_linked rec _ demo_primary_configured])
      (use demo_loads demo_unwraps assms in \<open>simp_all add: demo_same_place enclave.later_def grows_def\<close>)
  then show ?thesis by blast
qed

lemma demo_restored:
  "\<exists>kp t. restore_key_material (demo_enclave Serve) demo_endpoint (Local demo_endpoint) (demo_settings Serve)
     demo_later = (Inr kp, t)"
  by (rule demo_restores_from) (simp add: demo_later_def)

theorem restore_is_sound_witness:
  "\<exists>kp t mbody m. restore_key_material (demo_enclave Serve) demo_endpoint (Local demo_endpoint)
      (demo_settings Serve) demo_later = (Inr kp, t)
     \<and> loaded_during (demo_enclave Serve) demo_endpoint ''b'' demo_later t
         (manifest_key (demo_settings Serve)) mbody
     \<and> manifest_of_json demo_libs mbody = Inr m \<and> key_fingerprint m = fingerprint kp"
proof -
  obtain kp t where run: "restore_key_material (demo_enclave Serve) demo_endpoint (Local demo_endpoint)
      (demo_settings Serve) demo_later = (Inr kp, t)"
    using demo_restored by blast
  from restore_is_sound [OF this] run show ?thesis unfolding demo_crates demo_same_place(1) by blast
qed

theorem initialization_checks_uploads_witness:
  "\<exists>kp t u refs. initialize_key_material (demo_enclave InitKey) demo_endpoint (Local demo_endpoint)
      (demo_settings InitKey) demo_start = (Inr kp, t)
     \<and> list_all2 (checked_reference (demo_enclave InitKey) demo_endpoint (Local demo_endpoint)
          (demo_settings InitKey) demo_start u (public_key kp)) (kms_keys (demo_settings InitKey)) refs"
proof -
  obtain tr where run: "initialize_key_material (demo_enclave InitKey) demo_endpoint (Local demo_endpoint)
      (demo_settings InitKey) demo_start = (Inr demo_key_pair, \<lparr>world = demo_committed, trace = tr\<rparr>)"
    using demo_initialized by blast
  from initialization_checks_uploads [OF this] run show ?thesis by blast
qed

theorem restored_key_is_initialised_key_witness:
  "\<exists>kp t. restore_key_material (demo_enclave Serve) demo_endpoint (Local demo_endpoint) (demo_settings Serve)
     demo_later = (Inr kp, t) \<and> public_key kp = demo_public \<and> fingerprint kp = demo_zeros"
proof -
  obtain tr where init: "initialize_key_material (demo_enclave InitKey) demo_endpoint (Local demo_endpoint)
      (demo_settings InitKey) demo_start = (Inr demo_key_pair, \<lparr>world = demo_committed, trace = tr\<rparr>)"
    using demo_initialized by blast
  obtain kp t where restore: "restore_key_material (demo_enclave Serve) demo_endpoint (Local demo_endpoint)
      (demo_settings Serve) demo_later = (Inr kp, t)"
    using demo_restored by blast
  have "public_key kp = public_key demo_key_pair \<and> fingerprint kp = fingerprint demo_key_pair"
    by (rule restored_key_is_initialised_key [OF demo_linked init demo_two_keys _ _ demo_linked _ restore])
      (simp_all add: demo_later_def demo_same_place)
  with restore show ?thesis by (simp add: demo_key_pair_def)
qed

theorem concurrent_initialisations_agree_witness:
  "\<exists>kp t. initialize_key_material (demo_enclave InitKey) demo_endpoint (Local demo_endpoint)
      (demo_settings InitKey) demo_start = (Inr kp, t)
     \<and> public_key kp = public_key demo_key_pair \<and> fingerprint kp = fingerprint demo_key_pair"
proof -
  obtain tr where init: "initialize_key_material (demo_enclave InitKey) demo_endpoint (Local demo_endpoint)
      (demo_settings InitKey) demo_start = (Inr demo_key_pair, \<lparr>world = demo_committed, trace = tr\<rparr>)"
    using demo_initialized by blast
  from concurrent_initialisations_agree [OF demo_linked init demo_linked _ init demo_two_keys demo_two_keys, of demo_committed]
  have "public_key demo_key_pair = public_key demo_key_pair \<and> fingerprint demo_key_pair = fingerprint demo_key_pair"
    by simp
  with init show ?thesis by blast
qed

theorem any_one_key_restores_witness:
  "\<exists>kp t. restore_key_material (demo_enclave InitKey) demo_endpoint (Local demo_endpoint) (demo_settings Serve)
     demo_later = (Inr kp, t) \<and> public_key kp = demo_public"
proof -
  obtain tr where init: "initialize_key_material (demo_enclave InitKey) demo_endpoint (Local demo_endpoint)
      (demo_settings InitKey) demo_start = (Inr demo_key_pair, \<lparr>world = demo_committed, trace = tr\<rparr>)"
    using demo_initialized by blast
  have "key_arn demo_primary \<in> set (map key_arn (kms_keys (demo_settings InitKey)))"
    by (rule demo_primary_configured)
  then have "\<exists>kp t. restore_key_material (demo_enclave InitKey) demo_endpoint (Local demo_endpoint)
      (demo_settings Serve) demo_later = (Inr kp, t) \<and> public_key kp = public_key demo_key_pair"
    by (intro any_one_key_restores [OF demo_linked init demo_two_keys _ _ _ _ demo_primary_configured(1)])
      (use demo_loads demo_unwraps in \<open>simp_all add: demo_later_def demo_same_place\<close>)
  then show ?thesis by (simp add: demo_key_pair_def)
qed

theorem existing_manifest_refused_witness:
  "\<not> is_ok (fst (initialize_key_material (demo_enclave InitKey) demo_endpoint (Local demo_endpoint)
     (demo_settings InitKey) demo_later))"
proof -
  obtain r t where run: "initialize_key_material (demo_enclave InitKey) demo_endpoint (Local demo_endpoint)
      (demo_settings InitKey) demo_later = (r, t)" by force
  have "d_objects (world demo_later) (s3_bucket (demo_settings InitKey), manifest_key (demo_settings InitKey))
      = Some [7]"
    by (simp add: demo_later_def demo_committed_def demo_same_place(1))
  from existing_manifest_refused [OF demo_linked this run] run show ?thesis by simp
qed

theorem serve_mode_blocks_initialization_witness:
  "\<not> is_ok (fst (initialize_key_material (demo_enclave Serve) demo_endpoint (Local demo_endpoint)
     (demo_settings InitKey) demo_start))"
  by (rule serve_mode_blocks_initialization [OF demo_linked]) (simp add: demo_settings_def)

section \<open>Start-up\<close>

definition demo_tee_env :: env where
  "demo_tee_env = [''ENCLAVE_BROKER_ENDPOINT'' \<mapsto> ''tcp:broker:7001'']"

text \<open>A serving process over the committed objects, up to its RPC server.\<close>

lemma demo_tee_serves:
  "\<exists>t evs. decrypt_server_tee_main (demo_enclave Serve) demo_tee_env [''decrypt-server-tee''] demo_later = (Inr (), t)
     \<and> trace t = trace demo_later @ evs \<and> list_ex serves_rpc evs"
proof -
  have parse: "endpoint_parse ''tcp:broker:7001'' = Inr demo_endpoint"
    "endpoint_parse default_enclave_rpc_endpoint = Inr (Tcp ''127.0.0.1:7003'')"
    by (simp_all add: endpoint_parse_def demo_endpoint_def default_enclave_rpc_endpoint_def)
  have env: "load_environment (demo_enclave Serve) demo_tee_env = (Inr (), demo_tee_env)"
    by (simp add: load_environment_def demo_tee_env_def) (simp add: demo_enclave_def demo_platform_def)
  have client: "kms_client_from_env (demo_enclave Serve) demo_tee_env demo_endpoint = Inr (Local demo_endpoint)"
    by (simp add: kms_client_from_env_def running_in_enclave_def optional_env_def demo_tee_env_def)
  have accounts: "kms_account_from_arn (demo_arn sl) = Inr (label sl)" for sl
    by (rule kms_account_from_arn_shape [of _ "''aws''" "''r''" _ "label sl"]) (cases sl; simp add: demo_arn_def)+
  have valid: "validate_kms_configuration (demo_settings Serve) u = (Inr (), u)" for u :: "demo sys"
    by (simp add: validate_kms_configuration_def demo_settings_def accounts io_simps whenM_def)
      (simp add: demo_arn_def)
  have serve: "mode (demo_settings Serve) = Serve" by (simp add: demo_settings_def)
  have restores: "\<exists>kp t. restore_key_material (demo_enclave Serve) demo_endpoint (Local demo_endpoint)
      (demo_settings Serve) \<lparr>world = demo_committed, trace = tr\<rparr> = (Inr kp, t)" for tr
    by (rule demo_restores_from) simp
  have run: "\<exists>t. run_decrypt_server_tee (demo_enclave Serve) demo_tee_env (demo_settings Serve) demo_endpoint
      \<lparr>world = demo_committed, trace = tr\<rparr> = (Inr (), t)" for tr
  proof -
    obtain kp t where "restore_key_material (demo_enclave Serve) demo_endpoint (Local demo_endpoint)
      (demo_settings Serve) \<lparr>world = demo_committed, trace = tr @ [Stdout ''config: loaded from enclave-broker'',
        Stdout (''config: s3_bucket='' @ ''b''), Stdout (''config: s3_prefix='' @ ''p'')]\<rparr> = (Inr kp, t)"
      using restores by blast
    then show ?thesis
      by (simp add: run_decrypt_server_tee_def Let_def io_simps valid client serve demo_same_place(1,2))
  qed
  have vars: "env_or demo_tee_env ''ENCLAVE_BROKER_ENDPOINT'' d = ''tcp:broker:7001''"
    "env_or demo_tee_env ''ENCLAVE_RPC_LISTEN_ENDPOINT'' d = d" for d
    by (simp_all add: env_or_def demo_tee_env_def)
  have rpc: "\<exists>t tr. serve_enclave_rpc (demo_enclave Serve) (Tcp a) u = (Inr (), t) \<and> trace t = tr @ [Serve_Rpc (Tcp a)]"
    for a u
    by (simp add: serve_enclave_rpc_def demo_enclave_def demo_platform_def io_simps)
  have "\<exists>t tr. decrypt_server_tee_main (demo_enclave Serve) demo_tee_env [''decrypt-server-tee''] demo_later
      = (Inr (), t) \<and> trace t = tr @ [Serve_Rpc (Tcp ''127.0.0.1:7003'')]"
    using run [of "[Stdout (''startup: enclave_broker_endpoint='' @ debug_endpoint demo_libs demo_endpoint)]
        @ sent GetSettings"] rpc
    by (auto simp: decrypt_server_tee_main_def env io_simps vars parse demo_get_settings apply_command_def
        first_argument_def serve demo_later_def)
  then obtain t tr where main: "decrypt_server_tee_main (demo_enclave Serve) demo_tee_env [''decrypt-server-tee'']
      demo_later = (Inr (), t)" and tr: "trace t = tr @ [Serve_Rpc (Tcp ''127.0.0.1:7003'')]" by blast
  from emitsD [OF main_guarded main] obtain evs where "trace t = trace demo_later @ evs" by blast
  with main tr show ?thesis by (auto simp: demo_later_def)
qed

theorem rpc_only_after_restore_witness:
  "\<exists>evs. list_ex serves_rpc evs \<and> (\<exists>before restore kp after.
     evs = before @ restore @ restore_report (crates (demo_enclave Serve)) kp @ after
     \<and> \<not> list_ex serves_rpc (before @ restore) \<and> restoring_run (demo_enclave Serve) restore kp)"
proof -
  obtain t evs where main: "decrypt_server_tee_main (demo_enclave Serve) demo_tee_env [''decrypt-server-tee'']
      demo_later = (Inr (), t)" "trace t = trace demo_later @ evs" "list_ex serves_rpc evs"
    using demo_tee_serves by blast
  from rpc_only_after_restore [OF main] main(3) show ?thesis by blast
qed

text \<open>A broker that is restricted to the enclave with CID 16. On this platform it serves forever.\<close>

definition demo_broker_env :: env where
  "demo_broker_env = demo_env(''ENCLAVE_BROKER_ALLOWED_CID'' \<mapsto> ''16'')"

definition first_thread :: "demo scheduler" where
  "first_thread = (\<lambda>conns s. [0])"

lemma demo_cid: "trim ''16'' \<noteq> []" "parse_u32 ''16'' = Some 16"
  by (code_simp, simp add: parse_u32_def parse_nat_def digit_value_def starts_with_def)

lemma demo_broker_main:
  "enclave_broker_main demo_platform first_thread demo_broker_env [''enclave-broker''] demo_start = None"
proof -
  have same:
    "optional_env demo_broker_env ''KMS_NUMBER_OF_BYTES'' = optional_env demo_env ''KMS_NUMBER_OF_BYTES''"
    "optional_env demo_broker_env ''KMS_KEY_SPEC'' = optional_env demo_env ''KMS_KEY_SPEC''"
    "optional_env demo_broker_env ''KEY_SPEC'' = optional_env demo_env ''KEY_SPEC''"
    "optional_env demo_broker_env ''KMS_PRIMARY_KEY_ARN'' = optional_env demo_env ''KMS_PRIMARY_KEY_ARN''"
    "optional_env demo_broker_env ''KMS_BACKUP_KEY_ARN'' = optional_env demo_env ''KMS_BACKUP_KEY_ARN''"
    "optional_env demo_broker_env ''S3_BUCKET'' = optional_env demo_env ''S3_BUCKET''"
    "optional_env demo_broker_env ''S3_PREFIX'' = optional_env demo_env ''S3_PREFIX''"
    "optional_env demo_broker_env ''DECRYPT_SERVER_TEE_MODE'' = optional_env demo_env ''DECRYPT_SERVER_TEE_MODE''"
    "optional_env demo_broker_env ''KMS_ENCRYPTION_CONTEXT'' = optional_env demo_env ''KMS_ENCRYPTION_CONTEXT''"
    "optional_env demo_broker_env ''KMS_DRY_RUN'' = optional_env demo_env ''KMS_DRY_RUN''"
    "optional_env demo_broker_env ''KMS_GRANT_TOKENS'' = optional_env demo_env ''KMS_GRANT_TOKENS''"
    by (simp_all add: optional_env_def demo_broker_env_def)
  have "from_env demo_broker_env = from_env demo_env"
    by (simp only: from_env_def required_env_def same)
  then obtain ps where ps: "from_env demo_broker_env = Inr ps"
    using from_env_demo by metis
  have vars: "demo_broker_env ''APP_ENV_FILE'' = None" "demo_broker_env ''ENCLAVE_BROKER_LISTEN_ENDPOINT'' = None"
    "demo_broker_env ''ENCLAVE_BROKER_ALLOWED_CID'' = Some ''16''"
    "optional_env demo_broker_env ''KMS_PRIMARY_ACCESS_KEY_ID'' = None"
    "optional_env demo_broker_env ''KMS_PRIMARY_SECRET_ACCESS_KEY'' = None"
    "optional_env demo_broker_env ''KMS_BACKUP_ACCESS_KEY_ID'' = None"
    "optional_env demo_broker_env ''KMS_BACKUP_SECRET_ACCESS_KEY'' = None"
    by (simp_all add: demo_env_def optional_env_def demo_broker_env_def)
  have "load_environment demo_platform demo_broker_env = (Inr (), demo_broker_env)"
    by (simp add: load_environment_def vars) (simp add: demo_platform_def)
  moreover have "endpoint_parse default_broker_endpoint = Inr (Tcp ''127.0.0.1:7001'')"
    by (simp add: endpoint_parse_def default_broker_endpoint_def)
  moreover note demo_cid
  moreover obtain provs t where
    start: "start_broker demo_platform demo_broker_env (Tcp ''127.0.0.1:7001'') demo_start
      = (Inr (provs, Tcp_Listener 2), t)"
    by (simp add: start_broker_def broker_providers_def listen_endpoint_def io_simps
        explicit_kms_credentials_provider_def vars) (simp add: demo_platform_def io_simps)
  moreover have "accept_loop demo_platform (Tcp_Listener 2) spawn c = None" for spawn c
  proof (rule ccontr)
    assume "accept_loop demo_platform (Tcp_Listener 2) spawn c \<noteq> None"
    then obtain e u t where "listener_accept demo_platform (Tcp_Listener 2) u = (Inl e, t)"
      using accept_loop_iff by (metis not_None_eq prod.collapse)
    then show False
      by (simp add: listener_accept_def io_simps) (simp add: demo_platform_def)
  qed
  ultimately show ?thesis
    using ps by (simp add: enclave_broker_main_def first_argument_def broker_configuration_def env_or_def vars
        allowed_cid_from_env_def serve_enclave_broker_def)
qed

theorem broker_starts_configured_witness:
  "\<exists>ps ep. settings_ok ps \<and> enclave_broker_main demo_platform first_thread demo_broker_env [''enclave-broker''] demo_start
     = serve_enclave_broker demo_platform first_thread demo_broker_env ep ps (Some 16) demo_start"
proof -
  have "demo_broker_env ''APP_ENV_FILE'' = None"
    by (simp add: demo_env_def demo_broker_env_def)
  then have loaded: "load_environment demo_platform demo_broker_env = (Inr (), demo_broker_env)"
    by (simp add: load_environment_def) (simp add: demo_platform_def)
  have cid: "demo_broker_env ''ENCLAVE_BROKER_ALLOWED_CID'' = Some ''16''"
    by (simp add: demo_broker_env_def)
  have no_hello: "first_argument [''enclave-broker''] \<noteq> Some ''hello''"
    by (simp add: first_argument_def)
  have "enclave_broker_main demo_platform first_thread demo_broker_env [''enclave-broker''] demo_start \<noteq> Some (Inl e, demo_start)" for e
    by (simp add: demo_broker_main)
  from broker_starts_configured [OF no_hello this] show ?thesis
  proof (elim exE conjE)
    fix env ps ep allowed
    assume env: "load_environment demo_platform demo_broker_env = (Inr (), env)" and ps: "settings_ok ps"
      and allowed: "case env ''ENCLAVE_BROKER_ALLOWED_CID'' of
         None \<Rightarrow> allowed = None
       | Some v \<Rightarrow> if trim v = [] then allowed = None
                   else \<exists>cid. allowed = Some cid \<and> parse_u32 v = Some cid"
      and serves: "enclave_broker_main demo_platform first_thread demo_broker_env [''enclave-broker''] demo_start
        = serve_enclave_broker demo_platform first_thread env ep ps allowed demo_start"
    from env loaded have "env = demo_broker_env" by simp
    moreover from this allowed cid demo_cid have "allowed = Some 16" by simp
    ultimately show ?thesis using ps serves by blast
  qed
qed

end
