(* ===== verification/Build_Script.thy ===== *)
theory Build_Script
  imports Settings_Env
begin

text \<open>
  The build script \<open>build.rs\<close>: it compiles the protocol definition and, when the
  \<open>nitro-enclave\<close> feature is on, the native shim, and tells Cargo what to link. The vendored
  \<open>protoc\<close>, the gRPC code generator and the C compiler driver are a record of functions; an
  \<open>expect\<close> on one of them panics with the text given here and the \<open>Debug\<close> of its error.
  What the C compiler driver itself prints, and the exit of the process when it fails, belong to it:
  a failure ends the script here like a panic.
\<close>

section \<open>The script\<close>

record 'w build_tools =
  protoc_bin_path :: "string + string"
  compile_protos :: "env \<Rightarrow> string \<Rightarrow> 'w \<Rightarrow> (string + unit) \<times> 'w"
  compile_shim :: "string \<Rightarrow> string \<Rightarrow> 'w \<Rightarrow> (string + unit) \<times> 'w"

definition expect :: "string \<Rightarrow> string + 'a \<Rightarrow> 'a app_result" where
  "expect msg r = map_err (\<lambda>e. Panic (msg @ '': '' @ e)) r"

text \<open>\<open>Path::join\<close> with a relative path.\<close>

definition path_join :: "string \<Rightarrow> string \<Rightarrow> string" where
  "path_join base rel =
     (if base = [] \<or> last base = CHR ''/'' then base @ rel else base @ ''/'' @ rel)"

definition default_nitro_libraries :: string where
  "default_nitro_libraries =
     ''aws-nitro-enclaves-sdk-c,aws-c-auth,aws-c-http,aws-c-io,aws-c-compression,aws-c-cal,aws-c-sdkutils,aws-c-common,s2n,nsm,json-c,crypto''"

definition or_else :: "string option \<Rightarrow> string \<Rightarrow> string" where
  "or_else x d = (case x of Some v \<Rightarrow> v | None \<Rightarrow> d)"

fun print_lines :: "string list \<Rightarrow> ('w, unit) io" where
  "print_lines [] = returnM ()"
| "print_lines (line # rest) = bindM (emitM (Stdout line)) (\<lambda>_. print_lines rest)"

definition rerun_lines :: "string list" where
  "rerun_lines =
     [''cargo:rerun-if-changed=native/nitro_kms_shim.c'',
      ''cargo:rerun-if-changed=native/nitro_kms_shim.h'',
      ''cargo:rerun-if-env-changed=NITRO_SDK_PREFIX'',
      ''cargo:rerun-if-env-changed=NITRO_SDK_INCLUDE'',
      ''cargo:rerun-if-env-changed=NITRO_SDK_LIB_DIR'',
      ''cargo:rerun-if-env-changed=NITRO_SDK_LIBS'']"

definition link_search :: "string \<Rightarrow> string" where
  "link_search dir = ''cargo:rustc-link-search=native='' @ dir"

definition link_lib :: "string \<Rightarrow> string" where
  "link_lib library = ''cargo:rustc-link-lib='' @ library"

text \<open>The second half of the script, behind the check of the feature.\<close>

definition build_native :: "'w build_tools \<Rightarrow> env \<Rightarrow> ('w, unit) io" where
  "build_native B env =
     (if env ''CARGO_CFG_TARGET_OS'' \<noteq> Some ''linux''
      then throwM (Panic ''the nitro-enclave feature is supported only for Linux targets'')
      else
      (let pfx = or_else (env ''NITRO_SDK_PREFIX'') ''/usr/local'';
           incl = or_else (env ''NITRO_SDK_INCLUDE'') (path_join pfx ''include'');
           lib_dir = or_else (env ''NITRO_SDK_LIB_DIR'') (path_join pfx ''lib'') in
      bindM (callM (Compile_Native ''native/nitro_kms_shim.c'' incl)
              (compile_shim B ''native/nitro_kms_shim.c'' incl)) (\<lambda>r.
      bindM (liftM (map_err Panic r)) (\<lambda>_.
      bindM (print_lines [link_search lib_dir]) (\<lambda>_.
      (let libraries = or_else (env ''NITRO_SDK_LIBS'') default_nitro_libraries in
      print_lines (map link_lib
        (filter (\<lambda>item. item \<noteq> []) (map trim (split_on (CHR '','') libraries))))))))))"

definition build_main :: "'w build_tools \<Rightarrow> env \<Rightarrow> ('w, unit) io" where
  "build_main B env =
     bindM (print_lines [''cargo:rerun-if-changed=proto/enclave.proto'']) (\<lambda>_.
     bindM (liftM (expect ''vendored protoc is unavailable'' (protoc_bin_path B))) (\<lambda>protoc.
     (let env = env(''PROTOC'' \<mapsto> protoc) in
     bindM (callM (Compile_Protos ''proto/enclave.proto'')
             (compile_protos B env ''proto/enclave.proto'')) (\<lambda>r.
     bindM (liftM (expect ''failed to compile enclave gRPC proto'' r)) (\<lambda>_.
     bindM (print_lines rerun_lines) (\<lambda>_.
     if env ''CARGO_FEATURE_NITRO_ENCLAVE'' = None then returnM () else build_native B env))))))"

section \<open>Lemmas\<close>

text \<open>The directives to the linker among the events, and the calls of the C compiler.\<close>

definition link_lines :: "event list \<Rightarrow> string list" where
  "link_lines evs =
     concat (map (\<lambda>ev. case ev of
       Stdout x \<Rightarrow> if starts_with ''cargo:rustc-link'' x then [x] else []
     | _ \<Rightarrow> []) evs)"

definition native_builds :: "event list \<Rightarrow> (string \<times> string) list" where
  "native_builds evs = concat (map (\<lambda>ev. case ev of Compile_Native f i \<Rightarrow> [(f, i)] | _ \<Rightarrow> []) evs)"

lemma print_lines_run: "print_lines ls s = (Inr (), s\<lparr>trace := trace s @ map Stdout ls\<rparr>)"
  by (induction ls arbitrary: s) (simp_all add: io_simps)

lemma link_lines_printed:
  "link_lines (map Stdout ls) = filter (starts_with ''cargo:rustc-link'') ls"
  "native_builds (map Stdout ls) = []"
  by (induction ls) (simp_all add: link_lines_def native_builds_def)

lemma no_link_lines:
  "filter (starts_with ''cargo:rustc-link'') (''cargo:rerun-if-changed=proto/enclave.proto'' # rerun_lines) = []"
  unfolding rerun_lines_def by code_simp

lemma link_line:
  "starts_with ''cargo:rustc-link'' (link_lib l)"
  "starts_with ''cargo:rustc-link'' (link_search l)"
  by (simp_all add: starts_with_iff link_lib_def link_search_def)

lemma link_all:
  "filter (starts_with ''cargo:rustc-link'') (link_search d # map link_lib ls) = link_search d # map link_lib ls"
  by (simp only: filter_id_conv) (auto simp: link_line)

lemma link_lines_append [simp]:
  "link_lines (evs @ evs') = link_lines evs @ link_lines evs'"
  "native_builds (evs @ evs') = native_builds evs @ native_builds evs'"
  by (simp_all add: link_lines_def native_builds_def)

lemma other_events:
  "link_lines (ev # Compile_Protos f # evs) = link_lines (ev # evs)"
  "native_builds (ev # Compile_Protos f # evs) = native_builds (ev # evs)"
  "link_lines (Compile_Native f i # evs) = link_lines evs"
  "native_builds (Compile_Native f i # evs) = (f, i) # native_builds evs"
  by (simp_all add: link_lines_def native_builds_def)

lemma build_native_Inr:
  assumes "build_native B env s = (Inr (), t)"
  shows "env ''CARGO_CFG_TARGET_OS'' = Some ''linux'' \<and>
    (\<exists>incl lib_dir libs. trace t = trace s @ [Compile_Native ''native/nitro_kms_shim.c'' incl]
        @ map Stdout ((link_search lib_dir)
            # map link_lib libs)
      \<and> incl = or_else (env ''NITRO_SDK_INCLUDE'')
          (path_join (or_else (env ''NITRO_SDK_PREFIX'') ''/usr/local'') ''include'')
      \<and> lib_dir = or_else (env ''NITRO_SDK_LIB_DIR'')
          (path_join (or_else (env ''NITRO_SDK_PREFIX'') ''/usr/local'') ''lib'')
      \<and> libs = parse_csv (or_else (env ''NITRO_SDK_LIBS'') default_nitro_libraries))"
  using assms unfolding build_native_def Let_def
  by (auto simp: print_lines_run parse_csv_def callM_run comp_def elim!: bindM_InrE split: if_splits)

lemma build_main_Inr:
  assumes "build_main B env s = (Inr (), t)"
  shows "\<exists>p u. trace u = trace s @ Stdout ''cargo:rerun-if-changed=proto/enclave.proto''
      # Compile_Protos ''proto/enclave.proto'' # map Stdout rerun_lines
    \<and> (if env ''CARGO_FEATURE_NITRO_ENCLAVE'' = None then returnM ()
       else build_native B (env(''PROTOC'' \<mapsto> p))) u = (Inr (), t)"
proof -
  from assms obtain p w where "(if env ''CARGO_FEATURE_NITRO_ENCLAVE'' = None then returnM ()
      else build_native B (env(''PROTOC'' \<mapsto> p))) \<lparr>world = w, trace = trace s
        @ Stdout ''cargo:rerun-if-changed=proto/enclave.proto''
        # Compile_Protos ''proto/enclave.proto'' # map Stdout rerun_lines\<rparr> = (Inr (), t)"
    unfolding build_main_def Let_def by (auto simp: print_lines_run callM_run elim!: bindM_InrE)
  then show ?thesis
    by (intro exI [of _ p] exI [of _ "\<lparr>world = w, trace = trace s
        @ Stdout ''cargo:rerun-if-changed=proto/enclave.proto''
        # Compile_Protos ''proto/enclave.proto'' # map Stdout rerun_lines\<rparr>"]) simp
qed

section \<open>Property\<close>

text \<open>
  Property C39. The build links the native shim exactly when asked to. A build that succeeds without
  the \<open>nitro-enclave\<close> feature compiles no C and links nothing; with it, the target is Linux, the
  shim is compiled once against the configured headers, and the linker gets the configured directory
  and the configured libraries in their order, trimmed and without empty items.
\<close>

theorem build_links_exactly:
  assumes "build_main B env s = (Inr (), t)" and "trace t = trace s @ evs"
  shows "if env ''CARGO_FEATURE_NITRO_ENCLAVE'' = None then native_builds evs = [] \<and> link_lines evs = []
    else env ''CARGO_CFG_TARGET_OS'' = Some ''linux''
      \<and> native_builds evs = [(''native/nitro_kms_shim.c'', or_else (env ''NITRO_SDK_INCLUDE'')
          (path_join (or_else (env ''NITRO_SDK_PREFIX'') ''/usr/local'') ''include''))]
      \<and> link_lines evs = (link_search (or_else (env ''NITRO_SDK_LIB_DIR'')
          (path_join (or_else (env ''NITRO_SDK_PREFIX'') ''/usr/local'') ''lib'')))
        # map link_lib (parse_csv (or_else (env ''NITRO_SDK_LIBS'') default_nitro_libraries))"
proof -
  define start where "start = Stdout ''cargo:rerun-if-changed=proto/enclave.proto''
    # Compile_Protos ''proto/enclave.proto'' # map Stdout rerun_lines"
  have start: "link_lines start = []" "native_builds start = []"
    unfolding start_def other_events list.map(2) [symmetric] link_lines_printed no_link_lines by simp_all
  from build_main_Inr [OF assms(1)] obtain p u where p: "trace u = trace s @ start"
    and rest: "(if env ''CARGO_FEATURE_NITRO_ENCLAVE'' = None then returnM ()
      else build_native B (env(''PROTOC'' \<mapsto> p))) u = (Inr (), t)"
    unfolding start_def by blast
  show ?thesis
  proof (cases "env ''CARGO_FEATURE_NITRO_ENCLAVE''")
    case None
    with rest p start assms(2) show ?thesis by auto
  next
    case (Some v)
    with rest have "build_native B (env(''PROTOC'' \<mapsto> p)) u = (Inr (), t)" by simp
    from build_native_Inr [OF this] obtain incl lib_dir libs where linux: "env ''CARGO_CFG_TARGET_OS'' = Some ''linux''"
      and evs: "evs = start @ [Compile_Native ''native/nitro_kms_shim.c'' incl]
        @ map Stdout (link_search lib_dir # map link_lib libs)"
      and paths: "incl = or_else (env ''NITRO_SDK_INCLUDE'')
          (path_join (or_else (env ''NITRO_SDK_PREFIX'') ''/usr/local'') ''include'')"
        "lib_dir = or_else (env ''NITRO_SDK_LIB_DIR'')
          (path_join (or_else (env ''NITRO_SDK_PREFIX'') ''/usr/local'') ''lib'')"
        "libs = parse_csv (or_else (env ''NITRO_SDK_LIBS'') default_nitro_libraries)"
      using p assms(2) by auto
    have "native_builds evs = [(''native/nitro_kms_shim.c'', incl)]"
      unfolding evs link_lines_append start link_lines_printed append_Cons append_Nil other_events by simp
    moreover have "link_lines evs = link_search lib_dir # map link_lib libs"
      unfolding evs link_lines_append start link_lines_printed append_Cons append_Nil other_events link_all by simp
    ultimately show ?thesis using Some linux unfolding paths by simp
  qed
qed

section \<open>Witness\<close>

text \<open>A build with the feature on Linux, with an include directory and three libraries configured.\<close>

definition working_tools :: "unit build_tools" where
  "working_tools =
     \<lparr>protoc_bin_path = Inr ''/protoc'', compile_protos = (\<lambda>env f w. (Inr (), w)),
      compile_shim = (\<lambda>f i w. (Inr (), w))\<rparr>"

definition nitro_build_env :: env where
  "nitro_build_env =
     [''CARGO_FEATURE_NITRO_ENCLAVE'' \<mapsto> ''1'', ''CARGO_CFG_TARGET_OS'' \<mapsto> ''linux'',
      ''NITRO_SDK_INCLUDE'' \<mapsto> ''/inc'', ''NITRO_SDK_LIBS'' \<mapsto> ''nsm, ,s2n'']"

lemma working_libraries: "parse_csv ''nsm, ,s2n'' = [''nsm'', ''s2n'']"
  by code_simp

theorem build_links_exactly_witness:
  "\<exists>t evs. build_main working_tools nitro_build_env \<lparr>world = (), trace = []\<rparr> = (Inr (), t)
     \<and> trace t = evs \<and> native_builds evs = [(''native/nitro_kms_shim.c'', ''/inc'')]
     \<and> link_lines evs = [''cargo:rustc-link-search=native=/usr/local/lib'',
         ''cargo:rustc-link-lib=nsm'', ''cargo:rustc-link-lib=s2n'']"
proof -
  let ?s = "\<lparr>world = (), trace = []\<rparr> :: unit sys"
  obtain t where t: "build_main working_tools nitro_build_env ?s = (Inr (), t)"
    by (simp add: build_main_def build_native_def Let_def print_lines_run callM_run io_simps expect_def
      working_tools_def nitro_build_env_def del: print_lines.simps)
  from build_links_exactly [OF t, of "trace t"]
  have "native_builds (trace t) = [(''native/nitro_kms_shim.c'', ''/inc'')]
     \<and> link_lines (trace t) = [''cargo:rustc-link-search=native=/usr/local/lib'',
         ''cargo:rustc-link-lib=nsm'', ''cargo:rustc-link-lib=s2n'']"
    by (simp add: nitro_build_env_def or_else_def link_search_def link_lib_def path_join_def working_libraries)
  with t show ?thesis by blast
qed

end
