(* ===== verification/Spec2Isabelle.thy ===== *)
theory Spec2Isabelle
  imports Examples Build_Script
begin

text \<open>
  A model of the key-material program in \<open>src/\<close>: an enclave process that creates or restores
  an Ed25519 key pair whose private key is stored in S3, encrypted once under a data key of each of
  two KMS keys, and a broker process on the parent instance that gives the enclave its settings, its
  KMS credentials and its only access to S3.

  \<^bold>\<open>Parts and theories.\<close>

  \<^item> \<open>Prelude\<close>, \<open>Text_Numbers\<close>: the functions of the Rust standard library on strings,
  numbers and results that the program calls. Strings are UTF-8 byte sequences.
  \<^item> \<open>Kms_Types\<close>: the constants, enums and structs of \<open>lib.rs\<close> and
  \<open>key_material.rs\<close>, the broker protocol, errors (\<open>Err\<close> for an error value,
  \<open>Panic\<close> for a panic) and the record \<open>libs\<close> of pure library functions.
  \<^item> \<open>Effects\<close>, \<open>Platform\<close>, \<open>World_Laws\<close>: operations with effects. An
  operation takes the state of its process, the world outside it and the trace of its external calls
  so far, and returns a result and the next state. Every external call is a field of a record that the
  model takes as an argument.
  \<^item> \<open>Settings_Env\<close>: \<open>ParentSettings::from_env\<close> with all parsers of single
  variables, \<open>KmsKeySettings::from_arn\<close> and \<open>kms_request_settings\<close> (\<open>lib.rs\<close>).
  \<^item> \<open>Endpoints\<close>: \<open>Endpoint::parse\<close>, connecting, listening and accepting, with the
  system calls of the module \<open>linux_vsock\<close> and their arguments (\<open>lib.rs\<close>).
  \<^item> \<open>Frames\<close>: \<open>write_json_frame\<close> and \<open>read_json_frame\<close> (\<open>lib.rs\<close>).
  \<^item> \<open>Broker_Client\<close>: \<open>request_broker\<close>, its typed wrappers and
  \<open>BrokerS3Client\<close>, the enclave's side of the protocol.
  \<^item> \<open>S3_Objects\<close>: \<open>load_s3_object\<close> and \<open>save_s3_object_if_absent\<close> of
  \<open>key_material.rs\<close>, with the PutObject request the latter builds. \<open>S3_Machine\<close>: a reference
  for their retry loops, as machines that make one SDK call per step. \<open>S3_Threads\<close>: the
  operations themselves, suspended at their SDK calls, in many threads over one store.
  \<^item> \<open>Broker\<close>, \<open>Broker_Loop\<close>: \<open>serve_enclave_broker\<close>. \<open>start_broker\<close>
  is its start-up, \<open>answer\<close> and \<open>handle_request\<close> compute the response of one connection,
  \<open>connection_thread\<close> is the closure handed to \<open>thread::spawn\<close>. The accept loop is given
  twice: as the step relation \<open>broker_step\<close>, in which pending threads run in any order, and as
  the partial function \<open>accept_loop\<close>, whose value \<open>None\<close> says that it runs forever and whose
  argument, a scheduler, chooses the pending threads that run before the next accept.
  \<^item> \<open>Key_Crypto\<close>: encryption of the private key, decoding, digests, names in S3.
  \<^item> \<open>Kms_Clients\<close>: \<open>KmsDataKeyClient\<close> over the AWS SDK (\<open>key_material.rs\<close>)
  and over the native shim (\<open>nitro_kms.rs\<close>).
  \<^item> \<open>Key_Material\<close>: \<open>initialize_key_material\<close>, \<open>restore_key_material\<close>,
  \<open>run_decrypt_server_tee\<close> and the validation of everything that is read back.
  \<^item> \<open>Key_Schedule\<close>, \<open>Key_Events\<close>, \<open>Key_Guarantees\<close>: what these do in
  order, what they can print, and what they guarantee.
  \<^item> \<open>Composition\<close>: the enclave process against the broker process.
  \<^item> \<open>Enclave_Main\<close>: the two programs of \<open>bin_support.rs\<close> and the hello RPC.
  \<^item> \<open>Build_Script\<close>: \<open>build.rs\<close>.
  \<^item> \<open>Demo\<close>, \<open>Examples\<close>: a concrete platform and the properties applied to it.
\<close>

text \<open>
  \<^bold>\<open>Interfaces.\<close> \<open>length_header\<close> is what the frames need of the length prefix.
  \<open>object_store\<close> is the contract of a write-once store: the broker's S3 operations provide it
  over documented S3. \<open>data_key_service\<close> is the contract of generating and unwrapping data keys:
  both KMS clients provide it over documented KMS. \<open>key_store\<close> is what the key material needs of
  the broker's store and of the data keys together: the broker seen through the client
  (\<open>Composition\<close>) provides it. Each is interpreted on the model's own definitions.

  \<^bold>\<open>What is shown.\<close> End to end, a key restored from S3 is the key that was initialised, any
  one of the two KMS keys is enough to restore it, an existing manifest is never replaced, and
  initialisations that race agree on the key. For any peers, a successful restore has checked the key
  against the loaded manifest, its digests and the public key, and a successful initialisation has
  read back, checked and unwrapped all it uploaded before it writes the manifest. The order of all
  requests, KMS calls and random draws is given exactly; restoring writes nothing; an initialisation
  prints only lines that its settings fix. For the broker, every run of the
  step relation keeps S3 accesses in the configured prefix and writes to init-key mode; a peer with
  another CID gets a refusal and causes no other effect; every request gets a response of its own type or an error; under every
  scheduler the loop ends only when start-up or an accept fails. For S3, every write is conditional on
  the absence of the object, the loops stop after four attempts and agree with the machines, and they
  stay consistent and finite when the calls of many threads interleave. The remaining
  properties are about single components: parsers, frames, codings, KMS requests, descriptors, the
  order of the main programs, and the build script.

  \<^bold>\<open>Assumptions.\<close> Many properties assume nothing about the code outside. The others name
  what they use: \<open>libs_ok\<close> (digests have 32 bytes, decoders invert encoders),
  \<open>s3_documented\<close> (a write with \<open>If-None-Match: *\<close> creates and never replaces, reads see
  what was written; nothing is promised for other writes),
  \<open>kms_documented\<close> (unwrapping gives back what was wrapped), \<open>calls_keep\<close> (other calls
  do not remove objects), \<open>fds_ok\<close> (system calls open and close the descriptors they say),
  \<open>serves\<close> (the bytes an enclave reads back are a prefix of what a broker thread answered to the
  bytes it sent, other clients adding objects before and after); \<open>linked\<close> bundles them. The
  theory \<open>Examples\<close> discharges each at the platform of \<open>Demo\<close>.

  \<^bold>\<open>Bounds.\<close> The two S3 loops run over the list \<open>[1, 2, 3, 4]\<close> of attempts, as the
  source does. A load makes at most four calls; a save at most eight, four writes and four reads for
  the comparison. These are the step bounds of \<open>S3_Threads\<close>, proved there for every
  interleaving and every answer of S3. A frame holds at most 1048576 bytes. Everything else is structural recursion, except the
  accept loop.
\<close>

text \<open>
  \<^bold>\<open>Not modelled.\<close> Erasing of secrets (\<open>Zeroizing\<close>, \<open>Drop\<close>), since the
  model has no memory to inspect. The native shim in \<open>native/\<close>, a C program over the Nitro SDK:
  its two functions and the release of their buffers are fields of the platform. The gRPC transport and
  code generated from \<open>proto/\<close>, the parser of socket addresses, \<open>serde_json\<close>, the AWS SDKs
  and the operating system are parameters. \<open>try_clone_stream\<close> is never called. A failure of
  \<open>thread::spawn\<close> itself (a panic of the broker) is not modelled. The three \<open>main\<close>
  functions only call those of \<open>bin_support.rs\<close>. In \<open>broker_step\<close> and
  \<open>accept_loop\<close> a thread is one step; \<open>S3_Threads\<close> interleaves the single calls of S3
  operations. Shell scripts, image
  definition and tests are left out.

  \<^bold>\<open>What the model showed.\<close> \<open>from_env\<close> fills in the key specification also when
  \<open>KMS_NUMBER_OF_BYTES\<close> is set, so that setting can never be used
  (\<open>number_of_bytes_conflicts\<close>). \<open>docs/STARTUP.md\<close> names the directory of a recovery
  package after an access key, the code after the KMS key and a digest of its ARN.
\<close>

end
